(* ===== verification/Prelude.thy ===== *)
theory Prelude
  imports Main
begin

text \<open>
  Shared vocabulary of the development: the errors a JavaScript statement can throw, results as
  sums, JavaScript objects as association lists in insertion order, decimal rendering of numbers
  in template literals, and the generic lemmas the components use about them.
\<close>

section \<open>Results\<close>

text \<open>
  What a statement throws. The message of an \<open>Error\<close> the code creates is kept, because callers
  see it; the text of the runtime's own \<open>TypeError\<close> and \<open>SyntaxError\<close> is not.
\<close>

datatype js_error =
    Error string
  | TypeError
  | SyntaxError

text \<open>A fallible computation: \<open>Throw\<close> is an exception or a rejected promise.\<close>

abbreviation Throw :: "'e \<Rightarrow> 'e + 'a" where
  "Throw \<equiv> Inl"

abbreviation Return :: "'a \<Rightarrow> 'e + 'a" where
  "Return \<equiv> Inr"

named_theorems js_simps \<open>evaluation of the JavaScript primitives on concrete values\<close>

section \<open>Objects as association lists\<close>

text \<open>
  A plain object is the list of its own properties in insertion order. \<open>put\<close> is the assignment
  \<open>obj[k] = v\<close>: an existing property keeps its place, a new one goes to the end.
\<close>

fun put :: "'k \<Rightarrow> 'v \<Rightarrow> ('k \<times> 'v) list \<Rightarrow> ('k \<times> 'v) list" where
  "put k v [] = [(k, v)]"
| "put k v ((k', v') # ps) = (if k = k' then (k, v) # ps else (k', v') # put k v ps)"

text \<open>\<open>delete obj[k]\<close>.\<close>

definition del :: "'k \<Rightarrow> ('k \<times> 'v) list \<Rightarrow> ('k \<times> 'v) list" where
  "del k ps = filter (\<lambda>p. fst p \<noteq> k) ps"

text \<open>\<open>Object.assign(target, source)\<close>: the source's properties are assigned in order.\<close>

definition assign :: "('k \<times> 'v) list \<Rightarrow> ('k \<times> 'v) list \<Rightarrow> ('k \<times> 'v) list" where
  "assign target source = fold (\<lambda>(k, v). put k v) source target"

lemma map_of_put [simp]: "map_of (put k v ps) = (map_of ps)(k \<mapsto> v)"
  by (induction ps) (auto simp: fun_eq_iff)

lemma keys_put: "fst ` set (put k v ps) = insert k (fst ` set ps)"
proof (induction ps)
  case Nil
  then show ?case by simp
next
  case (Cons p ps)
  then show ?case by (cases p) (simp, blast)
qed

lemma distinct_put [intro]: "distinct (map fst ps) \<Longrightarrow> distinct (map fst (put k v ps))"
proof (induction k v ps rule: put.induct)
  case (2 k v k' v' ps)
  then show ?case by (auto simp: keys_put image_iff)
qed simp

lemma put_ne_Nil [simp]: "put k v ps \<noteq> []"
  by (cases "(k, v, ps)" rule: put.cases) auto

lemma put_same: "map_of ps k = Some v \<Longrightarrow> put k v ps = ps"
  by (induction k v ps rule: put.induct) (auto split: if_splits)

lemma map_of_del [simp]: "map_of (del k ps) = (map_of ps)(k := None)"
  by (induction ps) (auto simp: del_def fun_eq_iff)

lemma keys_del [simp]: "fst ` set (del k ps) = fst ` set ps - {k}"
  by (auto simp: del_def)

lemma distinct_del [intro]: "distinct (map fst ps) \<Longrightarrow> distinct (map fst (del k ps))"
  by (induction ps) (auto simp: del_def)

lemma map_fst_del: "map fst (del k ps) = filter (\<lambda>k'. k' \<noteq> k) (map fst ps)"
  by (induction ps) (auto simp: del_def)

lemma assign_Nil [simp]: "assign target [] = target"
  by (simp add: assign_def)

lemma assign_Cons [simp]: "assign target ((k, v) # source) = assign (put k v target) source"
  by (simp add: assign_def)

lemma assign_append: "assign target (xs @ ys) = assign (assign target xs) ys"
  by (simp add: assign_def)

text \<open>The last assignment to a property wins; untouched properties stay.\<close>

lemma map_of_assign: "map_of (assign target source) = map_of target ++ map_of (rev source)"
proof (induction source arbitrary: target)
  case Nil
  then show ?case by simp
next
  case (Cons p source)
  then show ?case by (cases p) (simp add: map_add_def fun_eq_iff split: option.splits)
qed

lemma distinct_assign: "distinct (map fst target) \<Longrightarrow> distinct (map fst (assign target source))"
proof (induction source arbitrary: target)
  case Nil
  then show ?case by simp
next
  case (Cons p source)
  then show ?case by (cases p) (auto intro!: Cons.IH distinct_put)
qed

lemma keys_assign: "fst ` set (assign target source) = fst ` set target \<union> fst ` set source"
proof (induction source arbitrary: target)
  case Nil
  then show ?case by simp
next
  case (Cons p source)
  then show ?case by (cases p) (auto simp: keys_put)
qed

lemma map_of_rev_distinct: "distinct (map fst ps) \<Longrightarrow> map_of (rev ps) = map_of ps"
proof (induction ps)
  case Nil
  then show ?case by simp
next
  case (Cons p ps)
  then have "map_of ps (fst p) = None" by (simp add: map_of_eq_None_iff)
  then show ?case using Cons by (cases p) (auto simp: map_add_def fun_eq_iff split: option.splits)
qed

section \<open>Strings and numbers\<close>

text \<open>\<open>s.startsWith(p)\<close>.\<close>

definition startsWith :: "string \<Rightarrow> string \<Rightarrow> bool" where
  "startsWith s p \<longleftrightarrow> take (length p) s = p"

lemma startsWith_iff: "startsWith s p \<longleftrightarrow> (\<exists>t. s = p @ t)"
  by (metis append_eq_conv_conj append_take_drop_id startsWith_def)

lemma startsWith_append [simp]: "startsWith (p @ t) p"
  by (simp add: startsWith_def)

text \<open>Decimal rendering, as in a template literal.\<close>

definition digit_char :: "nat \<Rightarrow> char" where
  "digit_char d = char_of (48 + d)"

fun show_nat :: "nat \<Rightarrow> string" where
  "show_nat n = (if n < 10 then [digit_char n] else show_nat (n div 10) @ [digit_char (n mod 10)])"

declare show_nat.simps [simp del]
declare show_nat.simps [js_simps]

definition show_int :: "int \<Rightarrow> string" where
  "show_int i = (if i < 0 then ''-'' @ show_nat (nat (- i)) else show_nat (nat i))"

text \<open>\<open>a || b\<close> on an optional string, number or other value: the empty string, 0 and
  \<open>undefined\<close> are falsy, an object never is.\<close>

fun or_str :: "string option \<Rightarrow> string \<Rightarrow> string" where
  "or_str (Some (c # cs)) d = c # cs"
| "or_str _ d = d"

fun or_num :: "int option \<Rightarrow> int \<Rightarrow> int" where
  "or_num (Some n) d = (if n = 0 then d else n)"
| "or_num None d = d"

fun or_obj :: "'a option \<Rightarrow> 'a \<Rightarrow> 'a" where
  "or_obj (Some x) d = x"
| "or_obj None d = d"

lemma or_str_ne: "d \<noteq> [] \<Longrightarrow> or_str s d \<noteq> []"
  by (cases "(s, d)" rule: or_str.cases) auto

lemma or_num_nz: "d \<noteq> 0 \<Longrightarrow> or_num n d \<noteq> 0"
  by (cases n) auto

section \<open>Lists updated by index\<close>

lemma sum_list_update_nat:
  fixes f :: "'a \<Rightarrow> nat"
  shows "i < length xs \<Longrightarrow> sum_list (map f (xs[i := y])) + f (xs ! i) = sum_list (map f xs) + f y"
proof (induction xs arbitrary: i)
  case Nil
  then show ?case by simp
next
  case (Cons x xs)
  then show ?case by (cases i) (auto simp: add.assoc add.left_commute)
qed

end
