(* ===== verification/Json.thy ===== *)
theory Json
  imports Prelude
begin

text \<open>
  \<open>packages/util-types/src/json.ts\<close>: the JSON types and the two type guards every other package
  uses, with the JavaScript primitives they rest on (\<open>typeof\<close>, \<open>Array.isArray\<close>, truthiness,
  \<open>String()\<close>, property access). A JavaScript value that may be \<open>undefined\<close> is a
  \<open>json option\<close>, with \<open>None\<close> for \<open>undefined\<close>. Numbers are integers: the code under
  verification only reads HTTP status codes and sequence numbers.
\<close>

datatype json =
    JNull
  | JBool bool
  | JNum int
  | JStr string
  | JArr "json list"
  | JObj "(string \<times> json) list"

type_synonym js_value = "json option"

section \<open>Primitives\<close>

fun js_typeof :: "js_value \<Rightarrow> string" where
  "js_typeof None = ''undefined''"
| "js_typeof (Some JNull) = ''object''"
| "js_typeof (Some (JBool _)) = ''boolean''"
| "js_typeof (Some (JNum _)) = ''number''"
| "js_typeof (Some (JStr _)) = ''string''"
| "js_typeof (Some (JArr _)) = ''object''"
| "js_typeof (Some (JObj _)) = ''object''"

fun Array_isArray :: "js_value \<Rightarrow> bool" where
  "Array_isArray (Some (JArr _)) = True"
| "Array_isArray _ = False"

fun truthy :: "js_value \<Rightarrow> bool" where
  "truthy None = False"
| "truthy (Some JNull) = False"
| "truthy (Some (JBool b)) = b"
| "truthy (Some (JNum n)) = (n \<noteq> 0)"
| "truthy (Some (JStr s)) = (s \<noteq> [])"
| "truthy (Some (JArr _)) = True"
| "truthy (Some (JObj _)) = True"

text \<open>\<open>String(v)\<close>. An array joins its elements with commas, \<open>null\<close> elements being empty.\<close>

fun intercalate :: "string \<Rightarrow> string list \<Rightarrow> string" where
  "intercalate sep [] = []"
| "intercalate sep [x] = x"
| "intercalate sep (x # y # xs) = x @ sep @ intercalate sep (y # xs)"

fun js_String :: "json \<Rightarrow> string" where
  "js_String JNull = ''null''"
| "js_String (JBool b) = (if b then ''true'' else ''false'')"
| "js_String (JNum n) = show_int n"
| "js_String (JStr s) = s"
| "js_String (JArr xs) = intercalate '','' (map (\<lambda>x. if x = JNull then [] else js_String x) xs)"
| "js_String (JObj _) = ''[object Object]''"

definition String_of :: "js_value \<Rightarrow> string" where
  "String_of v = (case v of None \<Rightarrow> ''undefined'' | Some j \<Rightarrow> js_String j)"

text \<open>
  \<open>v.k\<close>: reading a property of \<open>null\<close> or \<open>undefined\<close> throws; every other value has the own
  properties of an object, and no others among the names the code reads.
\<close>

fun get_prop :: "string \<Rightarrow> js_value \<Rightarrow> js_error + js_value" where
  "get_prop k None = Throw TypeError"
| "get_prop k (Some JNull) = Throw TypeError"
| "get_prop k (Some (JObj ps)) = Return (map_of ps k)"
| "get_prop k (Some (JBool _)) = Return None"
| "get_prop k (Some (JNum _)) = Return None"
| "get_prop k (Some (JStr _)) = Return None"
| "get_prop k (Some (JArr _)) = Return None"

section \<open>The type guards\<close>

definition isJsonArray :: "js_value \<Rightarrow> bool" where
  "isJsonArray jsonType \<longleftrightarrow> Array_isArray jsonType"

definition isJsonObject :: "js_value \<Rightarrow> bool" where
  "isJsonObject jsonType \<longleftrightarrow>
     jsonType \<noteq> Some JNull \<and> js_typeof jsonType = ''object'' \<and> \<not> isJsonArray jsonType"

lemma isJsonArray_iff: "isJsonArray v \<longleftrightarrow> (\<exists>xs. v = Some (JArr xs))"
  by (cases v rule: Array_isArray.cases) (auto simp: isJsonArray_def)

lemma isJsonObject_iff: "isJsonObject v \<longleftrightarrow> (\<exists>ps. v = Some (JObj ps))"
  by (cases v rule: js_typeof.cases) (auto simp: isJsonObject_def isJsonArray_def)

lemma isJsonObject_simps [simp]:
  "isJsonObject (Some (JObj ps))"
  "\<not> isJsonObject (Some (JArr xs))"
  "\<not> isJsonObject (Some JNull)"
  "\<not> isJsonObject (Some (JBool b))"
  "\<not> isJsonObject (Some (JNum n))"
  "\<not> isJsonObject (Some (JStr s))"
  "\<not> isJsonObject None"
  by (auto simp: isJsonObject_iff)

text \<open>The guard is what makes a property read safe.\<close>

lemma isJsonObject_get_prop: "isJsonObject v \<Longrightarrow> \<exists>r. get_prop k v = Return r"
  by (auto simp: isJsonObject_iff)

lemma truthy_get_prop: "truthy v \<Longrightarrow> \<exists>r. get_prop k v = Return r"
  by (cases "(k, v)" rule: get_prop.cases) auto

end
