(* ===== verification/Ts_Types.thy ===== *)
theory Ts_Types
  imports Json
begin

text \<open>
  The types of TypeScript that the packages' interfaces are made of, as data; which JSON values have
  them, and which of them extend others.
\<close>

section \<open>Types\<close>

text \<open>
  The types the interfaces use. A property of an object type has a name, may be optional, and has a
  type; the flag says whether the interface has the index signature \<open>[k: string]: any\<close>.
\<close>

datatype presence = Required | Optional

datatype ts_type =
    TAny
  | TString
  | TNumber
  | TBoolean
  | TLiteral json
  | TArray ts_type
  | TUnion "ts_type list"
  | TObject "(string \<times> presence \<times> ts_type) list" bool

text \<open>A union of string literals.\<close>

definition one_of :: "string list \<Rightarrow> ts_type" where
  "one_of xs = TUnion (map (\<lambda>x. TLiteral (JStr x)) xs)"

text \<open>Which values have a type. Types are structural: an object may have properties its type does not name.\<close>

fun conforms :: "ts_type \<Rightarrow> json \<Rightarrow> bool" where
  "conforms TAny v = True"
| "conforms TString v = (case v of JStr _ \<Rightarrow> True | _ \<Rightarrow> False)"
| "conforms TNumber v = (case v of JNum _ \<Rightarrow> True | _ \<Rightarrow> False)"
| "conforms TBoolean v = (case v of JBool _ \<Rightarrow> True | _ \<Rightarrow> False)"
| "conforms (TLiteral l) v = (v = l)"
| "conforms (TArray t) v = (case v of JArr xs \<Rightarrow> list_all (conforms t) xs | _ \<Rightarrow> False)"
| "conforms (TUnion ts) v = list_ex (\<lambda>t. conforms t v) ts"
| "conforms (TObject props open_ended) v =
     (case v of
        JObj kvs \<Rightarrow> list_all (\<lambda>(name, presence, t).
          case map_of kvs name of None \<Rightarrow> presence = Optional | Some x \<Rightarrow> conforms t x) props
      | _ \<Rightarrow> False)"

section \<open>Subtyping\<close>

text \<open>
  A sound check for structural subtyping of the types at hand: every property of the second type is,
  required, in the first one, with a type that gives the other.
\<close>

fun gives :: "ts_type \<Rightarrow> ts_type \<Rightarrow> bool" where
  "gives (TLiteral (JStr s)) TString = True"
| "gives t u = (t = u)"

fun subtype :: "ts_type \<Rightarrow> ts_type \<Rightarrow> bool" where
  "subtype (TObject ps open_ended) (TObject qs open_ended') =
     list_all (\<lambda>(name, presence, u). case map_of ps name of Some (Required, t) \<Rightarrow> gives t u | _ \<Rightarrow> False) qs"
| "subtype t u = (t = u)"

lemma gives_conforms: "gives t u \<Longrightarrow> conforms t v \<Longrightarrow> conforms u v"
  by (induction t u rule: gives.induct) auto

lemma subtype_conforms:
  assumes "subtype t u" and "conforms t v"
  shows "conforms u v"
proof (cases "\<exists>ps o1 qs o2. t = TObject ps o1 \<and> u = TObject qs o2")
  case False
  then have "t = u" using assms(1) by (cases "(t, u)" rule: subtype.cases) auto
  then show ?thesis using assms(2) by simp
next
  case True
  then obtain ps o1 qs o2 where tu: "t = TObject ps o1" "u = TObject qs o2" by blast
  obtain kvs where v: "v = JObj kvs" using assms(2) tu(1) by (cases v) auto
  have "case map_of kvs name of None \<Rightarrow> presence = Optional | Some x \<Rightarrow> conforms s x"
    if q: "(name, presence, s) \<in> set qs" for name presence s
  proof -
    have "case map_of ps name of Some (Required, t) \<Rightarrow> gives t s | _ \<Rightarrow> False"
      using assms(1) tu q by (auto simp: list_all_iff)
    then obtain r where r: "map_of ps name = Some (Required, r)" "gives r s"
      by (auto split: option.splits presence.splits) (metis presence.exhaust)+
    obtain x where "map_of kvs name = Some x" "conforms r x"
      using assms(2) tu(1) v map_of_SomeD [OF r(1)] by (fastforce simp: list_all_iff split: option.splits)
    then show ?thesis using gives_conforms [OF r(2)] by simp
  qed
  then show ?thesis using tu(2) v by (auto simp: list_all_iff)
qed

text \<open>What a value of an object type has under a required name.\<close>

lemma conforms_required:
  assumes "conforms (TObject props open_ended) v" and "(name, Required, t) \<in> set props"
  shows "\<exists>kvs x. v = JObj kvs \<and> map_of kvs name = Some x \<and> conforms t x"
proof (cases v)
  case (JObj kvs)
  then show ?thesis using assms by (fastforce simp: list_all_iff split: option.splits)
qed (use assms in simp_all)

lemma conforms_string: "conforms TString v \<Longrightarrow> \<exists>s. v = JStr s"
  by (cases v) simp_all

lemma conforms_required_string:
  "conforms (TObject props open_ended) v \<Longrightarrow> (name, Required, TString) \<in> set props \<Longrightarrow>
     \<exists>kvs s. v = JObj kvs \<and> map_of kvs name = Some (JStr s)"
  by (drule conforms_required, assumption) (auto dest: conforms_string simp del: conforms.simps)

end
