(* ===== verification/Ums_Types.thy ===== *)
theory Ums_Types
  imports Ts_Types
begin

text \<open>
  The compiled interfaces of \<open>packages/ums-generated/generated/index.ts\<close>: the types of the messages of
  the messaging server, as data, and which JSON values have them. The files' comments are left out.
\<close>

section \<open>The interfaces\<close>

definition ActionReason :: ts_type where
  "ActionReason = TObject
    [(''type'', Required, TLiteral (JStr ''ActionReason'')),
     (''reasonId'', Optional, TString),
     (''reason'', Optional, TString)] False"

definition BotResponse :: ts_type where
  "BotResponse = TObject
    [(''type'', Required, TLiteral (JStr ''BotResponse'')),
     (''externalConversationId'', Optional, TString),
     (''businessCases'', Optional, TArray TString),
     (''intents'', Optional, TArray (TObject
       [(''name'', Optional, TString),
        (''id'', Required, TString),
        (''confidence'', Required, TNumber)] True))] False"

definition IbmWatsonInfo :: ts_type where
  "IbmWatsonInfo = TObject
    [(''type'', Required, TLiteral (JStr ''IBMWatsonInfo'')),
     (''branch_exited'', Optional, TBoolean),
     (''branch_exited_reason'', Optional, TString),
     (''capability'', Optional, TString),
     (''nodes_visited'', Optional, TArray TString),
     (''referred_capability'', Optional, TString),
     (''referred_nodes'', Optional, TArray TString),
     (''referred_visitor_message_sequences'', Required, TArray TNumber),
     (''entities'', Optional, TArray (TObject
       [(''entity'', Optional, TString),
        (''location'', Optional, TArray TNumber),
        (''value'', Optional, TString)] True))] False"

definition ExternalId :: ts_type where
  "ExternalId = TObject
    [(''type'', Required, TLiteral (JStr ''ExternalId'')),
     (''id'', Required, TString)] False"

definition TextValue :: ts_type where
  "TextValue = TObject
    [(''type'', Required, TString),
     (''contentType'', Required, TString),
     (''message'', Required, TString)] True"

definition Element :: ts_type where
  "Element = TObject [] True"

definition RichContentEvent :: ts_type where
  "RichContentEvent = TObject
    [(''type'', Required, TLiteral (JStr ''RichContentEvent'')),
     (''content'', Optional, Element)] True"

definition HostedFile :: ts_type where
  "HostedFile = TObject
    [(''type'', Required, TString),
     (''contentType'', Required, TString),
     (''message'', Required, TObject
       [(''caption'', Required, TString),
        (''relativePath'', Required, TString),
        (''fileType'', Required, one_of [''IMG'', ''JPG'', ''PNG'', ''GIF'', ''TXT'', ''PDF'']),
        (''preview'', Optional, TAny)] True)] True"

definition ChatStateEvent :: ts_type where
  "ChatStateEvent = TObject
    [(''type'', Required, TString),
     (''chatState'', Required, one_of [''ACTIVE'', ''INACTIVE'', ''GONE'', ''COMPOSING'', ''PAUSE''])] True"

definition AcceptStatusEvent :: ts_type where
  "AcceptStatusEvent = TObject
    [(''type'', Required, TString),
     (''status'', Required, one_of [''ACCEPT'', ''READ'', ''ACCESS'', ''NACK'', ''ACTION'']),
     (''sequenceList'', Required, TArray TNumber)] True"

definition MessagingEventNotification :: ts_type where
  "MessagingEventNotification = TObject
    [(''kind'', Required, TString),
     (''type'', Required, TString),
     (''body'', Required, TObject
       [(''changes'', Required, TArray (TObject
          [(''sequence'', Required, TNumber),
           (''originatorId'', Required, TString),
           (''metadata'', Optional, TArray (TUnion [ActionReason, BotResponse, IbmWatsonInfo, ExternalId])),
           (''serverTimestamp'', Required, TNumber),
           (''event'', Required, TUnion [TextValue, RichContentEvent, HostedFile, ChatStateEvent, AcceptStatusEvent]),
           (''dialogId'', Required, TString)] True))] True)] True"

definition ExConversationChangeNotification :: ts_type where
  "ExConversationChangeNotification = TObject
    [(''kind'', Required, TString),
     (''type'', Required, TLiteral (JStr ''cqm.ExConversationChangeNotification'')),
     (''body'', Required, TObject
       [(''subscriptionId'', Required, TString),
        (''changes'', Required, TArray (TObject
          [(''type'', Required, one_of [''UPSERT'', ''DELETE'']),
           (''result'', Required, TObject
             [(''convId'', Required, TString),
              (''conversationDetails'', Required, TObject
                [(''participants'', Required, TArray (TObject
                   [(''id'', Optional, TString),
                    (''role'', Optional, one_of [''CONSUMER'', ''ASSIGNED_AGENT'', ''MANAGER''])] True)),
                 (''state'', Required, one_of [''OPEN'', ''CLOSE'']),
                 (''startTs'', Required, TNumber),
                 (''endTs'', Optional, TNumber),
                 (''ttr'', Optional, TObject
                   [(''ttrType'', Required, one_of [''CUSTOM'', ''NORMAL'', ''PRIORITIZED'',
                      ''URGENT'']),
                    (''value'', Required, TNumber)] True),
                 (''delay'', Optional, TObject
                   [(''type'', Required, one_of [''NIGHT'', ''WEEKEND'', ''HOLIDAY'']),
                    (''tillWhen'', Required, TNumber)] True),
                 (''csat'', Optional, TObject
                   [(''field'', Required, TLiteral (JStr ''CSATRate'')),
                    (''csatRate'', Required, TUnion [TLiteral (JNum 1), TLiteral (JNum 2), TLiteral (JNum 3), TLiteral (JNum 4), TLiteral (JNum 5)]),
                    (''csatResolutionConfirmation'', Required, TBoolean),
                    (''status'', Required, one_of [''FILLED'', ''PARTIALLY_FILLED'', ''SKIPPED''])] True),
                 (''manualETTR'', Optional, TNumber)] True),
              (''lastUpdateTime'', Required, TNumber)] True)] True))] True)] True"

definition RoutingTaskNotification :: ts_type where
  "RoutingTaskNotification = TObject
    [(''kind'', Required, TString),
     (''type'', Required, TLiteral (JStr ''routing.routingTaskNotification'')),
     (''body'', Required, TObject
       [(''subscriptionId'', Required, TString),
        (''changes'', Required, TArray (TObject
          [(''type'', Required, one_of [''DELETE'', ''UPSERT'']),
           (''result'', Required, TObject
             [(''taskCompleted'', Required, TBoolean),
              (''conversationId'', Required, TString),
              (''consumerId'', Required, TString),
              (''skillId'', Required, TString),
              (''ringsDetails'', Required, TArray (TObject
                [(''ringId'', Optional, TString),
                 (''ringExpiration'', Optional, TNumber),
                 (''ringState'', Required, one_of [''ACCEPTED'', ''AUTO_ACCEPT'', ''CANCELLED'',
                   ''EXPIRED'', ''REJECTED'', ''WAITING'']),
                 (''weight'', Optional, TNumber)] True))] True)] True))] True)] True"

definition AgentStateNotification :: ts_type where
  "AgentStateNotification = TObject
    [(''kind'', Required, TString),
     (''type'', Required, TLiteral (JStr ''routing.agentStateNotification'')),
     (''body'', Required, TObject
       [(''subscriptionId'', Required, TString),
        (''changes'', Required, TArray (TObject
          [(''type'', Required, one_of [''UPSERT'', ''DELETE'']),
           (''result'', Required, TObject
             [(''availability'', Required, one_of [''AWAY'', ''BACK_SOON'', ''OFFLINE'', ''ONLINE''])] True)] True))] True)] True"

definition RequestConversationResponse :: ts_type where
  "RequestConversationResponse = TObject
    [(''kind'', Required, TString),
     (''reqId'', Required, TString),
     (''type'', Required, TString),
     (''code'', Required, TNumber),
     (''body'', Required, TObject
       [(''conversationId'', Required, TString)] True)] True"

definition StringResp :: ts_type where
  "StringResp = TObject
    [(''kind'', Required, TString),
     (''reqId'', Required, TString),
     (''type'', Required, TString),
     (''code'', Required, TNumber),
     (''body'', Required, TString)] True"

definition PublishEventResponse :: ts_type where
  "PublishEventResponse = TObject
    [(''kind'', Required, TString),
     (''reqId'', Required, TString),
     (''type'', Required, TString),
     (''code'', Required, TNumber),
     (''body'', Required, TObject
       [(''sequence'', Optional, TNumber)] True)] True"

definition GenericSubscribeResponse :: ts_type where
  "GenericSubscribeResponse = TObject
    [(''kind'', Required, TString),
     (''reqId'', Required, TString),
     (''type'', Required, TString),
     (''code'', Required, TNumber),
     (''body'', Required, TObject [] True)] True"

definition CustomerInfo :: ts_type where
  "CustomerInfo = TObject
    [(''type'', Required, TString),
     (''auth'', Optional, TObject
       [(''amr'', Optional, TArray (one_of [''face'', ''fpt'', ''geo'', ''hwk'', ''iris'', ''kba'',
          ''mca'', ''mfa'', ''otp'', ''pin'', ''pwd'', ''rba'', ''retina'', ''sc'', ''sms'', ''swk'',
          ''tel'', ''user'', ''vbm'', ''wia''])),
        (''iss'', Optional, TString)] True),
     (''info'', Required, TObject
       [(''cstatus'', Optional, TString),
        (''ctype'', Optional, TString),
        (''customerId'', Optional, TString),
        (''balance'', Optional, TNumber),
        (''socialId'', Optional, TString),
        (''imei'', Optional, TString),
        (''userName'', Optional, TString),
        (''companySize'', Optional, TNumber),
        (''accountName'', Optional, TString),
        (''role'', Optional, TString),
        (''lastPaymentDate'', Optional, TObject
          [(''day'', Required, TNumber),
           (''month'', Required, TNumber),
           (''year'', Required, TNumber)] True),
        (''registrationDate'', Optional, TObject
          [(''day'', Required, TNumber),
           (''month'', Required, TNumber),
           (''year'', Required, TNumber)] True)] True)] True"

definition PersonalInfo :: ts_type where
  "PersonalInfo = TObject
    [(''type'', Required, TString),
     (''auth'', Optional, TObject
       [(''amr'', Optional, TArray (one_of [''face'', ''fpt'', ''geo'', ''hwk'', ''iris'', ''kba'',
          ''mca'', ''mfa'', ''otp'', ''pin'', ''pwd'', ''rba'', ''retina'', ''sc'', ''sms'', ''swk'',
          ''tel'', ''user'', ''vbm'', ''wia''])),
        (''iss'', Optional, TString)] True),
     (''personal'', Required, TObject
       [(''firstname'', Optional, TString),
        (''lastname'', Optional, TString),
        (''age'', Optional, TObject
          [(''age'', Optional, TNumber),
           (''year'', Optional, TNumber),
           (''month'', Optional, TNumber),
           (''day'', Optional, TNumber)] True),
        (''contacts'', Optional, TArray (TObject
          [(''email'', Optional, TString),
           (''phone'', Optional, TString)] True)),
        (''gender'', Optional, one_of [''MALE'', ''FEMALE'', ''OTHER'']),
        (''language'', Optional, TString),
        (''company'', Optional, TString)] True)] True"

definition GetUserProfileResponse :: ts_type where
  "GetUserProfileResponse = TObject
    [(''kind'', Required, TString),
     (''reqId'', Required, TString),
     (''type'', Required, TLiteral (JStr ''up.GetUserProfile$Response'')),
     (''code'', Required, TNumber),
     (''body'', Required, TArray (TUnion [CustomerInfo, PersonalInfo]))] True"

definition SubscribeExConversationsResponse :: ts_type where
  "SubscribeExConversationsResponse = TObject
    [(''kind'', Required, TString),
     (''reqId'', Required, TString),
     (''type'', Required, TString),
     (''code'', Required, TNumber),
     (''body'', Required, TObject
       [(''subscriptionId'', Required, TString)] True)] True"

definition ActionReason1 :: ts_type where
  "ActionReason1 = TObject
    [(''type'', Required, TLiteral (JStr ''ActionReason'')),
     (''reasonId'', Optional, TString),
     (''reason'', Optional, TString)] False"

definition BotResponse1 :: ts_type where
  "BotResponse1 = TObject
    [(''type'', Required, TLiteral (JStr ''BotResponse'')),
     (''externalConversationId'', Optional, TString),
     (''businessCases'', Optional, TArray TString),
     (''intents'', Optional, TArray (TObject
       [(''name'', Optional, TString),
        (''id'', Required, TString),
        (''confidence'', Required, TNumber)] True))] False"

definition IbmWatsonInfo1 :: ts_type where
  "IbmWatsonInfo1 = TObject
    [(''type'', Required, TLiteral (JStr ''IBMWatsonInfo'')),
     (''branch_exited'', Optional, TBoolean),
     (''branch_exited_reason'', Optional, TString),
     (''capability'', Optional, TString),
     (''nodes_visited'', Optional, TArray TString),
     (''referred_capability'', Optional, TString),
     (''referred_nodes'', Optional, TArray TString),
     (''referred_visitor_message_sequences'', Required, TArray TNumber),
     (''entities'', Optional, TArray (TObject
       [(''entity'', Optional, TString),
        (''location'', Optional, TArray TNumber),
        (''value'', Optional, TString)] True))] False"

definition ExternalId1 :: ts_type where
  "ExternalId1 = TObject
    [(''type'', Required, TLiteral (JStr ''ExternalId'')),
     (''id'', Required, TString)] False"

definition TextValue1 :: ts_type where
  "TextValue1 = TObject
    [(''type'', Required, TString),
     (''contentType'', Required, TString),
     (''message'', Required, TString)] True"

definition Element1 :: ts_type where
  "Element1 = TObject [] True"

definition RichContentEvent1 :: ts_type where
  "RichContentEvent1 = TObject
    [(''type'', Required, TLiteral (JStr ''RichContentEvent'')),
     (''content'', Optional, Element1)] True"

definition HostedFile1 :: ts_type where
  "HostedFile1 = TObject
    [(''type'', Required, TString),
     (''contentType'', Required, TString),
     (''message'', Required, TObject
       [(''caption'', Required, TString),
        (''relativePath'', Required, TString),
        (''fileType'', Required, one_of [''IMG'', ''JPG'', ''PNG'', ''GIF'', ''TXT'', ''PDF'']),
        (''preview'', Optional, TAny)] True)] True"

definition ChatStateEvent1 :: ts_type where
  "ChatStateEvent1 = TObject
    [(''type'', Required, TString),
     (''chatState'', Required, one_of [''ACTIVE'', ''INACTIVE'', ''GONE'', ''COMPOSING'', ''PAUSE''])] True"

definition AcceptStatusEvent1 :: ts_type where
  "AcceptStatusEvent1 = TObject
    [(''type'', Required, TString),
     (''status'', Required, one_of [''ACCEPT'', ''READ'', ''ACCESS'', ''NACK'', ''ACTION'']),
     (''sequenceList'', Required, TArray TNumber)] True"

definition MessagingEventNotification1 :: ts_type where
  "MessagingEventNotification1 = TObject
    [(''kind'', Required, TString),
     (''type'', Required, TLiteral (JStr ''ms.MessagingEventNotification'')),
     (''body'', Required, TObject
       [(''changes'', Required, TArray (TObject
          [(''sequence'', Required, TNumber),
           (''originatorId'', Required, TString),
           (''metadata'', Optional, TArray (TUnion [ActionReason1, BotResponse1, IbmWatsonInfo1, ExternalId1])),
           (''serverTimestamp'', Required, TNumber),
           (''event'', Required, TUnion [TextValue1, RichContentEvent1, HostedFile1, ChatStateEvent1, AcceptStatusEvent1]),
           (''dialogId'', Required, TString)] True))] True)] True"

definition ActionReason2 :: ts_type where
  "ActionReason2 = TObject
    [(''type'', Required, TLiteral (JStr ''ActionReason'')),
     (''reasonId'', Optional, TString),
     (''reason'', Optional, TString)] False"

definition BotResponse2 :: ts_type where
  "BotResponse2 = TObject
    [(''type'', Required, TLiteral (JStr ''BotResponse'')),
     (''externalConversationId'', Optional, TString),
     (''businessCases'', Optional, TArray TString),
     (''intents'', Optional, TArray (TObject
       [(''name'', Optional, TString),
        (''id'', Required, TString),
        (''confidence'', Required, TNumber)] True))] False"

definition IbmWatsonInfo2 :: ts_type where
  "IbmWatsonInfo2 = TObject
    [(''type'', Required, TLiteral (JStr ''IBMWatsonInfo'')),
     (''branch_exited'', Optional, TBoolean),
     (''branch_exited_reason'', Optional, TString),
     (''capability'', Optional, TString),
     (''nodes_visited'', Optional, TArray TString),
     (''referred_capability'', Optional, TString),
     (''referred_nodes'', Optional, TArray TString),
     (''referred_visitor_message_sequences'', Required, TArray TNumber),
     (''entities'', Optional, TArray (TObject
       [(''entity'', Optional, TString),
        (''location'', Optional, TArray TNumber),
        (''value'', Optional, TString)] True))] False"

definition ExternalId2 :: ts_type where
  "ExternalId2 = TObject
    [(''type'', Required, TLiteral (JStr ''ExternalId'')),
     (''id'', Required, TString)] False"

definition ClientProperties :: ts_type where
  "ClientProperties = TObject
    [(''type'', Required, TLiteral (JStr ''.ams.headers.ClientProperties'')),
     (''appId'', Optional, TString),
     (''appVersion'', Optional, TString),
     (''ipAddress'', Optional, TString),
     (''deviceFamily'', Optional, one_of [''DESKTOP'', ''TABLET'', ''MOBILE'', ''OTHER'']),
     (''os'', Optional, one_of [''WINDOWS'', ''LINUX'', ''OSX'', ''ANDROID'', ''IOS'',
       ''OTHER'']),
     (''osVersion'', Optional, TString),
     (''osName'', Optional, TString),
     (''integration'', Optional, one_of [''WEB_SDK'', ''MOBILE_SDK'', ''BRAND_SDK'']),
     (''integrationVersion'', Optional, TString),
     (''browser'', Optional, TString),
     (''browserVersion'', Optional, TString),
     (''timeZone'', Optional, TString),
     (''deviceManufacture'', Optional, TString),
     (''deviceModel'', Optional, TString),
     (''features'', Optional, TArray (one_of [''CO_BROWSE'', ''CO_APP'', ''PHOTO_SHARING'',
       ''SECURE_FORMS'', ''AUTO_MESSAGES'', ''RICH_CONTENT'']))] True"

definition ConsumerAuthentication :: ts_type where
  "ConsumerAuthentication = TObject
    [(''type'', Required, TLiteral (JStr ''.ams.headers.ConsumerAuthentication'')),
     (''jwt'', Required, TString)] True"

definition InitConnection :: ts_type where
  "InitConnection = TObject
    [(''kind'', Optional, TString),
     (''id'', Required, TString),
     (''type'', Required, TLiteral (JStr ''InitConnection'')),
     (''metadata'', Optional, TArray (TUnion [ActionReason2, BotResponse2, IbmWatsonInfo2, ExternalId2])),
     (''headers'', Required, TArray (TUnion [ClientProperties, ConsumerAuthentication]))] True"

definition ActionReason3 :: ts_type where
  "ActionReason3 = TObject
    [(''type'', Required, TLiteral (JStr ''ActionReason'')),
     (''reasonId'', Optional, TString),
     (''reason'', Optional, TString)] False"

definition BotResponse3 :: ts_type where
  "BotResponse3 = TObject
    [(''type'', Required, TLiteral (JStr ''BotResponse'')),
     (''externalConversationId'', Optional, TString),
     (''businessCases'', Optional, TArray TString),
     (''intents'', Optional, TArray (TObject
       [(''name'', Optional, TString),
        (''id'', Required, TString),
        (''confidence'', Required, TNumber)] True))] False"

definition IbmWatsonInfo3 :: ts_type where
  "IbmWatsonInfo3 = TObject
    [(''type'', Required, TLiteral (JStr ''IBMWatsonInfo'')),
     (''branch_exited'', Optional, TBoolean),
     (''branch_exited_reason'', Optional, TString),
     (''capability'', Optional, TString),
     (''nodes_visited'', Optional, TArray TString),
     (''referred_capability'', Optional, TString),
     (''referred_nodes'', Optional, TArray TString),
     (''referred_visitor_message_sequences'', Required, TArray TNumber),
     (''entities'', Optional, TArray (TObject
       [(''entity'', Optional, TString),
        (''location'', Optional, TArray TNumber),
        (''value'', Optional, TString)] True))] False"

definition ExternalId3 :: ts_type where
  "ExternalId3 = TObject
    [(''type'', Required, TLiteral (JStr ''ExternalId'')),
     (''id'', Required, TString)] False"

definition StateChange :: ts_type where
  "StateChange = TObject
    [(''field'', Required, TLiteral (JStr ''ConversationStateField'')),
     (''conversationState'', Required, TLiteral (JStr ''CLOSE''))] True"

definition ParticipantsChangeForAgents :: ts_type where
  "ParticipantsChangeForAgents = TObject
    [(''field'', Required, TLiteral (JStr ''ParticipantsChange'')),
     (''type'', Required, one_of [''ADD'', ''REMOVE'', ''UPDATE'']),
     (''role'', Required, one_of [''MANAGER'', ''READER'', ''ASSIGNED_AGENT''])] True"

definition SkillChange :: ts_type where
  "SkillChange = TObject
    [(''field'', Required, TLiteral (JStr ''Skill'')),
     (''type'', Required, TLiteral (JStr ''UPDATE'')),
     (''skill'', Required, TString)] True"

definition TtrChange :: ts_type where
  "TtrChange = TObject
    [(''field'', Required, TLiteral (JStr ''TTRField'')),
     (''ttrType'', Required, one_of [''CUSTOM'', ''NORMAL'', ''PRIORITIZED'', ''URGENT'']),
     (''value'', Required, TNumber)] True"

definition CsatChange :: ts_type where
  "CsatChange = TObject
    [(''field'', Required, TLiteral (JStr ''CSATRate'')),
     (''csatRate'', Required, TUnion [TLiteral (JNum 1), TLiteral (JNum 2), TLiteral (JNum 3), TLiteral (JNum 4), TLiteral (JNum 5)]),
     (''csatResolutionConfirmation'', Required, TBoolean),
     (''status'', Required, one_of [''FILLED'', ''PARTIALLY_FILLED'', ''SKIPPED''])] True"

definition UpdateConversationField :: ts_type where
  "UpdateConversationField = TObject
    [(''kind'', Optional, TString),
     (''id'', Required, TString),
     (''type'', Required, TLiteral (JStr ''cm.UpdateConversationField'')),
     (''metadata'', Optional, TArray (TUnion [ActionReason3, BotResponse3, IbmWatsonInfo3, ExternalId3])),
     (''body'', Required, TObject
       [(''conversationId'', Required, TString),
        (''conversationField'', Required, TArray (TUnion [StateChange, ParticipantsChangeForAgents, SkillChange, TtrChange, CsatChange]))] True)] True"

definition ActionReason4 :: ts_type where
  "ActionReason4 = TObject
    [(''type'', Required, TLiteral (JStr ''ActionReason'')),
     (''reasonId'', Optional, TString),
     (''reason'', Optional, TString)] False"

definition BotResponse4 :: ts_type where
  "BotResponse4 = TObject
    [(''type'', Required, TLiteral (JStr ''BotResponse'')),
     (''externalConversationId'', Optional, TString),
     (''businessCases'', Optional, TArray TString),
     (''intents'', Optional, TArray (TObject
       [(''name'', Optional, TString),
        (''id'', Required, TString),
        (''confidence'', Required, TNumber)] True))] False"

definition IbmWatsonInfo4 :: ts_type where
  "IbmWatsonInfo4 = TObject
    [(''type'', Required, TLiteral (JStr ''IBMWatsonInfo'')),
     (''branch_exited'', Optional, TBoolean),
     (''branch_exited_reason'', Optional, TString),
     (''capability'', Optional, TString),
     (''nodes_visited'', Optional, TArray TString),
     (''referred_capability'', Optional, TString),
     (''referred_nodes'', Optional, TArray TString),
     (''referred_visitor_message_sequences'', Required, TArray TNumber),
     (''entities'', Optional, TArray (TObject
       [(''entity'', Optional, TString),
        (''location'', Optional, TArray TNumber),
        (''value'', Optional, TString)] True))] False"

definition ExternalId4 :: ts_type where
  "ExternalId4 = TObject
    [(''type'', Required, TLiteral (JStr ''ExternalId'')),
     (''id'', Required, TString)] False"

definition ConsumerRequestConversation :: ts_type where
  "ConsumerRequestConversation = TObject
    [(''kind'', Optional, TString),
     (''id'', Required, TString),
     (''type'', Required, TLiteral (JStr ''cm.ConsumerRequestConversation'')),
     (''metadata'', Optional, TArray (TUnion [ActionReason4, BotResponse4, IbmWatsonInfo4, ExternalId4]))] True"

definition ActionReason5 :: ts_type where
  "ActionReason5 = TObject
    [(''type'', Required, TLiteral (JStr ''ActionReason'')),
     (''reasonId'', Optional, TString),
     (''reason'', Optional, TString)] False"

definition BotResponse5 :: ts_type where
  "BotResponse5 = TObject
    [(''type'', Required, TLiteral (JStr ''BotResponse'')),
     (''externalConversationId'', Optional, TString),
     (''businessCases'', Optional, TArray TString),
     (''intents'', Optional, TArray (TObject
       [(''name'', Optional, TString),
        (''id'', Required, TString),
        (''confidence'', Required, TNumber)] True))] False"

definition IbmWatsonInfo5 :: ts_type where
  "IbmWatsonInfo5 = TObject
    [(''type'', Required, TLiteral (JStr ''IBMWatsonInfo'')),
     (''branch_exited'', Optional, TBoolean),
     (''branch_exited_reason'', Optional, TString),
     (''capability'', Optional, TString),
     (''nodes_visited'', Optional, TArray TString),
     (''referred_capability'', Optional, TString),
     (''referred_nodes'', Optional, TArray TString),
     (''referred_visitor_message_sequences'', Required, TArray TNumber),
     (''entities'', Optional, TArray (TObject
       [(''entity'', Optional, TString),
        (''location'', Optional, TArray TNumber),
        (''value'', Optional, TString)] True))] False"

definition ExternalId5 :: ts_type where
  "ExternalId5 = TObject
    [(''type'', Required, TLiteral (JStr ''ExternalId'')),
     (''id'', Required, TString)] False"

definition TextValue2 :: ts_type where
  "TextValue2 = TObject
    [(''type'', Required, TString),
     (''contentType'', Required, TString),
     (''message'', Required, TString)] True"

definition Element2 :: ts_type where
  "Element2 = TObject [] True"

definition RichContentEvent2 :: ts_type where
  "RichContentEvent2 = TObject
    [(''type'', Required, TLiteral (JStr ''RichContentEvent'')),
     (''content'', Optional, Element2)] True"

definition HostedFile2 :: ts_type where
  "HostedFile2 = TObject
    [(''type'', Required, TString),
     (''contentType'', Required, TString),
     (''message'', Required, TObject
       [(''caption'', Required, TString),
        (''relativePath'', Required, TString),
        (''fileType'', Required, one_of [''IMG'', ''JPG'', ''PNG'', ''GIF'', ''TXT'', ''PDF'']),
        (''preview'', Optional, TAny)] True)] True"

definition ChatStateEvent2 :: ts_type where
  "ChatStateEvent2 = TObject
    [(''type'', Required, TString),
     (''chatState'', Required, one_of [''ACTIVE'', ''INACTIVE'', ''GONE'', ''COMPOSING'', ''PAUSE''])] True"

definition AcceptStatusEvent2 :: ts_type where
  "AcceptStatusEvent2 = TObject
    [(''type'', Required, TString),
     (''status'', Required, one_of [''ACCEPT'', ''READ'', ''ACCESS'', ''NACK'', ''ACTION'']),
     (''sequenceList'', Required, TArray TNumber)] True"

definition PublishEvent :: ts_type where
  "PublishEvent = TObject
    [(''kind'', Optional, TString),
     (''id'', Required, TString),
     (''type'', Required, TLiteral (JStr ''ms.PublishEvent'')),
     (''metadata'', Optional, TArray (TUnion [ActionReason5, BotResponse5, IbmWatsonInfo5, ExternalId5])),
     (''body'', Required, TObject
       [(''dialogId'', Required, TString),
        (''event'', Required, TUnion [TextValue2, RichContentEvent2, HostedFile2, ChatStateEvent2, AcceptStatusEvent2])] True)] True"

definition ActionReason6 :: ts_type where
  "ActionReason6 = TObject
    [(''type'', Required, TLiteral (JStr ''ActionReason'')),
     (''reasonId'', Optional, TString),
     (''reason'', Optional, TString)] False"

definition BotResponse6 :: ts_type where
  "BotResponse6 = TObject
    [(''type'', Required, TLiteral (JStr ''BotResponse'')),
     (''externalConversationId'', Optional, TString),
     (''businessCases'', Optional, TArray TString),
     (''intents'', Optional, TArray (TObject
       [(''name'', Optional, TString),
        (''id'', Required, TString),
        (''confidence'', Required, TNumber)] True))] False"

definition IbmWatsonInfo6 :: ts_type where
  "IbmWatsonInfo6 = TObject
    [(''type'', Required, TLiteral (JStr ''IBMWatsonInfo'')),
     (''branch_exited'', Optional, TBoolean),
     (''branch_exited_reason'', Optional, TString),
     (''capability'', Optional, TString),
     (''nodes_visited'', Optional, TArray TString),
     (''referred_capability'', Optional, TString),
     (''referred_nodes'', Optional, TArray TString),
     (''referred_visitor_message_sequences'', Required, TArray TNumber),
     (''entities'', Optional, TArray (TObject
       [(''entity'', Optional, TString),
        (''location'', Optional, TArray TNumber),
        (''value'', Optional, TString)] True))] False"

definition ExternalId6 :: ts_type where
  "ExternalId6 = TObject
    [(''type'', Required, TLiteral (JStr ''ExternalId'')),
     (''id'', Required, TString)] False"

definition SubscribeMessagingEvents :: ts_type where
  "SubscribeMessagingEvents = TObject
    [(''kind'', Optional, TString),
     (''id'', Required, TString),
     (''type'', Required, TLiteral (JStr ''ms.SubscribeMessagingEvents'')),
     (''metadata'', Optional, TArray (TUnion [ActionReason6, BotResponse6, IbmWatsonInfo6, ExternalId6])),
     (''body'', Required, TObject
       [(''fromSeq'', Optional, TNumber),
        (''dialogId'', Required, TString)] True)] True"

definition ActionReason7 :: ts_type where
  "ActionReason7 = TObject
    [(''type'', Required, TLiteral (JStr ''ActionReason'')),
     (''reasonId'', Optional, TString),
     (''reason'', Optional, TString)] False"

definition BotResponse7 :: ts_type where
  "BotResponse7 = TObject
    [(''type'', Required, TLiteral (JStr ''BotResponse'')),
     (''externalConversationId'', Optional, TString),
     (''businessCases'', Optional, TArray TString),
     (''intents'', Optional, TArray (TObject
       [(''name'', Optional, TString),
        (''id'', Required, TString),
        (''confidence'', Required, TNumber)] True))] False"

definition IbmWatsonInfo7 :: ts_type where
  "IbmWatsonInfo7 = TObject
    [(''type'', Required, TLiteral (JStr ''IBMWatsonInfo'')),
     (''branch_exited'', Optional, TBoolean),
     (''branch_exited_reason'', Optional, TString),
     (''capability'', Optional, TString),
     (''nodes_visited'', Optional, TArray TString),
     (''referred_capability'', Optional, TString),
     (''referred_nodes'', Optional, TArray TString),
     (''referred_visitor_message_sequences'', Required, TArray TNumber),
     (''entities'', Optional, TArray (TObject
       [(''entity'', Optional, TString),
        (''location'', Optional, TArray TNumber),
        (''value'', Optional, TString)] True))] False"

definition ExternalId7 :: ts_type where
  "ExternalId7 = TObject
    [(''type'', Required, TLiteral (JStr ''ExternalId'')),
     (''id'', Required, TString)] False"

definition SubscribeExConversations :: ts_type where
  "SubscribeExConversations = TObject
    [(''kind'', Optional, TString),
     (''id'', Required, TString),
     (''type'', Required, TLiteral (JStr ''cqm.SubscribeExConversations'')),
     (''metadata'', Optional, TArray (TUnion [ActionReason7, BotResponse7, IbmWatsonInfo7, ExternalId7])),
     (''body'', Optional, TObject
       [(''minLastUpdatedTime'', Optional, TNumber),
        (''convState'', Optional, TArray (one_of [''OPEN'', ''CLOSE'']))] True)] True"

definition ActionReason8 :: ts_type where
  "ActionReason8 = TObject
    [(''type'', Required, TLiteral (JStr ''ActionReason'')),
     (''reasonId'', Optional, TString),
     (''reason'', Optional, TString)] False"

definition BotResponse8 :: ts_type where
  "BotResponse8 = TObject
    [(''type'', Required, TLiteral (JStr ''BotResponse'')),
     (''externalConversationId'', Optional, TString),
     (''businessCases'', Optional, TArray TString),
     (''intents'', Optional, TArray (TObject
       [(''name'', Optional, TString),
        (''id'', Required, TString),
        (''confidence'', Required, TNumber)] True))] False"

definition IbmWatsonInfo8 :: ts_type where
  "IbmWatsonInfo8 = TObject
    [(''type'', Required, TLiteral (JStr ''IBMWatsonInfo'')),
     (''branch_exited'', Optional, TBoolean),
     (''branch_exited_reason'', Optional, TString),
     (''capability'', Optional, TString),
     (''nodes_visited'', Optional, TArray TString),
     (''referred_capability'', Optional, TString),
     (''referred_nodes'', Optional, TArray TString),
     (''referred_visitor_message_sequences'', Required, TArray TNumber),
     (''entities'', Optional, TArray (TObject
       [(''entity'', Optional, TString),
        (''location'', Optional, TArray TNumber),
        (''value'', Optional, TString)] True))] False"

definition ExternalId8 :: ts_type where
  "ExternalId8 = TObject
    [(''type'', Required, TLiteral (JStr ''ExternalId'')),
     (''id'', Required, TString)] False"

definition UnsubscribeExConversations :: ts_type where
  "UnsubscribeExConversations = TObject
    [(''kind'', Optional, TString),
     (''id'', Required, TString),
     (''type'', Required, TLiteral (JStr ''cqm.UnsubscribeExConversations'')),
     (''metadata'', Optional, TArray (TUnion [ActionReason8, BotResponse8, IbmWatsonInfo8, ExternalId8])),
     (''body'', Required, TObject
       [(''subscriptionId'', Required, TString)] True)] True"

end
