(* ===== verification/Csds_Config.thy ===== *)
theory Csds_Config
  imports Prelude
begin

text \<open>
  \<open>packages/csds-config/src/config.ts\<close>: which CSDS (the directory of LivePerson service domains) an
  account is looked up in. A configuration object is a record; \<open>service\<close> is \<open>None\<close> when the object
  has no property of that name.
\<close>

record csds_config =
  accountId :: string
  csdsDomain :: string
  service :: "string option"

text \<open>What the constructors take: the domain may be left out.\<close>

record csds_config_base =
  base_accountId :: string
  base_csdsDomain :: "string option"

definition getCsdsDomain :: "string \<Rightarrow> string" where
  "getCsdsDomain account =
     (if startsWith account ''le'' \<or> startsWith account ''qa''
      then ''hc1n.dev.lrnd.net'' else ''adminlogin.liveperson.net'')"

definition DefaultCsdsConfig :: "csds_config_base \<Rightarrow> csds_config" where
  "DefaultCsdsConfig config =
     \<lparr>accountId = base_accountId config,
      csdsDomain = or_str (base_csdsDomain config) (getCsdsDomain (base_accountId config)),
      service = None\<rparr>"

definition DefaultCsdsServiceConfig :: "csds_config_base \<Rightarrow> string \<Rightarrow> csds_config" where
  "DefaultCsdsServiceConfig config svc = (DefaultCsdsConfig config)\<lparr>service := Some svc\<rparr>"

lemma getCsdsDomain_ne [simp]: "getCsdsDomain a \<noteq> []"
  by (simp add: getCsdsDomain_def)

lemma DefaultCsdsConfig_simps [simp]:
  "accountId (DefaultCsdsConfig c) = base_accountId c"
  "service (DefaultCsdsConfig c) = None"
  "csdsDomain (DefaultCsdsConfig c) \<noteq> []"
  by (simp_all add: DefaultCsdsConfig_def or_str_ne)

text \<open>A test account is sent to the QA directory, every other one to production, unless the caller
  names a domain; the domain is never empty.\<close>

lemma csdsDomain_cases:
  "csdsDomain (DefaultCsdsConfig c) =
     (case base_csdsDomain c of
        Some (d # ds) \<Rightarrow> d # ds
      | _ \<Rightarrow> if \<exists>rest. base_accountId c = ''le'' @ rest \<or> base_accountId c = ''qa'' @ rest
            then ''hc1n.dev.lrnd.net'' else ''adminlogin.liveperson.net'')"
  by (auto simp: DefaultCsdsConfig_def getCsdsDomain_def startsWith_iff
      split: option.splits list.splits)

end
