(* ===== verification/Request.thy ===== *)
theory Request
  imports Json
begin

text \<open>
  \<open>packages/util-request/src/request.ts\<close>: the HTTP helper every API call goes through. The
  HTTP client \<open>got\<close> is third-party code: it is the parameter \<open>requestFn\<close>, an arbitrary function
  of the URL, the options and the state \<open>'w\<close> of the outside world, which answers with a response
  or rejects.
\<close>

type_synonym options = "(string \<times> json) list"

record response =
  resp_body :: js_value
  resp_statusCode :: int
  resp_statusMessage :: "string option"
  resp_headers :: "(string \<times> json) list"

type_synonym 'w got_fn = "string \<Rightarrow> options \<Rightarrow> 'w \<Rightarrow> (js_error + response) \<times> 'w"

text \<open>The options sent: defaults, then the caller's, then what the helper insists on.\<close>

definition request_options :: "options option \<Rightarrow> options" where
  "request_options opts =
     assign (assign [(''headers'', JArr [])] (case opts of None \<Rightarrow> [] | Some os \<Rightarrow> os))
       [(''encoding'', JStr ''utf8''), (''json'', JBool True), (''throwHttpErrors'', JBool False)]"

text \<open>The error of a response whose status is not 200.\<close>

definition response_error :: "response \<Rightarrow> js_error" where
  "response_error r =
     (case (if isJsonObject (resp_body r) then get_prop ''error'' (resp_body r) else Return None) of
        Inr (Some e) \<Rightarrow>
          (if truthy (Some e) then Error (String_of (Some e))
           else Error (show_int (resp_statusCode r) @ '' - '' @ or_str (resp_statusMessage r) []))
      | _ \<Rightarrow> Error (show_int (resp_statusCode r) @ '' - '' @ or_str (resp_statusMessage r) []))"

function doRequest ::
  "'w got_fn \<Rightarrow> string \<Rightarrow> options option \<Rightarrow> bool \<Rightarrow> 'w \<Rightarrow> (js_error + response) \<times> 'w" where
  "doRequest requestFn url opts secondTry w =
     (case requestFn url (request_options opts) w of
        (Inl e, w') \<Rightarrow> (Throw e, w')
      | (Inr r, w') \<Rightarrow>
          (if resp_statusCode r = 503 \<and> \<not> secondTry then doRequest requestFn url opts True w'
           else if resp_statusCode r \<noteq> 200 then (Throw (response_error r), w')
           else (Return r, w')))"
  by pat_completeness auto
termination
  by (relation "measure (\<lambda>(f, u, os, second, w). if second then 0 else 1)") auto

declare doRequest.simps [simp del]

text \<open>The three exported entry points differ in the \<open>got\<close> function they pass.\<close>

definition get :: "'w got_fn \<Rightarrow> string \<Rightarrow> options option \<Rightarrow> 'w \<Rightarrow> (js_error + response) \<times> 'w" where
  "get getFn url opts w = doRequest getFn url opts False w"

definition post :: "'w got_fn \<Rightarrow> string \<Rightarrow> options option \<Rightarrow> 'w \<Rightarrow> (js_error + response) \<times> 'w" where
  "post postFn url opts w = doRequest postFn url opts False w"

definition request :: "'w got_fn \<Rightarrow> string \<Rightarrow> options \<Rightarrow> 'w \<Rightarrow> (js_error + response) \<times> 'w" where
  "request got url opts w = doRequest got url (Some opts) False w"

section \<open>The options\<close>

lemma map_of_request_options:
  "map_of (request_options opts) k =
     (if k = ''encoding'' then Some (JStr ''utf8'')
      else if k = ''json'' then Some (JBool True)
      else if k = ''throwHttpErrors'' then Some (JBool False)
      else case map_of (rev (case opts of None \<Rightarrow> [] | Some os \<Rightarrow> os)) k of
             Some v \<Rightarrow> Some v
           | None \<Rightarrow> if k = ''headers'' then Some (JArr []) else None)"
  by (auto simp: request_options_def map_of_assign map_add_def split: option.splits)

section \<open>One attempt\<close>

text \<open>What one answer of the HTTP client means to the caller when no retry is left.\<close>

definition settle_response :: "js_error + response \<Rightarrow> js_error + response" where
  "settle_response a =
     (case a of Inl e \<Rightarrow> Throw e
      | Inr r \<Rightarrow> if resp_statusCode r = 200 then Return r else Throw (response_error r))"

lemma doRequest_second:
  "doRequest f url opts True w =
     (settle_response (fst (f url (request_options opts) w)), snd (f url (request_options opts) w))"
  by (subst doRequest.simps) (auto simp: settle_response_def split: prod.splits sum.splits)

lemma doRequest_first:
  "doRequest f url opts False w =
     (case f url (request_options opts) w of
        (Inr r, w') \<Rightarrow> if resp_statusCode r = 503 then doRequest f url opts True w'
                      else (settle_response (Inr r), w')
      | (Inl e, w') \<Rightarrow> (Throw e, w'))"
  by (subst doRequest.simps) (auto simp: settle_response_def split: prod.splits sum.splits)

lemma response_error_plain:
  "\<not> isJsonObject (resp_body r) \<Longrightarrow>
     response_error r = Error (show_int (resp_statusCode r) @ '' - '' @ or_str (resp_statusMessage r) [])"
  by (simp add: response_error_def)

lemma response_error_is_Error: "\<exists>m. response_error r = Error m"
  by (auto simp: response_error_def split: sum.splits option.splits)

end
