(* ===== verification/Csds_Resolver.thy ===== *)
theory Csds_Resolver
  imports Csds_Config Request
begin

text \<open>
  The CSDS resolvers: \<open>packages/csds-resolver/src/resolver.ts\<close> (the interface and the abstract
  class) and \<open>packages/csds-simple-resolver/src/resolver.ts\<close> (one HTTP request per call).
\<close>

text \<open>A resolver's answer: a plain object from service names to base URIs.\<close>

type_synonym csds_response = "(string \<times> js_value) list"

section \<open>The abstract resolver\<close>

type_synonym 'w resolve_fn = "csds_config \<Rightarrow> 'w \<Rightarrow> (js_error + csds_response) \<times> 'w"

definition hasService :: "csds_config \<Rightarrow> bool" where
  "hasService csdsOptions \<longleftrightarrow> service csdsOptions \<noteq> None"

text \<open>\<open>response[name]\<close> for a name that may be \<open>undefined\<close>.\<close>

definition domain_of :: "csds_response \<Rightarrow> string option \<Rightarrow> js_value" where
  "domain_of resp name =
     (case map_of resp (case name of None \<Rightarrow> ''undefined'' | Some s \<Rightarrow> s) of
        None \<Rightarrow> None | Some v \<Rightarrow> v)"

definition resolveService ::
  "'w resolve_fn \<Rightarrow> csds_config \<Rightarrow> 'w \<Rightarrow> (js_error + js_value) \<times> 'w" where
  "resolveService resolve config w =
     (case resolve config w of
        (Inl e, w') \<Rightarrow> (Throw e, w')
      | (Inr resp, w') \<Rightarrow> (Return (domain_of resp (service config)), w'))"

section \<open>The interface\<close>

text \<open>
  What the clients of \<open>ICsdsResolver\<close> rely on: an answer is an object (one value per name), and a
  resolver asks the directory for nothing but what the request URL says.
\<close>

locale csds_resolver =
  fixes resolve :: "csds_config \<Rightarrow> 'w \<Rightarrow> (js_error + csds_response) \<times> 'w"
    and url_of :: "csds_config \<Rightarrow> string"
  assumes resolve_object: "resolve c w = (Inr resp, w') \<Longrightarrow> distinct (map fst resp)"
    and resolve_by_url: "url_of c = url_of c' \<Longrightarrow> resolve c w = resolve c' w"
begin

lemma service_from_answer:
  assumes "resolve c w = (Inr resp, w')" and "(s, v) \<in> set resp" and "service c = Some s"
  shows "resolveService resolve c w = (Inr v, w')"
proof -
  have "map_of resp s = Some v"
    by (rule map_of_is_SomeI [OF resolve_object [OF assms(1)] assms(2)])
  then show ?thesis
    using assms by (simp add: resolveService_def domain_of_def)
qed

lemma service_by_url:
  assumes "url_of c = url_of c'" and "service c = service c'"
  shows "resolveService resolve c w = resolveService resolve c' w"
  using assms resolve_by_url [of c c' w]
  by (simp add: resolveService_def split: prod.splits sum.splits)

lemma service_error:
  "resolve c w = (Inl e, w') \<Longrightarrow> resolveService resolve c w = (Inl e, w')"
  by (simp add: resolveService_def)

end

section \<open>The simple resolver\<close>

text \<open>\<open>csdsService ? csdsService + "/" : ""\<close>, with \<open>null\<close> for an object without a service.\<close>

definition service_segment :: "csds_config \<Rightarrow> string" where
  "service_segment options =
     (let csdsService = (if hasService options then service options else None)
      in case csdsService of Some (c # cs) \<Rightarrow> (c # cs) @ ''/'' | _ \<Rightarrow> [])"

lemma service_segment_simps [simp]:
  "service c = None \<Longrightarrow> service_segment c = []"
  "service c = Some [] \<Longrightarrow> service_segment c = []"
  "service c = Some (x # xs) \<Longrightarrow> service_segment c = x # xs @ ''/''"
  by (simp_all add: service_segment_def hasService_def)

definition baseURI_url :: "csds_config \<Rightarrow> string" where
  "baseURI_url options =
     ''https://'' @ csdsDomain options @ ''/api/account/'' @ accountId options @ ''/service/''
       @ service_segment options @ ''baseURI.json?version=1.0''"

text \<open>\<open>body.baseURIs || [body]\<close>, and the \<open>reduce\<close> method that only an array has.\<close>

definition response_entries :: "json \<Rightarrow> js_error + json list" where
  "response_entries body =
     (case get_prop ''baseURIs'' (Some body) of
        Inl e \<Rightarrow> Throw e
      | Inr v \<Rightarrow>
          (if truthy v then (case v of Some (JArr xs) \<Rightarrow> Return xs | _ \<Rightarrow> Throw TypeError)
           else Return [body]))"

text \<open>The \<open>reduce\<close>: each entry is destructured and stored under its service name.\<close>

fun collect_entries :: "json list \<Rightarrow> csds_response \<Rightarrow> js_error + csds_response" where
  "collect_entries [] obj = Return obj"
| "collect_entries (e # es) obj =
     (case get_prop ''service'' (Some e) of
        Inl err \<Rightarrow> Throw err
      | Inr svc \<Rightarrow>
          (case get_prop ''baseURI'' (Some e) of
             Inl err \<Rightarrow> Throw err
           | Inr uri \<Rightarrow> collect_entries es (put (String_of svc) uri obj)))"

definition simple_resolve ::
  "'w got_fn \<Rightarrow> csds_config \<Rightarrow> 'w \<Rightarrow> (js_error + csds_response) \<times> 'w" where
  "simple_resolve getFn options w =
     (case get getFn (baseURI_url options) None w of
        (Inl e, w') \<Rightarrow> (Throw e, w')
      | (Inr r, w') \<Rightarrow>
          (case resp_body r of
             Some body \<Rightarrow>
               (if truthy (Some body)
                then (case response_entries body of
                        Inl e \<Rightarrow> Throw e
                      | Inr es \<Rightarrow> collect_entries es [])
                else Return [], w')
           | None \<Rightarrow> (Return [], w')))"

text \<open>The pair one entry contributes.\<close>

definition entry_pair :: "json \<Rightarrow> string \<times> js_value" where
  "entry_pair e = (case e of JObj ps \<Rightarrow> (String_of (map_of ps ''service''), map_of ps ''baseURI'')
                   | _ \<Rightarrow> (''undefined'', None))"

lemma collect_step:
  "e \<noteq> JNull \<Longrightarrow>
     collect_entries (e # es) obj = collect_entries es (put (fst (entry_pair e)) (snd (entry_pair e)) obj)"
  by (cases e) (auto simp: entry_pair_def String_of_def)

lemma collect_entries_eq:
  "collect_entries es obj =
     (if JNull \<in> set es then Throw TypeError else Return (assign obj (map entry_pair es)))"
proof (induction es arbitrary: obj)
  case Nil
  then show ?case by simp
next
  case (Cons e es)
  show ?case
  proof (cases "e = JNull")
    case False
    then show ?thesis
      by (cases "entry_pair e") (simp add: collect_step Cons.IH del: collect_entries.simps)
  qed simp
qed

lemma simple_resolve_distinct:
  "simple_resolve f c w = (Inr resp, w') \<Longrightarrow> distinct (map fst resp)"
  by (auto simp: simple_resolve_def collect_entries_eq intro!: distinct_assign
      split: prod.splits sum.splits option.splits if_splits)

lemma simple_resolve_by_url:
  "baseURI_url c = baseURI_url c' \<Longrightarrow> simple_resolve f c w = simple_resolve f c' w"
  by (simp add: simple_resolve_def)

interpretation simple: csds_resolver "simple_resolve getFn" baseURI_url for getFn
  by unfold_locales (auto intro: simple_resolve_distinct simple_resolve_by_url)

end
