(* ===== verification/Event_Emitter.thy ===== *)
theory Event_Emitter
  imports Prelude
begin

text \<open>
  \<open>packages/util-types/src/event_emitter.ts\<close>: \<open>TypedEventEmitter\<close> narrows the types of Node's
  \<open>EventEmitter\<close> and passes every call on. The state is Node's table of listeners: per event name,
  in insertion order, the listeners with a flag for those added by \<open>once\<close>. Listeners are values
  of an arbitrary type \<open>'f\<close>; \<open>emit\<close> returns the list of those it calls, in order. Not modelled:
  the \<open>newListener\<close> and \<open>removeListener\<close> meta events, and the warning that \<open>setMaxListeners\<close>
  configures.
\<close>

type_synonym 'f emitter = "(string \<times> (bool \<times> 'f) list) list"

definition handlers :: "'f emitter \<Rightarrow> string \<Rightarrow> (bool \<times> 'f) list" where
  "handlers em event = (case map_of em event of None \<Rightarrow> [] | Some hs \<Rightarrow> hs)"

text \<open>Storing a listener list; an event without listeners has no entry.\<close>

definition set_handlers :: "string \<Rightarrow> (bool \<times> 'f) list \<Rightarrow> 'f emitter \<Rightarrow> 'f emitter" where
  "set_handlers event hs em = (if hs = [] then del event em else put event hs em)"

section \<open>The methods\<close>

definition addListener :: "string \<Rightarrow> 'f \<Rightarrow> 'f emitter \<Rightarrow> 'f emitter" where
  "addListener event f em = set_handlers event (handlers em event @ [(False, f)]) em"

definition on :: "string \<Rightarrow> 'f \<Rightarrow> 'f emitter \<Rightarrow> 'f emitter" where
  "on event f em = addListener event f em"

definition once :: "string \<Rightarrow> 'f \<Rightarrow> 'f emitter \<Rightarrow> 'f emitter" where
  "once event f em = set_handlers event (handlers em event @ [(True, f)]) em"

definition prependListener :: "string \<Rightarrow> 'f \<Rightarrow> 'f emitter \<Rightarrow> 'f emitter" where
  "prependListener event f em = set_handlers event ((False, f) # handlers em event) em"

definition prependOnceListener :: "string \<Rightarrow> 'f \<Rightarrow> 'f emitter \<Rightarrow> 'f emitter" where
  "prependOnceListener event f em = set_handlers event ((True, f) # handlers em event) em"

text \<open>\<open>removeListener\<close> drops one entry, the last one added for the listener.\<close>

fun remove_first :: "'f \<Rightarrow> (bool \<times> 'f) list \<Rightarrow> (bool \<times> 'f) list" where
  "remove_first f [] = []"
| "remove_first f ((b, g) # hs) = (if g = f then hs else (b, g) # remove_first f hs)"

definition removeListener :: "string \<Rightarrow> 'f \<Rightarrow> 'f emitter \<Rightarrow> 'f emitter" where
  "removeListener event f em =
     (if handlers em event = [] then em
      else set_handlers event (rev (remove_first f (rev (handlers em event)))) em)"

definition removeAllListeners :: "string option \<Rightarrow> 'f emitter \<Rightarrow> 'f emitter" where
  "removeAllListeners event em = (case event of None \<Rightarrow> [] | Some ev \<Rightarrow> del ev em)"

definition listeners :: "string \<Rightarrow> 'f emitter \<Rightarrow> 'f list" where
  "listeners event em = map snd (handlers em event)"

definition listenerCount :: "string \<Rightarrow> 'f emitter \<Rightarrow> nat" where
  "listenerCount event em = length (handlers em event)"

definition eventNames :: "'f emitter \<Rightarrow> string list" where
  "eventNames em = map fst em"

text \<open>
  \<open>emit\<close> calls the listeners present when it starts; those added by \<open>once\<close> are removed. An
  \<open>error\<close> event nobody listens to throws.
\<close>

definition emit :: "string \<Rightarrow> 'f emitter \<Rightarrow> (js_error + bool \<times> 'f list) \<times> 'f emitter" where
  "emit event em =
     (let hs = handlers em event
      in if hs = [] then (if event = ''error'' then Throw (Error ''Unhandled error.'') else Return (False, []), em)
         else (Return (True, map snd hs), set_handlers event (filter (\<lambda>h. \<not> fst h) hs) em))"

section \<open>Well-formed tables\<close>

definition emitter_ok :: "'f emitter \<Rightarrow> bool" where
  "emitter_ok em \<longleftrightarrow> distinct (map fst em) \<and> [] \<notin> snd ` set em"

lemma emitter_ok_Nil [simp]: "emitter_ok []"
  by (simp add: emitter_ok_def)

lemma handlers_Nil [simp]: "handlers [] event = []"
  by (simp add: handlers_def)

lemma handlers_del [simp]: "handlers (del ev em) = (handlers em)(ev := [])"
  by (auto simp: handlers_def)

lemma handlers_set_handlers [simp]: "handlers (set_handlers ev hs em) = (handlers em)(ev := hs)"
  by (auto simp: set_handlers_def handlers_def)

lemma values_put: "snd ` set (put k v ps) \<subseteq> insert v (snd ` set ps)"
  by (induction k v ps rule: put.induct) auto

lemma values_del: "snd ` set (del k ps) \<subseteq> snd ` set ps"
  by (auto simp: del_def)

lemma emitter_ok_del [intro]: "emitter_ok em \<Longrightarrow> emitter_ok (del ev em)"
  using values_del [of ev em] by (auto simp: emitter_ok_def)

lemma emitter_ok_set_handlers [intro]: "emitter_ok em \<Longrightarrow> emitter_ok (set_handlers ev hs em)"
  using values_put [of ev hs em] values_del [of ev em]
  by (auto simp: emitter_ok_def set_handlers_def)

lemma emitter_names: "emitter_ok em \<Longrightarrow> set (eventNames em) = {ev. handlers em ev \<noteq> []}"
  by (force simp: emitter_ok_def eventNames_def handlers_def map_of_eq_None_iff
      dest: map_of_SomeD split: option.splits)

lemmas emitter_op_defs =
  addListener_def on_def once_def prependListener_def prependOnceListener_def removeListener_def
  removeAllListeners_def

section \<open>The interface\<close>

text \<open>
  What the users of an event emitter rely on, stated over the listeners \<open>hs em ev\<close> of each event:
  registration appends, emission calls everybody in order and forgets the \<open>once\<close> listeners, removal
  of one event's listeners leaves the others alone, and \<open>eventNames\<close> lists the events with listeners.
\<close>

locale listener_table =
  fixes hs :: "'em \<Rightarrow> string \<Rightarrow> (bool \<times> 'f) list"
    and ok :: "'em \<Rightarrow> bool"
    and add_on :: "string \<Rightarrow> 'f \<Rightarrow> 'em \<Rightarrow> 'em"
    and add_once :: "string \<Rightarrow> 'f \<Rightarrow> 'em \<Rightarrow> 'em"
    and clear :: "string option \<Rightarrow> 'em \<Rightarrow> 'em"
    and count :: "string \<Rightarrow> 'em \<Rightarrow> nat"
    and names :: "'em \<Rightarrow> string list"
    and fire :: "string \<Rightarrow> 'em \<Rightarrow> (js_error + bool \<times> 'f list) \<times> 'em"
  assumes hs_on: "hs (add_on ev f em) = (hs em)(ev := hs em ev @ [(False, f)])"
    and hs_once: "hs (add_once ev f em) = (hs em)(ev := hs em ev @ [(True, f)])"
    and hs_clear: "hs (clear (Some ev) em) = (hs em)(ev := [])"
    and hs_clear_all: "hs (clear None em) = (\<lambda>_. [])"
    and hs_count: "count ev em = length (hs em ev)"
    and hs_names: "ok em \<Longrightarrow> set (names em) = {ev. hs em ev \<noteq> []}"
    and names_distinct: "ok em \<Longrightarrow> distinct (names em)"
    and hs_fire: "hs (snd (fire ev em)) = (hs em)(ev := filter (\<lambda>h. \<not> fst h) (hs em ev))"
    and fire_calls: "hs em ev \<noteq> [] \<Longrightarrow> fst (fire ev em) = Inr (True, map snd (hs em ev))"
    and fire_none: "hs em ev = [] \<Longrightarrow> ev \<noteq> ''error'' \<Longrightarrow> fst (fire ev em) = Inr (False, [])"
    and ok_on: "ok em \<Longrightarrow> ok (add_on ev f em)"
    and ok_once: "ok em \<Longrightarrow> ok (add_once ev f em)"
    and ok_clear: "ok em \<Longrightarrow> ok (clear e em)"
    and ok_fire: "ok em \<Longrightarrow> ok (snd (fire ev em))"
begin

lemmas hs_simps = hs_on hs_once hs_clear hs_clear_all hs_count hs_fire

text \<open>A one-shot listener on an idle event is called by the next emission and only by that one.\<close>

lemma once_answered:
  assumes "hs em ev = []"
  shows "fst (fire ev (add_once ev f em)) = Inr (True, [f])"
    and "hs (snd (fire ev (add_once ev f em))) = hs em"
    and "count ev (add_once ev f em) = 1"
  using assms by (simp_all add: fire_calls hs_simps fun_eq_iff)

lemma once_other:
  "ev \<noteq> ev' \<Longrightarrow> hs (add_once ev f em) ev' = hs em ev'"
  by (simp add: hs_simps)

text \<open>The number of event names is the number of events somebody listens to.\<close>

lemma names_card: "ok em \<Longrightarrow> length (names em) = card {ev. hs em ev \<noteq> []}"
  using distinct_card [OF names_distinct, of em] by (simp add: hs_names)

lemma finite_events: "ok em \<Longrightarrow> finite {ev. hs em ev \<noteq> []}"
  using finite_set [of "names em"] by (simp add: hs_names)

lemma names_empty: "ok em \<Longrightarrow> names em = [] \<longleftrightarrow> (\<forall>ev. hs em ev = [])"
  using hs_names [of em] by auto

text \<open>How the number of event names changes.\<close>

lemma names_once:
  assumes "ok em" and "hs em ev = []"
  shows "length (names (add_once ev f em)) = Suc (length (names em))"
proof -
  have "{e. hs (add_once ev f em) e \<noteq> []} = insert ev {e. hs em e \<noteq> []}"
    by (auto simp: hs_once)
  then show ?thesis
    using assms finite_events by (simp add: names_card ok_once)
qed

lemma names_drop:
  assumes "ok em" and "ok em'" and "hs em' = (hs em)(ev := [])" and "hs em ev \<noteq> []"
  shows "length (names em) = Suc (length (names em'))"
proof -
  have "{e. hs em e \<noteq> []} = insert ev {e. hs em' e \<noteq> []}"
    using assms(3,4) by auto
  then show ?thesis
    using assms finite_events [OF assms(2)] by (simp add: names_card)
qed

lemma clear_all_names: "ok em \<Longrightarrow> names (clear None em) = []"
  using names_empty [OF ok_clear, of em None] by (simp add: hs_clear_all)

end

lemma emit_handlers:
  "handlers (snd (emit ev em)) = (handlers em)(ev := filter (\<lambda>h. \<not> fst h) (handlers em ev))"
  by (auto simp: emit_def Let_def)

interpretation ee: listener_table handlers emitter_ok on once removeAllListeners listenerCount
    eventNames emit
proof unfold_locales
  show "distinct (eventNames em)" if "emitter_ok em" for em :: "'f emitter"
    using that by (simp add: emitter_ok_def eventNames_def)
  show "set (eventNames em) = {ev. handlers em ev \<noteq> []}" if "emitter_ok em" for em :: "'f emitter"
    using that by (rule emitter_names)
  show "emitter_ok (removeAllListeners e em)" if "emitter_ok em" for e and em :: "'f emitter"
    using that by (auto simp: removeAllListeners_def split: option.splits)
  show "emitter_ok (snd (emit ev em))" if "emitter_ok em" for ev and em :: "'f emitter"
    using that by (auto simp: emit_def Let_def)
  show "handlers (snd (emit ev em)) = (handlers em)(ev := filter (\<lambda>h. \<not> fst h) (handlers em ev))"
    for ev and em :: "'f emitter"
    by (rule emit_handlers)
qed (auto simp: emitter_op_defs listenerCount_def emit_def Let_def)

section \<open>Listeners and their removal\<close>

lemma listeners_eq: "listeners ev em = map snd (handlers em ev)"
  by (simp add: listeners_def)

lemma remove_first_append:
  "f \<notin> snd ` set xs \<Longrightarrow> remove_first f (xs @ (b, f) # ys) = xs @ ys"
  by (induction xs) auto

text \<open>\<open>removeListener\<close> undoes the registration it follows.\<close>

lemma removeListener_addListener:
  "handlers (removeListener ev f (addListener ev f em)) = handlers em"
  by (auto simp: removeListener_def addListener_def fun_eq_iff)

lemma removeListener_once:
  "handlers (removeListener ev f (once ev f em)) = handlers em"
  by (auto simp: removeListener_def once_def fun_eq_iff)

text \<open>An emission that finds permanent listeners only leaves the table as it is.\<close>

lemma emit_permanent:
  assumes "handlers em ev \<noteq> []" and "\<forall>h \<in> set (handlers em ev). \<not> fst h"
  shows "emit ev em = (Return (True, listeners ev em), em)"
proof -
  have "map_of em ev = Some (handlers em ev)"
    using assms(1) by (auto simp: handlers_def split: option.splits)
  then show ?thesis
    using assms by (simp add: emit_def listeners_def set_handlers_def put_same)
qed

end
