(* ===== verification/Client_State.thy ===== *)
theory Client_State
  imports Csds_Resolver Event_Emitter
begin

text \<open>
  The object all client classes share: the fields that \<open>CsdsClient\<close>, \<open>LeClient\<close>,
  \<open>TransportClient\<close> and \<open>UmsClient\<close> keep on \<open>this\<close>, the life-cycle state machine
  \<open>packages/csds-client/src/client.ts\<close> configures, and the statements of the handlers that do not
  wait for anything. The \<open>javascript-state-machine\<close> package is third-party code: it is the
  parameter \<open>jsm\<close>, with its documented behaviour as the hypothesis \<open>jsm_documented\<close>.
\<close>

section \<open>The life cycle\<close>

datatype client_state = STARTED | STOPPED

datatype client_transition = START | STOP | REFRESH

type_synonym transition_table = "(client_transition \<times> client_state \<times> client_state) list"

definition transitions :: transition_table where
  "transitions = [(START, STOPPED, STARTED), (STOP, STARTED, STOPPED), (REFRESH, STARTED, STARTED)]"

text \<open>What the state machine shows of itself: its state, and whether a transition is under way.\<close>

record machine =
  current :: client_state
  pending :: bool

text \<open>
  The package's operations the code uses: \<open>can\<close>, a transition method up to the moment it calls
  the \<open>on<Transition>\<close> observer (or throws), and what happens once the observer's promise has
  settled.
\<close>

record jsm =
  jsm_can :: "transition_table \<Rightarrow> machine \<Rightarrow> client_transition \<Rightarrow> bool"
  jsm_fire :: "transition_table \<Rightarrow> machine \<Rightarrow> client_transition \<Rightarrow> js_error + machine"
  jsm_end :: "machine \<Rightarrow> machine"

text \<open>
  As documented: a transition is possible when the table has it for the current state and no other
  transition is under way; otherwise its method throws. The \<open>on<Transition>\<close> observer is the
  shorthand for \<open>onAfter<Transition>\<close>, so the state has changed when it runs. The transition is
  over when the observer's promise has settled, either way.
\<close>

definition jsm_documented :: "jsm \<Rightarrow> bool" where
  "jsm_documented J \<longleftrightarrow>
     (\<forall>m t target. \<not> pending m \<and> (t, current m, target) \<in> set transitions \<longrightarrow>
        jsm_can J transitions m t \<and>
        jsm_fire J transitions m t = Inr \<lparr>current = target, pending = True\<rparr>) \<and>
     (\<forall>m t. pending m \<or> (\<forall>target. (t, current m, target) \<notin> set transitions) \<longrightarrow>
        \<not> jsm_can J transitions m t \<and> (\<exists>e. jsm_fire J transitions m t = Inl e)) \<and>
     (\<forall>m. jsm_end J m = m\<lparr>pending := False\<rparr>)"

section \<open>The client object\<close>

text \<open>
  \<open>armed\<close> and \<open>next_timer\<close> are the runtime's timers of this client: \<open>setTimeout\<close> returns a fresh
  handle and arms it. \<open>msg_listeners\<close> and \<open>err_listeners\<close> count the callbacks this client has
  registered with the transport. The two handlers are the UMS client's event emitters; a response
  listener is named by the number of the request that waits for it.
\<close>

record ('s, 'n) client =
  machine :: machine
  csdsDomains :: "csds_response option"
  refreshTask :: "nat option"
  armed :: "nat list"
  next_timer :: nat
  leSession :: "'s option"
  err_listeners :: nat
  msg_listeners :: nat
  umsResponseHandler :: "nat emitter"
  umsNotificationHandler :: "'n emitter"

text \<open>The constructor: everything undefined, the state machine in its initial state.\<close>

definition new_client :: "('s, 'n) client" where
  "new_client =
     \<lparr>machine = \<lparr>current = STOPPED, pending = False\<rparr>, csdsDomains = None, refreshTask = None,
      armed = [], next_timer = 0, leSession = None, err_listeners = 0, msg_listeners = 0,
      umsResponseHandler = [], umsNotificationHandler = []\<rparr>"

definition started :: "('s, 'n) client \<Rightarrow> bool" where
  "started s \<longleftrightarrow> current (machine s) = STARTED"

definition not_started :: js_error where
  "not_started = Error ''Client not started/initialized yet''"

definition checkStarted :: "('s, 'n) client \<Rightarrow> js_error + unit" where
  "checkStarted s = (if \<not> started s then Throw not_started else Return ())"

text \<open>The getters: \<open>None\<close> inside \<open>Return\<close> is \<open>undefined\<close>, which the casts in the code hide.\<close>

definition domains :: "('s, 'n) client \<Rightarrow> js_error + csds_response option" where
  "domains s = (case checkStarted s of Inl e \<Rightarrow> Throw e | Inr _ \<Rightarrow> Return (csdsDomains s))"

definition credentials :: "('s, 'n) client \<Rightarrow> js_error + 's option" where
  "credentials s = (case checkStarted s of Inl e \<Rightarrow> Throw e | Inr _ \<Rightarrow> Return (leSession s))"

section \<open>Statements\<close>

text \<open>\<open>this.refreshTask = setTimeout(...)\<close>.\<close>

definition queueRefreshTask :: "('s, 'n) client \<Rightarrow> ('s, 'n) client" where
  "queueRefreshTask s =
     s\<lparr>refreshTask := Some (next_timer s), armed := armed s @ [next_timer s],
       next_timer := Suc (next_timer s)\<rparr>"

text \<open>\<open>if (this.refreshTask) clearTimeout(this.refreshTask); delete this.refreshTask\<close>.\<close>

definition clearRefreshTask :: "('s, 'n) client \<Rightarrow> ('s, 'n) client" where
  "clearRefreshTask s =
     s\<lparr>armed := (case refreshTask s of None \<Rightarrow> armed s | Some h \<Rightarrow> removeAll h (armed s)),
       refreshTask := None\<rparr>"

text \<open>\<open>this.config.transport.onError(cb)\<close> and \<open>onMessage(cb)\<close>, behind \<open>checkStarted\<close>.\<close>

definition onError :: "('s, 'n) client \<Rightarrow> js_error + ('s, 'n) client" where
  "onError s = (case checkStarted s of Inl e \<Rightarrow> Throw e
                | Inr _ \<Rightarrow> Return (s\<lparr>err_listeners := Suc (err_listeners s)\<rparr>))"

definition onMessage :: "('s, 'n) client \<Rightarrow> js_error + ('s, 'n) client" where
  "onMessage s = (case checkStarted s of Inl e \<Rightarrow> Throw e
                  | Inr _ \<Rightarrow> Return (s\<lparr>msg_listeners := Suc (msg_listeners s)\<rparr>))"

text \<open>The cleanup at the end of the UMS client's \<open>onStop\<close>.\<close>

definition removeUmsListeners :: "('s, 'n) client \<Rightarrow> ('s, 'n) client" where
  "removeUmsListeners s =
     s\<lparr>umsResponseHandler := removeAllListeners None (umsResponseHandler s),
       umsNotificationHandler := removeAllListeners None (umsNotificationHandler s)\<rparr>"

section \<open>The documented state machine\<close>

named_theorems jsm_laws \<open>the documented behaviour of the state machine package\<close>

lemma jsm_end_eq [jsm_laws]: "jsm_documented J \<Longrightarrow> jsm_end J m = m\<lparr>pending := False\<rparr>"
  by (simp add: jsm_documented_def)

lemma jsm_fire_ok [jsm_laws]:
  assumes "jsm_documented J" and "\<not> pending m"
  shows "current m = STOPPED \<Longrightarrow> jsm_fire J transitions m START = Inr \<lparr>current = STARTED, pending = True\<rparr>"
    and "current m = STARTED \<Longrightarrow> jsm_fire J transitions m STOP = Inr \<lparr>current = STOPPED, pending = True\<rparr>"
    and "current m = STARTED \<Longrightarrow> jsm_fire J transitions m REFRESH = Inr \<lparr>current = STARTED, pending = True\<rparr>"
  using assms by (simp_all add: jsm_documented_def transitions_def)

lemma jsm_fire_refused:
  assumes "jsm_documented J"
    and "pending m \<or> (t = START \<longleftrightarrow> current m = STARTED)"
  shows "\<exists>e. jsm_fire J transitions m t = Inl e"
proof -
  have "pending m \<or> (\<forall>target. (t, current m, target) \<notin> set transitions)"
    using assms(2) by (cases t; cases "current m") (auto simp: transitions_def)
  with assms(1) show ?thesis by (auto simp: jsm_documented_def)
qed

lemma jsm_fire_Inr:
  assumes "jsm_documented J" and "jsm_fire J transitions m t = Inr m'"
  shows "\<not> pending m \<and> pending m' \<and> current m = (if t = START then STOPPED else STARTED) \<and>
         current m' = (if t = STOP then STOPPED else STARTED)"
proof -
  have "\<not> (pending m \<or> (t = START \<longleftrightarrow> current m = STARTED))"
    using jsm_fire_refused [OF assms(1), of m t] assms(2) by auto
  then show ?thesis
    using jsm_fire_ok [OF assms(1), of m] assms(2)
    by (cases t; cases "current m") auto
qed

lemma jsm_can_iff:
  assumes "jsm_documented J"
  shows "jsm_can J transitions m t \<longleftrightarrow> (\<exists>m'. jsm_fire J transitions m t = Inr m')"
proof (cases "pending m \<or> (\<forall>target. (t, current m, target) \<notin> set transitions)")
  case True
  with assms have "\<not> jsm_can J transitions m t \<and> (\<exists>e. jsm_fire J transitions m t = Inl e)"
    unfolding jsm_documented_def by blast
  then show ?thesis by auto
next
  case False
  with assms show ?thesis by (auto simp: jsm_documented_def)
qed

text \<open>One machine with this behaviour: the hypothesis can be met, and runs can be computed.\<close>

definition reference_jsm :: jsm where
  "reference_jsm =
     \<lparr>jsm_can = (\<lambda>table m t. \<not> pending m \<and> list_ex (\<lambda>(t', from, _). t' = t \<and> from = current m) table),
      jsm_fire = (\<lambda>table m t.
        if pending m then Inl (Error ''transition is invalid while previous transition is still in progress'')
        else case filter (\<lambda>(t', from, _). t' = t \<and> from = current m) table of
               [] \<Rightarrow> Inl (Error ''transition is invalid in current state'')
             | (_, _, target) # _ \<Rightarrow> Inr \<lparr>current = target, pending = True\<rparr>),
      jsm_end = (\<lambda>m. m\<lparr>pending := False\<rparr>)\<rparr>"

lemma reference_jsm_documented: "jsm_documented reference_jsm"
  unfolding jsm_documented_def
proof (intro conjI allI impI)
  fix m :: machine and t target
  assume "\<not> pending m \<and> (t, current m, target) \<in> set transitions"
  then show "jsm_can reference_jsm transitions m t"
    and "jsm_fire reference_jsm transitions m t = Inr \<lparr>current = target, pending = True\<rparr>"
    by (auto simp: reference_jsm_def transitions_def)
next
  fix m :: machine and t
  assume "pending m \<or> (\<forall>target. (t, current m, target) \<notin> set transitions)"
  then show "\<not> jsm_can reference_jsm transitions m t"
    and "\<exists>e. jsm_fire reference_jsm transitions m t = Inl e"
    by (cases t; cases "current m"; auto simp: reference_jsm_def transitions_def)+
qed (simp add: reference_jsm_def)

end
