(* ===== verification/Client_Runtime.thy ===== *)
theory Client_Runtime
  imports Client_State
begin

text \<open>
  How the asynchronous methods of the client classes run. A method body is the list of its
  statements (\<open>instr\<close>); calling a super method is list concatenation, and calling an overridden
  method on \<open>this\<close> is the list of the subclass. Code runs without interruption up to the next
  \<open>await\<close>; there it is suspended until the awaited call is answered, and other code may run in
  between. An exception skips the rest of the code; no method of the classes catches one, but the
  state machine ends its transition first.
\<close>

section \<open>Statements and calls\<close>

datatype instr =
    Resolve          \<comment> \<open>\<open>this.csdsDomains = await csdsResolver.resolve(csdsConfig)\<close>\<close>
  | QueueRefresh     \<comment> \<open>\<open>this.queueRefreshTask()\<close>\<close>
  | ClearRefresh     \<comment> \<open>clear and delete \<open>this.refreshTask\<close>\<close>
  | DeleteDomains    \<comment> \<open>\<open>delete this.csdsDomains\<close>\<close>
  | Login            \<comment> \<open>\<open>this.leSession = await sessionProvider.login(credentials, config)\<close>\<close>
  | SessionRefresh   \<comment> \<open>\<open>if (this.leSession) await sessionProvider.refresh(this.leSession, config)\<close>\<close>
  | Logout           \<comment> \<open>\<open>if (this.leSession) await sessionProvider.logout(this.leSession, config)\<close>\<close>
  | DeleteSession    \<comment> \<open>\<open>delete this.leSession\<close>\<close>
  | Connect          \<comment> \<open>\<open>await transport.connect({session: this.credentials, domain: await resolveService(...)})\<close>\<close>
  | OnError          \<comment> \<open>\<open>this.onError(this.logger.error)\<close>\<close>
  | Disconnect       \<comment> \<open>\<open>await transport.disconnect()\<close>\<close>
  | OnMessage        \<comment> \<open>\<open>this.onMessage(...)\<close>\<close>
  | RemoveListeners  \<comment> \<open>\<open>removeAllListeners()\<close> on both UMS handlers\<close>
  | Tick             \<comment> \<open>the \<open>await\<close> of a method of the class that has returned\<close>
  | Settle           \<comment> \<open>the state machine's end of the transition\<close>

text \<open>What suspended code waits for. \<open>C_unwind e\<close> is the state machine about to end a transition
  whose handler threw \<open>e\<close>.\<close>

datatype 's call =
    C_resolve
  | C_login
  | C_refresh 's
  | C_logout 's
  | C_resolveService string "'s option"
  | C_connect "'s option" js_value
  | C_disconnect
  | C_tick
  | C_unwind js_error

datatype 's reply =
    Rejected js_error
  | R_done
  | R_domains csds_response
  | R_session 's
  | R_service js_value

text \<open>What a statement, or the answer of an awaited call, does to the code that contains it.\<close>

datatype 's outcome =
    Continue
  | Wait "'s call"
  | Raise js_error

datatype 's progress =
    Finished
  | Crashed js_error
  | Blocked "'s call" "instr list"

section \<open>Statements\<close>

fun exec_instr :: "jsm \<Rightarrow> instr \<Rightarrow> ('s, 'n) client \<Rightarrow> ('s, 'n) client \<times> 's outcome" where
  "exec_instr J Resolve s = (s, Wait C_resolve)"
| "exec_instr J QueueRefresh s = (queueRefreshTask s, Continue)"
| "exec_instr J ClearRefresh s = (clearRefreshTask s, Continue)"
| "exec_instr J DeleteDomains s = (s\<lparr>csdsDomains := None\<rparr>, Continue)"
| "exec_instr J Login s = (s, Wait C_login)"
| "exec_instr J SessionRefresh s =
     (s, case leSession s of None \<Rightarrow> Continue | Some x \<Rightarrow> Wait (C_refresh x))"
| "exec_instr J Logout s =
     (s, case leSession s of None \<Rightarrow> Continue | Some x \<Rightarrow> Wait (C_logout x))"
| "exec_instr J DeleteSession s = (s\<lparr>leSession := None\<rparr>, Continue)"
| "exec_instr J Connect s =
     (s, case credentials s of
           Inl e \<Rightarrow> Raise e
         | Inr sess \<Rightarrow> Wait (C_resolveService ''asyncMessagingEnt'' sess))"
| "exec_instr J OnError s =
     (case onError s of Inl e \<Rightarrow> (s, Raise e) | Inr s' \<Rightarrow> (s', Continue))"
| "exec_instr J Disconnect s = (s, Wait C_disconnect)"
| "exec_instr J OnMessage s =
     (case onMessage s of Inl e \<Rightarrow> (s, Raise e) | Inr s' \<Rightarrow> (s', Continue))"
| "exec_instr J RemoveListeners s = (removeUmsListeners s, Continue)"
| "exec_instr J Tick s = (s, Wait C_tick)"
| "exec_instr J Settle s = (s\<lparr>machine := jsm_end J (machine s)\<rparr>, Continue)"

text \<open>
  The answer of an awaited call; \<open>None\<close> for one the call cannot give. Every call of another
  component may be rejected.
\<close>

fun answer :: "jsm \<Rightarrow> 's call \<Rightarrow> 's reply \<Rightarrow> ('s, 'n) client \<Rightarrow> (('s, 'n) client \<times> 's outcome) option" where
  "answer J C_tick r s = (case r of R_done \<Rightarrow> Some (s, Continue) | _ \<Rightarrow> None)"
| "answer J (C_unwind e) r s =
     (case r of R_done \<Rightarrow> Some (s\<lparr>machine := jsm_end J (machine s)\<rparr>, Raise e) | _ \<Rightarrow> None)"
| "answer J C_resolve r s =
     (case r of R_domains d \<Rightarrow> Some (s\<lparr>csdsDomains := Some d\<rparr>, Continue)
      | Rejected e \<Rightarrow> Some (s, Raise e) | _ \<Rightarrow> None)"
| "answer J C_login r s =
     (case r of R_session x \<Rightarrow> Some (s\<lparr>leSession := Some x\<rparr>, Continue)
      | Rejected e \<Rightarrow> Some (s, Raise e) | _ \<Rightarrow> None)"
| "answer J (C_refresh x) r s =
     (case r of R_done \<Rightarrow> Some (s, Continue) | Rejected e \<Rightarrow> Some (s, Raise e) | _ \<Rightarrow> None)"
| "answer J (C_logout x) r s =
     (case r of R_done \<Rightarrow> Some (s, Continue) | Rejected e \<Rightarrow> Some (s, Raise e) | _ \<Rightarrow> None)"
| "answer J (C_resolveService svc sess) r s =
     (case r of R_service v \<Rightarrow> Some (s, Wait (C_connect sess v))
      | Rejected e \<Rightarrow> Some (s, Raise e) | _ \<Rightarrow> None)"
| "answer J (C_connect sess v) r s =
     (case r of R_done \<Rightarrow> Some (s, Continue) | Rejected e \<Rightarrow> Some (s, Raise e) | _ \<Rightarrow> None)"
| "answer J C_disconnect r s =
     (case r of R_done \<Rightarrow> Some (s, Continue) | Rejected e \<Rightarrow> Some (s, Raise e) | _ \<Rightarrow> None)"

section \<open>Running code\<close>

text \<open>An exception skips the rest; inside a transition the state machine ends the transition.\<close>

definition abort :: "js_error \<Rightarrow> instr list \<Rightarrow> 's progress" where
  "abort e rest = (if Settle \<in> set rest then Blocked (C_unwind e) [] else Crashed e)"

fun run :: "jsm \<Rightarrow> instr list \<Rightarrow> ('s, 'n) client \<Rightarrow> ('s, 'n) client \<times> 's progress" where
  "run J [] s = (s, Finished)"
| "run J (i # is) s =
     (case exec_instr J i s of
        (s', Continue) \<Rightarrow> run J is s'
      | (s', Wait c) \<Rightarrow> (s', Blocked c is)
      | (s', Raise e) \<Rightarrow> (s', abort e is))"

definition resume ::
  "jsm \<Rightarrow> 's call \<Rightarrow> 's reply \<Rightarrow> instr list \<Rightarrow> ('s, 'n) client \<Rightarrow> (('s, 'n) client \<times> 's progress) option" where
  "resume J c r is s =
     (case answer J c r s of
        None \<Rightarrow> None
      | Some (s', Continue) \<Rightarrow> Some (run J is s')
      | Some (s', Wait c') \<Rightarrow> Some (s', Blocked c' is)
      | Some (s', Raise e) \<Rightarrow> Some (s', abort e is))"

section \<open>Control flow\<close>

text \<open>The calls a statement can wait for.\<close>

fun waits :: "instr \<Rightarrow> 's call \<Rightarrow> bool" where
  "waits Resolve c = (case c of C_resolve \<Rightarrow> True | _ \<Rightarrow> False)"
| "waits Login c = (case c of C_login \<Rightarrow> True | _ \<Rightarrow> False)"
| "waits SessionRefresh c = (case c of C_refresh _ \<Rightarrow> True | _ \<Rightarrow> False)"
| "waits Logout c = (case c of C_logout _ \<Rightarrow> True | _ \<Rightarrow> False)"
| "waits Connect c = (case c of C_resolveService _ _ \<Rightarrow> True | C_connect _ _ \<Rightarrow> True | _ \<Rightarrow> False)"
| "waits Disconnect c = (case c of C_disconnect \<Rightarrow> True | _ \<Rightarrow> False)"
| "waits Tick c = (case c of C_tick \<Rightarrow> True | _ \<Rightarrow> False)"
| "waits QueueRefresh c = False"
| "waits ClearRefresh c = False"
| "waits DeleteDomains c = False"
| "waits DeleteSession c = False"
| "waits OnError c = False"
| "waits OnMessage c = False"
| "waits RemoveListeners c = False"
| "waits Settle c = False"

definition is_unwind :: "'s call \<Rightarrow> bool" where
  "is_unwind c \<longleftrightarrow> (\<exists>e. c = C_unwind e)"

lemma is_unwind_simps [simp]:
  "is_unwind (C_unwind e)" "\<not> is_unwind C_resolve" "\<not> is_unwind C_login" "\<not> is_unwind (C_refresh x)"
  "\<not> is_unwind (C_logout x)" "\<not> is_unwind (C_resolveService v ss)" "\<not> is_unwind (C_connect ss w)"
  "\<not> is_unwind C_disconnect" "\<not> is_unwind C_tick"
  by (auto simp: is_unwind_def)

lemma waits_not_unwind: "waits i c \<Longrightarrow> \<not> is_unwind c"
  by (cases i) (auto split: call.splits)

lemma exec_instr_Wait: "exec_instr J i s = (s', Wait c) \<Longrightarrow> waits i c"
  by (cases i) (auto split: option.splits sum.splits)

lemma answer_Wait:
  "answer J c r s = Some (s', Wait c') \<Longrightarrow> waits i c \<Longrightarrow> waits i c'"
  by (cases c; cases r; simp; cases i; auto)

lemma answer_unwind:
  "answer J c r s = Some (s', out) \<Longrightarrow> is_unwind c \<Longrightarrow> \<exists>e. c = C_unwind e \<and> out = Raise e"
  by (auto simp: is_unwind_def split: reply.splits)

text \<open>Suspended code is a point of the code it started from.\<close>

definition code_point :: "instr list \<Rightarrow> 's call \<Rightarrow> instr list \<Rightarrow> bool" where
  "code_point code c is \<longleftrightarrow>
     (\<exists>pre i. code = pre @ i # is \<and> waits i c) \<or> (is_unwind c \<and> is = [] \<and> Settle \<in> set code)"

lemma code_point_Cons: "code_point is c is' \<Longrightarrow> code_point (i # is) c is'"
  unfolding code_point_def by (metis append_Cons insert_iff list.simps(15))

lemma code_point_suffix: "code = pre @ is \<Longrightarrow> code_point is c is' \<Longrightarrow> code_point code c is'"
  by (induction pre arbitrary: code) (auto intro: code_point_Cons)

lemma abort_code_point: "abort e is = Blocked c is' \<Longrightarrow> code_point is c is'"
  by (auto simp: abort_def code_point_def split: if_splits)

lemma run_code_point: "run J is s = (s', Blocked c is') \<Longrightarrow> code_point is c is'"
proof (induction J "is" s rule: run.induct)
  case (2 J i "is" s)
  obtain s1 out where e: "exec_instr J i s = (s1, out)" by fastforce
  show ?case
  proof (cases out)
    case Continue
    with 2 e show ?thesis by (auto intro: code_point_Cons)
  next
    case (Wait c0)
    with 2 e exec_instr_Wait [of J i s s1 c0] show ?thesis
      by (auto simp: code_point_def)
  next
    case (Raise x)
    with 2 e show ?thesis by (auto intro: code_point_Cons abort_code_point)
  qed
qed simp

end
