(* ===== verification/Csds_Client.thy ===== *)
theory Csds_Client
  imports Client_Runtime
begin

text \<open>
  \<open>packages/csds-client/src/client.ts\<close>: the handlers of \<open>CsdsClient\<close>. \<open>onStart\<close> calls
  \<open>this.onRefresh()\<close>, which a subclass may override: it is a parameter.
\<close>

definition csds_onRefresh :: "instr list" where
  "csds_onRefresh = [Resolve]"

definition csds_onStart :: "instr list \<Rightarrow> instr list" where
  "csds_onStart this_onRefresh = this_onRefresh @ [Tick, QueueRefresh, Tick]"

definition csds_onStop :: "instr list" where
  "csds_onStop = [ClearRefresh, DeleteDomains]"

text \<open>
  The refresh timer's callback when the state machine can refresh: the transition's handler, the
  end of the transition, and then, after the \<open>await\<close>, the task is queued again.
\<close>

definition refresh_callback :: "instr list \<Rightarrow> instr list" where
  "refresh_callback this_onRefresh = this_onRefresh @ [Tick, Settle, Tick, QueueRefresh]"

text \<open>The body of \<open>start()\<close>, \<open>stop()\<close> and \<open>refresh()\<close> once the state machine has let the
  transition through: the observer, then the end of the transition.\<close>

definition transition_code :: "instr list \<Rightarrow> instr list" where
  "transition_code handler = handler @ [Tick, Settle]"

end
