(* ===== verification/Le_Client.thy ===== *)
theory Le_Client
  imports Csds_Client
begin

text \<open>
  \<open>packages/le-client/src/client.ts\<close>: \<open>LeClient\<close> adds a login session to the life cycle of
  \<open>CsdsClient\<close>.
\<close>

definition le_onRefresh :: "instr list" where
  "le_onRefresh = csds_onRefresh @ [Tick, SessionRefresh]"

definition le_onStart :: "instr list \<Rightarrow> instr list" where
  "le_onStart this_onRefresh = csds_onStart this_onRefresh @ [Tick, Login]"

definition le_onStop :: "instr list" where
  "le_onStop = csds_onStop @ [Tick, Logout, DeleteSession]"

end
