(* ===== verification/Transport_Client.thy ===== *)
theory Transport_Client
  imports Le_Client
begin

text \<open>
  \<open>packages/transport-client/src/client.ts\<close>: \<open>TransportClient\<close> connects a transport on start and
  disconnects it on stop; it does not override \<open>onRefresh\<close>.
\<close>

definition transport_onStart :: "instr list \<Rightarrow> instr list" where
  "transport_onStart this_onRefresh = le_onStart this_onRefresh @ [Tick, Connect, OnError]"

definition transport_onStop :: "instr list" where
  "transport_onStop = le_onStop @ [Tick, Disconnect]"

text \<open>\<open>sendMessage\<close> is refused unless the client is started; otherwise it is the transport's.\<close>

definition transport_sendMessage ::
  "('m \<Rightarrow> 't \<Rightarrow> (js_error + 'p) \<times> 't) \<Rightarrow> ('s, 'n) client \<Rightarrow> 'm \<Rightarrow> 't \<Rightarrow> (js_error + 'p) \<times> 't" where
  "transport_sendMessage transport s obj t =
     (case checkStarted s of Inl e \<Rightarrow> (Throw e, t) | Inr _ \<Rightarrow> transport obj t)"

end
