(* ===== verification/Ums_Handlers.thy ===== *)
theory Ums_Handlers
  imports Transport_Client
begin

text \<open>
  \<open>packages/ums-client/src/client.ts\<close>, the life-cycle part: \<open>UmsClient\<close> registers its message
  callback with the transport on start and empties its two event emitters on stop.
\<close>

definition ums_onStart :: "instr list \<Rightarrow> instr list" where
  "ums_onStart this_onRefresh = transport_onStart this_onRefresh @ [Tick, OnMessage]"

definition ums_onStop :: "instr list" where
  "ums_onStop = transport_onStop @ [Tick, RemoveListeners]"

end
