(* ===== verification/Client_System.thy ===== *)
theory Client_System
  imports Ums_Handlers
begin

text \<open>
  A client of any of the four classes among its callers and its timers. The state is the object,
  the suspended code in flight, and the outcomes of what has finished, newest first (what the
  promises of \<open>start()\<close>, \<open>stop()\<close> and \<open>refresh()\<close> were settled with; the outcome of a refresh timer's
  callback nobody sees). A step is a call by the user, the answer of an awaited call, or a timer
  that fires; which of them comes next is not determined.
\<close>

section \<open>Classes\<close>

datatype client_class = CsdsClient | LeClient | TransportClient | UmsClient

text \<open>The handlers as overridden by each class; \<open>onRefresh\<close> is passed on to the super classes.\<close>

fun onRefresh_of :: "client_class \<Rightarrow> instr list" where
  "onRefresh_of CsdsClient = csds_onRefresh"
| "onRefresh_of LeClient = le_onRefresh"
| "onRefresh_of TransportClient = le_onRefresh"
| "onRefresh_of UmsClient = le_onRefresh"

fun onStart_of :: "client_class \<Rightarrow> instr list" where
  "onStart_of CsdsClient = csds_onStart (onRefresh_of CsdsClient)"
| "onStart_of LeClient = le_onStart (onRefresh_of LeClient)"
| "onStart_of TransportClient = transport_onStart (onRefresh_of TransportClient)"
| "onStart_of UmsClient = ums_onStart (onRefresh_of UmsClient)"

fun onStop_of :: "client_class \<Rightarrow> instr list" where
  "onStop_of CsdsClient = csds_onStop"
| "onStop_of LeClient = le_onStop"
| "onStop_of TransportClient = transport_onStop"
| "onStop_of UmsClient = ums_onStop"

fun handler_of :: "client_class \<Rightarrow> client_transition \<Rightarrow> instr list" where
  "handler_of cls START = onStart_of cls"
| "handler_of cls STOP = onStop_of cls"
| "handler_of cls REFRESH = onRefresh_of cls"

text \<open>Who started a piece of code: a method call of the user, or the refresh timer.\<close>

datatype origin = ByUser client_transition | ByTimer

fun code_of :: "client_class \<Rightarrow> origin \<Rightarrow> instr list" where
  "code_of cls (ByUser t) = transition_code (handler_of cls t)"
| "code_of cls ByTimer = refresh_callback (onRefresh_of cls)"

section \<open>The system\<close>

type_synonym 's task = "origin \<times> 's call \<times> instr list"

record ('s, 'n) sys =
  this :: "('s, 'n) client"
  tasks :: "'s task list"
  outcomes :: "(origin \<times> (js_error + unit)) list"

definition new_sys :: "('s, 'n) sys" where
  "new_sys = \<lparr>this = new_client, tasks = [], outcomes = []\<rparr>"

text \<open>Code of origin \<open>org\<close>, in flight between \<open>pre\<close> and \<open>suf\<close>, got as far as \<open>p\<close>.\<close>

fun put_progress ::
  "origin \<Rightarrow> 's task list \<Rightarrow> 's task list \<Rightarrow> (origin \<times> (js_error + unit)) list \<Rightarrow>
     ('s, 'n) client \<times> 's progress \<Rightarrow> ('s, 'n) sys" where
  "put_progress org pre suf outs (s, Finished) =
     \<lparr>this = s, tasks = pre @ suf, outcomes = (org, Inr ()) # outs\<rparr>"
| "put_progress org pre suf outs (s, Crashed e) =
     \<lparr>this = s, tasks = pre @ suf, outcomes = (org, Inl e) # outs\<rparr>"
| "put_progress org pre suf outs (s, Blocked c is) =
     \<lparr>this = s, tasks = pre @ (org, c, is) # suf, outcomes = outs\<rparr>"

text \<open>
  \<open>start()\<close>, \<open>stop()\<close>, \<open>refresh()\<close>: the call is refused (its promise is rejected with the state
  machine's error, and nothing changes) or its handler runs. The first component is the refusal.
\<close>

definition transition_method ::
  "jsm \<Rightarrow> client_class \<Rightarrow> client_transition \<Rightarrow> ('s, 'n) sys \<Rightarrow> js_error option \<times> ('s, 'n) sys" where
  "transition_method J cls t \<sigma> =
     (case jsm_fire J transitions (machine (this \<sigma>)) t of
        Inl e \<Rightarrow> (Some e, \<sigma>)
      | Inr m \<Rightarrow>
          (None, put_progress (ByUser t) (tasks \<sigma>) [] (outcomes \<sigma>)
             (run J (code_of cls (ByUser t)) ((this \<sigma>)\<lparr>machine := m\<rparr>))))"

text \<open>
  The refresh timer's callback: a refresh through the state machine when it can, and the task is
  queued again.
\<close>

definition timer_callback :: "jsm \<Rightarrow> client_class \<Rightarrow> ('s, 'n) client \<Rightarrow> ('s, 'n) client \<times> 's progress" where
  "timer_callback J cls s =
     (if jsm_can J transitions (machine s) REFRESH
      then (case jsm_fire J transitions (machine s) REFRESH of
              Inl e \<Rightarrow> (s, Crashed e)
            | Inr m \<Rightarrow> run J (code_of cls ByTimer) (s\<lparr>machine := m\<rparr>))
      else run J [QueueRefresh] s)"

datatype 's event =
    Call client_transition
  | Reply nat "'s reply"
  | Fire nat

fun sys_step :: "jsm \<Rightarrow> client_class \<Rightarrow> 's event \<Rightarrow> ('s, 'n) sys \<Rightarrow> ('s, 'n) sys option" where
  "sys_step J cls (Call t) \<sigma> = Some (snd (transition_method J cls t \<sigma>))"
| "sys_step J cls (Reply k r) \<sigma> =
     (if k < length (tasks \<sigma>)
      then (case tasks \<sigma> ! k of (org, c, is) \<Rightarrow>
              map_option (put_progress org (take k (tasks \<sigma>)) (drop (Suc k) (tasks \<sigma>)) (outcomes \<sigma>))
                (resume J c r is (this \<sigma>)))
      else None)"
| "sys_step J cls (Fire h) \<sigma> =
     (if h \<in> set (armed (this \<sigma>))
      then Some (put_progress ByTimer (tasks \<sigma>) [] (outcomes \<sigma>)
             (timer_callback J cls ((this \<sigma>)\<lparr>armed := removeAll h (armed (this \<sigma>))\<rparr>)))
      else None)"

text \<open>A run, event by event; \<open>None\<close> when an event is not possible at its turn.\<close>

fun exec :: "jsm \<Rightarrow> client_class \<Rightarrow> 's event list \<Rightarrow> ('s, 'n) sys \<Rightarrow> ('s, 'n) sys option" where
  "exec J cls [] \<sigma> = Some \<sigma>"
| "exec J cls (e # es) \<sigma> =
     (case sys_step J cls e \<sigma> of None \<Rightarrow> None | Some \<sigma>' \<Rightarrow> exec J cls es \<sigma>')"

text \<open>
  The states a new client can get into. The restricted relation admits \<open>guard\<close>ed events only; the
  unrestricted one is \<open>reachable\<close>.
\<close>

inductive reachable_if ::
  "('s event \<Rightarrow> ('s, 'n) sys \<Rightarrow> bool) \<Rightarrow> jsm \<Rightarrow> client_class \<Rightarrow> ('s, 'n) sys \<Rightarrow> bool"
  for guard J cls where
  init: "reachable_if guard J cls new_sys"
| step: "reachable_if guard J cls \<sigma> \<Longrightarrow> guard e \<sigma> \<Longrightarrow> sys_step J cls e \<sigma> = Some \<sigma>' \<Longrightarrow>
     reachable_if guard J cls \<sigma>'"

abbreviation reachable :: "jsm \<Rightarrow> client_class \<Rightarrow> ('s, 'n) sys \<Rightarrow> bool" where
  "reachable \<equiv> reachable_if (\<lambda>_ _. True)"

lemma exec_reachable:
  "reachable J cls \<sigma> \<Longrightarrow> exec J cls es \<sigma> = Some \<sigma>' \<Longrightarrow> reachable J cls \<sigma>'"
  by (induction es arbitrary: \<sigma>) (auto intro: reachable_if.step split: option.splits)

lemmas run_from_new = exec_reachable [OF reachable_if.init]

lemma reachable_if_mono: "reachable_if guard J cls \<sigma> \<Longrightarrow> reachable J cls \<sigma>"
  by (induction rule: reachable_if.induct) (auto intro: reachable_if.intros)

section \<open>What a step does to the code in flight\<close>

lemma put_progress_simps [simp]:
  "this (put_progress org pre suf outs (s, p)) = s"
  "tasks (put_progress org pre suf outs (s, p)) =
     (case p of Blocked c is \<Rightarrow> pre @ (org, c, is) # suf | _ \<Rightarrow> pre @ suf)"
  "outcomes (put_progress org pre suf outs (s, p)) =
     (case p of Finished \<Rightarrow> (org, Inr ()) # outs | Crashed e \<Rightarrow> (org, Inl e) # outs | Blocked c is \<Rightarrow> outs)"
  by (cases p; simp)+

text \<open>
  Every step that changes something is one of four: a method call the state machine lets through,
  an answer, and a timer that finds the state machine ready for a refresh or not.
\<close>

lemma sys_step_cases [consumes 2, case_names refused called answered refreshed requeued]:
  assumes "sys_step J cls e \<sigma> = Some \<sigma>'" and "jsm_documented J"
    and refused: "\<And>t. e = Call t \<Longrightarrow> \<sigma>' = \<sigma> \<Longrightarrow> P"
    and called: "\<And>t m. e = Call t \<Longrightarrow> jsm_fire J transitions (machine (this \<sigma>)) t = Inr m \<Longrightarrow>
      \<sigma>' = put_progress (ByUser t) (tasks \<sigma>) [] (outcomes \<sigma>)
             (run J (code_of cls (ByUser t)) ((this \<sigma>)\<lparr>machine := m\<rparr>)) \<Longrightarrow> P"
    and answered: "\<And>k r org c is pre suf y. e = Reply k r \<Longrightarrow> tasks \<sigma> = pre @ (org, c, is) # suf \<Longrightarrow>
      resume J c r is (this \<sigma>) = Some y \<Longrightarrow>
      \<sigma>' = put_progress org pre suf (outcomes \<sigma>) y \<Longrightarrow> k = length pre \<Longrightarrow> P"
    and refreshed: "\<And>h m. e = Fire h \<Longrightarrow> h \<in> set (armed (this \<sigma>)) \<Longrightarrow>
      jsm_fire J transitions (machine (this \<sigma>)) REFRESH = Inr m \<Longrightarrow>
      \<sigma>' = put_progress ByTimer (tasks \<sigma>) [] (outcomes \<sigma>)
             (run J (code_of cls ByTimer)
               ((this \<sigma>)\<lparr>armed := removeAll h (armed (this \<sigma>)), machine := m\<rparr>)) \<Longrightarrow> P"
    and requeued: "\<And>h. e = Fire h \<Longrightarrow> h \<in> set (armed (this \<sigma>)) \<Longrightarrow>
      \<sigma>' = \<lparr>this = queueRefreshTask ((this \<sigma>)\<lparr>armed := removeAll h (armed (this \<sigma>))\<rparr>),
            tasks = tasks \<sigma>, outcomes = (ByTimer, Inr ()) # outcomes \<sigma>\<rparr> \<Longrightarrow> P"
  shows P
proof (cases e)
  case (Call t)
  then show P
    using assms(1) refused [of t] called [of t]
    by (auto simp: transition_method_def split: sum.splits)
next
  case (Reply k r)
  then have k: "k < length (tasks \<sigma>)" using assms(1) by (auto split: if_splits)
  obtain org c "is" where t: "tasks \<sigma> ! k = (org, c, is)" by (cases "tasks \<sigma> ! k") auto
  then have "tasks \<sigma> = take k (tasks \<sigma>) @ (org, c, is) # drop (Suc k) (tasks \<sigma>)"
    using id_take_nth_drop [OF k] by simp
  then show P
    using assms(1) Reply k t answered [OF Reply] by auto
next
  case (Fire h)
  then have h: "h \<in> set (armed (this \<sigma>))" using assms(1) by (auto split: if_splits)
  show P
  proof (cases "jsm_can J transitions (machine (this \<sigma>)) REFRESH")
    case True
    then obtain m where "jsm_fire J transitions (machine (this \<sigma>)) REFRESH = Inr m"
      using jsm_can_iff [OF assms(2)] by blast
    then show P
      using assms(1) Fire h True refreshed [OF Fire h] by (auto simp: timer_callback_def)
  next
    case False
    then show P
      using assms(1) Fire h requeued [OF Fire h] by (auto simp: timer_callback_def)
  qed
qed

end
