(* ===== verification/Client_Invariants.thy ===== *)
theory Client_Invariants
  imports Client_System
begin

text \<open>
  Control flow of a client: suspended code is always a point of the method it started from, and the
  transitions of the state machine exclude one another. Everything else that is proved about the
  life cycle rests on this invariant.
\<close>

section \<open>Code inside a transition\<close>

text \<open>Suspended code that still has the end of its transition to come.\<close>

definition holding :: "'s call \<Rightarrow> instr list \<Rightarrow> bool" where
  "holding c is \<longleftrightarrow> Settle \<in> set is \<or> is_unwind c"

definition in_transition :: "'s task \<Rightarrow> bool" where
  "in_transition t = (case t of (org, c, is) \<Rightarrow> holding c is)"

lemma in_transition_simp [simp]: "in_transition (org, c, is) = holding c is"
  by (simp add: in_transition_def)

definition transitions_running :: "('s, 'n) sys \<Rightarrow> nat" where
  "transitions_running \<sigma> = length (filter in_transition (tasks \<sigma>))"

definition holds :: "'s progress \<Rightarrow> bool" where
  "holds p = (case p of Blocked c is \<Rightarrow> holding c is | _ \<Rightarrow> False)"

lemma holds_simps [simp]:
  "\<not> holds Finished" "\<not> holds (Crashed e)" "holds (Blocked c is) = holding c is"
  by (simp_all add: holds_def)

lemma holds_abort [simp]: "holds (abort e is) \<longleftrightarrow> Settle \<in> set is"
  by (simp add: abort_def holding_def)

lemma exec_instr_machine:
  "i \<noteq> Settle \<Longrightarrow> machine (fst (exec_instr J i s)) = machine s"
  by (cases i) (auto simp: queueRefreshTask_def clearRefreshTask_def onError_def onMessage_def
      checkStarted_def removeUmsListeners_def)

text \<open>Running code changes the state machine at the end of the transition only.\<close>

lemma run_machine:
  assumes "jsm_documented J" and "run J is s = (s', p)" and "count_list is Settle \<le> 1"
  shows "machine s' = (if Settle \<in> set is \<and> \<not> holds p then (machine s)\<lparr>pending := False\<rparr> else machine s)
    \<and> (Settle \<notin> set is \<longrightarrow> \<not> holds p)"
  using assms
proof (induction J "is" s arbitrary: s' p rule: run.induct)
  case (2 J i "is" s)
  obtain s1 out where e: "exec_instr J i s = (s1, out)" by fastforce
  show ?case
  proof (cases "i = Settle")
    case True
    with "2.prems" have run: "run J is (s\<lparr>machine := jsm_end J (machine s)\<rparr>) = (s', p)"
      and no: "Settle \<notin> set is"
      by (auto simp: count_list_0_iff)
    then show ?thesis
      using "2.IH" [of "s\<lparr>machine := jsm_end J (machine s)\<rparr>" Continue s' p] "2.prems" True
      by (simp add: jsm_laws count_list_0_iff)
  next
    case False
    with e exec_instr_machine [of i J s] have m: "machine s1 = machine s" by simp
    show ?thesis
    proof (cases out)
      case Continue
      have "run J is s1 = (s', p)" "count_list is Settle \<le> 1"
        using "2.prems"(2,3) e Continue False by simp_all
      from "2.IH" [OF e [symmetric] Continue "2.prems"(1) this] show ?thesis
        using False m by simp
    next
      case (Wait c)
      with "2.prems" e False m exec_instr_Wait [of J i s s1 c] show ?thesis
        by (auto simp: holding_def dest: waits_not_unwind)
    next
      case (Raise x)
      with "2.prems" e False m show ?thesis by auto
    qed
  qed
qed simp

lemma handler_no_Settle: "Settle \<notin> set (handler_of cls t)"
  by (cases t; cases cls)
    (auto simp: csds_onStart_def csds_onRefresh_def csds_onStop_def le_onStart_def le_onRefresh_def
      le_onStop_def transport_onStart_def transport_onStop_def ums_onStart_def ums_onStop_def)

lemma onRefresh_no_Settle: "Settle \<notin> set (onRefresh_of cls)"
  using handler_no_Settle [of cls REFRESH] by simp

lemma code_Settle: "count_list (code_of cls org) Settle = 1" "Settle \<in> set (code_of cls org)"
  using handler_no_Settle [of cls] onRefresh_no_Settle [of cls]
  by (cases org; simp add: transition_code_def refresh_callback_def count_list_0_iff)+

lemma code_point_Settle: "code_point (code_of cls org) c is \<Longrightarrow> count_list is Settle \<le> 1"
  using code_Settle(1) [of cls org] by (auto simp: code_point_def split: if_splits)

text \<open>A method call in flight is always inside its transition.\<close>

lemma user_code_holding:
  assumes "code_point (code_of cls (ByUser t)) c is"
  shows "holding c is"
proof (cases "is_unwind c")
  case False
  then obtain pre i where code: "handler_of cls t @ [Tick, Settle] = pre @ i # is" and "waits i c"
    using assms by (auto simp: code_point_def transition_code_def)
  have "last (i # is) = Settle"
    using arg_cong [OF code, of last] by simp
  then show ?thesis
    using \<open>waits i c\<close> by (auto simp: holding_def split: if_splits dest: last_in_set)
qed (simp add: holding_def)

lemma resume_code_point:
  assumes "resume J c r is s = Some (s', Blocked c' is')" and "code_point code c is"
  shows "code_point code c' is'"
proof -
  obtain s1 out where a: "answer J c r s = Some (s1, out)"
    using assms(1) by (auto simp: resume_def split: option.splits)
  show ?thesis
  proof (cases "is_unwind c")
    case True
    with a answer_unwind [OF a] assms show ?thesis
      by (auto simp: resume_def code_point_def abort_def split: if_splits)
  next
    case False
    with assms(2) obtain pre i where code: "code = pre @ i # is" and w: "waits i c"
      by (auto simp: code_point_def)
    from code have suffix: "code = (pre @ [i]) @ is" by simp
    show ?thesis
    proof (cases out)
      case Continue
      with a assms(1) have "run J is s1 = (s', Blocked c' is')" by (simp add: resume_def)
      then show ?thesis using code_point_suffix [OF suffix] run_code_point by blast
    next
      case (Wait c0)
      with a assms(1) have "c' = c0" "is' = is" by (simp_all add: resume_def)
      with answer_Wait [of J c r s s1 c0 i] a Wait w code show ?thesis
        by (auto simp: code_point_def)
    next
      case (Raise e)
      with a assms(1) have "abort e is = Blocked c' is'" by (simp add: resume_def)
      then show ?thesis using code_point_suffix [OF suffix] abort_code_point by blast
    qed
  qed
qed

lemma resume_rest:
  assumes "resume J c r is s = Some (s', Blocked c' is')"
  shows "set is' \<subseteq> set is"
proof -
  obtain s1 out where a: "answer J c r s = Some (s1, out)"
    using assms by (auto simp: resume_def split: option.splits)
  then show ?thesis
    using assms run_code_point [of J "is" s1 s' c' is']
    by (cases out) (auto simp: resume_def code_point_def abort_def split: if_splits)
qed

lemma answer_machine:
  "answer J c r s = Some (s', out) \<Longrightarrow> \<not> is_unwind c \<Longrightarrow> machine s' = machine s"
  by (cases c; cases r) auto

lemma resume_machine:
  assumes J: "jsm_documented J" and res: "resume J c r is s = Some (s', p)"
    and one: "count_list is Settle \<le> 1" and unwind: "is_unwind c \<Longrightarrow> is = []"
  shows "machine s' = (if holding c is \<and> \<not> holds p then (machine s)\<lparr>pending := False\<rparr> else machine s)
    \<and> (\<not> holding c is \<longrightarrow> \<not> holds p)"
proof -
  obtain s1 out where a: "answer J c r s = Some (s1, out)"
    using res by (auto simp: resume_def split: option.splits)
  show ?thesis
  proof (cases "is_unwind c")
    case True
    then obtain e where "c = C_unwind e" by (auto simp: is_unwind_def)
    with a res unwind J True show ?thesis
      by (auto simp: resume_def holding_def abort_def jsm_laws split: reply.splits)
  next
    case False
    with answer_machine [OF a] have m: "machine s1 = machine s" by simp
    show ?thesis
    proof (cases out)
      case Continue
      with a res have "run J is s1 = (s', p)" by (simp add: resume_def)
      with run_machine [OF J this one] m False show ?thesis by (simp add: holding_def)
    next
      case (Wait c0)
      with a res have "s' = s1" "p = Blocked c0 is" by (simp_all add: resume_def)
      moreover have "\<not> is_unwind c0"
        using a Wait False by (cases c; cases r) auto
      ultimately show ?thesis using m False by (simp add: holding_def)
    next
      case (Raise e)
      with a res m False show ?thesis by (auto simp: resume_def holding_def)
    qed
  qed
qed

text \<open>Code whose transition is being ended by an exception has nothing else left.\<close>

lemma unwind_rest: "code_point code c is \<Longrightarrow> is_unwind c \<Longrightarrow> is = []"
  by (auto simp: code_point_def dest: waits_not_unwind)

lemma resume_unwound:
  assumes "resume J c r is s = Some (s', p)" and "is_unwind c" and "code_point code c is"
  shows "\<exists>e. p = Crashed e"
proof -
  obtain e where "c = C_unwind e" using assms(2) by (auto simp: is_unwind_def)
  then show ?thesis
    using assms(1) unwind_rest [OF assms(3,2)]
    by (auto simp: resume_def abort_def split: reply.splits)
qed

section \<open>The invariant\<close>

fun state_during :: "origin \<Rightarrow> client_state" where
  "state_during (ByUser STOP) = STOPPED"
| "state_during _ = STARTED"

definition control_inv :: "client_class \<Rightarrow> ('s, 'n) sys \<Rightarrow> bool" where
  "control_inv cls \<sigma> \<longleftrightarrow>
     (\<forall>(org, c, is) \<in> set (tasks \<sigma>). code_point (code_of cls org) c is \<and>
        (holding c is \<longrightarrow> current (machine (this \<sigma>)) = state_during org)) \<and>
     transitions_running \<sigma> = (if pending (machine (this \<sigma>)) then 1 else 0)"

lemma control_inv_task:
  assumes "control_inv cls \<sigma>" and "(org, c, is) \<in> set (tasks \<sigma>)"
  shows "code_point (code_of cls org) c is"
    and "holding c is \<Longrightarrow> current (machine (this \<sigma>)) = state_during org"
    and "holding c is \<Longrightarrow> pending (machine (this \<sigma>))"
proof -
  show "code_point (code_of cls org) c is"
    and "holding c is \<Longrightarrow> current (machine (this \<sigma>)) = state_during org"
    using assms by (auto simp: control_inv_def)
  show "pending (machine (this \<sigma>))" if "holding c is"
  proof -
    have "(org, c, is) \<in> set (filter in_transition (tasks \<sigma>))" using assms(2) that by simp
    then have "transitions_running \<sigma> \<noteq> 0"
      unfolding transitions_running_def by (auto simp only: length_0_conv list.set)
    with assms(1) show ?thesis by (auto simp: control_inv_def split: if_splits)
  qed
qed

lemma control_inv_unique:
  assumes "control_inv cls \<sigma>" and "tasks \<sigma> = pre @ (org, c, is) # suf" and "holding c is"
  shows "\<forall>t \<in> set (pre @ suf). \<not> in_transition t"
proof -
  have "length (filter in_transition pre) + Suc (length (filter in_transition suf)) \<le> 1"
    using assms by (simp add: control_inv_def transitions_running_def split: if_splits)
  then have "filter in_transition pre = []" "filter in_transition suf = []" by auto
  then show ?thesis by (auto simp: filter_empty_conv)
qed

text \<open>An answer never changes the state of the life cycle.\<close>

lemma answered_current:
  assumes J: "jsm_documented J" and inv: "control_inv cls \<sigma>"
    and t: "tasks \<sigma> = pre @ (org, c, is) # suf"
    and res: "resume J c r is (this \<sigma>) = Some (s', p)"
  shows "current (machine s') = current (machine (this \<sigma>))"
proof -
  have cp: "code_point (code_of cls org) c is"
    using control_inv_task(1) [OF inv] t by simp
  from resume_machine [OF J res code_point_Settle [OF cp] unwind_rest [OF cp]] show ?thesis
    by (auto split: if_splits)
qed

text \<open>New code that runs inside a fresh transition.\<close>

lemma control_inv_fired:
  assumes J: "jsm_documented J" and inv: "control_inv cls \<sigma>"
    and fire: "jsm_fire J transitions (machine (this \<sigma>)) t = Inr m"
    and s: "machine s = m"
    and org: "state_during org = (if t = STOP then STOPPED else STARTED)"
  shows "control_inv cls (put_progress org (tasks \<sigma>) [] outs (run J (code_of cls org) s))"
proof -
  obtain s' p where run: "run J (code_of cls org) s = (s', p)" by fastforce
  have m: "\<not> pending (machine (this \<sigma>))" "pending m" "current m = state_during org"
    using jsm_fire_Inr [OF J fire] org by auto
  with inv have none: "\<forall>t \<in> set (tasks \<sigma>). \<not> in_transition t"
    using control_inv_task(3) [OF inv] by fastforce
  then have f: "filter in_transition (tasks \<sigma>) = []" by simp
  have mach: "machine s' = (if holds p then m else m\<lparr>pending := False\<rparr>)"
    using run_machine [OF J run] code_Settle [of cls org] s by auto
  have "\<forall>(org', c, is) \<in> set (tasks \<sigma>). code_point (code_of cls org') c is \<and> \<not> holding c is"
    using inv none by (fastforce simp: control_inv_def)
  then show ?thesis
    using run m mach f run_code_point [of J "code_of cls org" s s']
    by (cases p) (auto simp: control_inv_def transitions_running_def)
qed

lemma control_inv_answered:
  assumes J: "jsm_documented J" and inv: "control_inv cls \<sigma>"
    and t: "tasks \<sigma> = pre @ (org, c, is) # suf"
    and res: "resume J c r is (this \<sigma>) = Some (s', p)"
  shows "control_inv cls (put_progress org pre suf outs (s', p))"
proof -
  have cp: "code_point (code_of cls org) c is"
    using control_inv_task(1) [OF inv] t by simp
  have one: "count_list is Settle \<le> 1" by (rule code_point_Settle [OF cp])
  note mach = resume_machine [OF J res one unwind_rest [OF cp]]
  have rest: "\<forall>(org', c', is') \<in> set (pre @ suf). code_point (code_of cls org') c' is' \<and>
      (holding c' is' \<longrightarrow> current (machine (this \<sigma>)) = state_during org')"
    using inv t by (auto simp: control_inv_def)
  have cur: "current (machine s') = current (machine (this \<sigma>))"
    by (rule answered_current [OF J inv t res])
  have cnt: "length (filter in_transition pre) + length (filter in_transition suf) +
      (if holding c is then 1 else 0) = (if pending (machine (this \<sigma>)) then 1 else (0::nat))"
    using inv t by (cases "holding c is"; cases "pending (machine (this \<sigma>))")
      (simp_all add: control_inv_def transitions_running_def)
  have new: "code_point (code_of cls org) c' is'" if "p = Blocked c' is'" for c' is'
    using resume_code_point [of J c r "is" "this \<sigma>" s' c' is'] res cp that by simp
  have pend: "pending (machine (this \<sigma>))" if "holding c is"
    using control_inv_task(3) [OF inv, of org c "is"] t that by simp
  have newcur: "current (machine (this \<sigma>)) = state_during org" if "holds p"
    using mach that control_inv_task(2) [OF inv] t by auto
  show ?thesis
    using rest cur cnt mach new newcur pend
    by (cases p; cases "holding c is") (auto simp: control_inv_def transitions_running_def split: if_splits)
qed

theorem control_inv_step:
  assumes step: "sys_step J cls e \<sigma> = Some \<sigma>'" and J: "jsm_documented J" and inv: "control_inv cls \<sigma>"
  shows "control_inv cls \<sigma>'"
  using step J
proof (cases rule: sys_step_cases)
  case (called t m)
  show ?thesis
    unfolding called(3) by (rule control_inv_fired [OF J inv called(2)]) (cases t; simp)+
next
  case (answered k r org c "is" pre suf y)
  then show ?thesis by (cases y) (auto intro: control_inv_answered [OF J inv])
next
  case (refreshed h m)
  show ?thesis
    unfolding refreshed(4) by (rule control_inv_fired [OF J inv refreshed(3)]) simp_all
next
  case (requeued h)
  then show ?thesis
    using inv by (auto simp: control_inv_def transitions_running_def queueRefreshTask_def)
qed (use inv in simp)

lemma control_inv_new: "control_inv cls new_sys"
  by (simp add: control_inv_def new_sys_def new_client_def transitions_running_def)

lemma reachable_control_inv:
  "reachable_if guard J cls \<sigma> \<Longrightarrow> jsm_documented J \<Longrightarrow> control_inv cls \<sigma>"
  by (induction rule: reachable_if.induct) (auto intro: control_inv_new control_inv_step)

end
