(* ===== verification/Client_Data.thy ===== *)
theory Client_Data
  imports Client_Invariants
begin

text \<open>
  What a transition has achieved once its method call has resolved: a started client has the data
  its getters promise, a stopped one has given it up. Each such fact is a condition on the object
  that one statement of the handler brings about and no code that may run in that state of the life
  cycle takes away; the locales state this contract once, for any condition.
\<close>

section \<open>A condition and the statement that brings it about\<close>

text \<open>
  After running code: the condition holds, or the code is suspended where the statement is still to
  come (or is waiting for its answer), or an exception has ended it.
\<close>

definition secured ::
  "(('s, 'n) client \<Rightarrow> bool) \<Rightarrow> instr \<Rightarrow> ('s call \<Rightarrow> bool) \<Rightarrow> ('s, 'n) client \<times> 's progress \<Rightarrow> bool" where
  "secured hav src waiting y =
     (case snd y of
        Finished \<Rightarrow> hav (fst y)
      | Crashed e \<Rightarrow> True
      | Blocked c is \<Rightarrow> is_unwind c \<or> hav (fst y) \<or> waiting c \<or> src \<in> set is)"

lemma secured_abort [simp]: "secured hav src waiting (s, abort e is)"
  by (simp add: secured_def abort_def)

locale resource =
  fixes hav :: "('s, 'n) client \<Rightarrow> bool"
    and src :: instr
    and waiting :: "'s call \<Rightarrow> bool"
    and harmful :: "instr \<Rightarrow> bool"
    and harming :: "'s call \<Rightarrow> bool"
  assumes keep_sync: "hav s \<Longrightarrow> \<not> harmful i \<Longrightarrow> hav (fst (exec_instr J i s))"
    and src_sync: "exec_instr J src s = (s', Continue) \<Longrightarrow> hav s'"
    and src_wait: "exec_instr J src s = (s', Wait c) \<Longrightarrow> waiting c"
    and keep_answer: "hav s \<Longrightarrow> \<not> harming c \<Longrightarrow> answer J c r s = Some (s', out) \<Longrightarrow> hav s'"
    and waiting_done: "waiting c \<Longrightarrow> answer J c r s = Some (s', Continue) \<Longrightarrow> hav s'"
    and waiting_wait: "waiting c \<Longrightarrow> answer J c r s = Some (s', Wait c') \<Longrightarrow> waiting c'"
begin

lemma run_keeps:
  "hav s \<Longrightarrow> \<forall>i \<in> set is. \<not> harmful i \<Longrightarrow> hav (fst (run J is s))"
proof (induction J "is" s rule: run.induct)
  case (2 J i "is" s)
  obtain s1 out where e: "exec_instr J i s = (s1, out)" by fastforce
  have "hav s1" using keep_sync [OF "2.prems"(1), of i J] "2.prems"(2) e by simp
  then show ?case using "2.IH" [OF e [symmetric]] "2.prems"(2) e by (cases out) simp_all
qed simp

lemma run_secured:
  "hav s \<or> src \<in> set is \<Longrightarrow> \<forall>i \<in> set is. \<not> harmful i \<Longrightarrow> secured hav src waiting (run J is s)"
proof (induction J "is" s rule: run.induct)
  case (1 J s)
  then show ?case by (simp add: secured_def)
next
  case (2 J i "is" s)
  obtain s1 out where e: "exec_instr J i s = (s1, out)" by fastforce
  have kept: "hav s \<Longrightarrow> hav s1"
    using keep_sync [of s i J] "2.prems"(2) e by simp
  show ?case
  proof (cases out)
    case Continue
    have "hav s1 \<or> src \<in> set is"
      using "2.prems"(1) kept src_sync [of J s s1] e Continue by auto
    then show ?thesis using "2.IH" [OF e [symmetric] Continue] "2.prems"(2) e Continue by simp
  next
    case (Wait c)
    have "hav s1 \<or> waiting c \<or> src \<in> set is"
      using "2.prems"(1) kept src_wait [of J s s1 c] e Wait by auto
    then show ?thesis using e Wait by (auto simp: secured_def)
  next
    case (Raise x)
    then show ?thesis using e by simp
  qed
qed

lemma resume_keeps:
  assumes res: "resume J c r is s = Some (s', p)"
    and "hav s" and "\<not> harming c" and ok: "\<forall>i \<in> set is. \<not> harmful i"
  shows "hav s'"
proof -
  obtain s1 out where a: "answer J c r s = Some (s1, out)"
    using res by (auto simp: resume_def split: option.splits)
  have "hav s1" by (rule keep_answer [OF assms(2,3) a])
  then show ?thesis
    using a res run_keeps [of s1 "is" J] ok by (cases out) (auto simp: resume_def)
qed

lemma resume_secured:
  assumes res: "resume J c r is s = Some y"
    and pre: "hav s \<or> waiting c \<or> src \<in> set is"
    and "\<not> harming c" and ok: "\<forall>i \<in> set is. \<not> harmful i"
  shows "secured hav src waiting y"
proof -
  obtain s1 out where a: "answer J c r s = Some (s1, out)"
    using res by (auto simp: resume_def split: option.splits)
  have kept: "hav s \<Longrightarrow> hav s1" using keep_answer assms(3) a by blast
  show ?thesis
  proof (cases out)
    case Continue
    then have "hav s1 \<or> src \<in> set is" using pre kept waiting_done a by blast
    then show ?thesis using run_secured ok a res Continue by (auto simp: resume_def)
  next
    case (Wait c')
    then have "hav s1 \<or> waiting c' \<or> src \<in> set is" using pre kept waiting_wait a by blast
    then show ?thesis using a res Wait by (auto simp: resume_def secured_def)
  next
    case (Raise e)
    then show ?thesis using a res by (auto simp: resume_def)
  qed
qed

end

section \<open>The condition a start or a stop attains\<close>

fun target :: "client_transition \<Rightarrow> client_state" where
  "target STOP = STOPPED"
| "target _ = STARTED"

lemma state_during_ByUser [simp]: "state_during (ByUser t) = target t"
  by (cases t) simp_all

text \<open>
  The condition holds in the state the transition leads to, once the transition's latest call has
  resolved; while the call is in flight, its statement is still to come, or the call is failing.
\<close>

definition attained ::
  "client_transition \<Rightarrow> (('s, 'n) client \<Rightarrow> bool) \<Rightarrow> instr \<Rightarrow> ('s call \<Rightarrow> bool) \<Rightarrow> ('s, 'n) sys \<Rightarrow> bool" where
  "attained t hav src waiting \<sigma> \<longleftrightarrow>
     (current (machine (this \<sigma>)) = target t \<longrightarrow>
        (\<forall>c is. (ByUser t, c, is) \<in> set (tasks \<sigma>) \<longrightarrow>
           is_unwind c \<or> hav (this \<sigma>) \<or> waiting c \<or> src \<in> set is) \<and>
        ((\<forall>c is. (ByUser t, c, is) \<notin> set (tasks \<sigma>)) \<longrightarrow>
           map_of (outcomes \<sigma>) (ByUser t) = Some (Inr ()) \<longrightarrow> hav (this \<sigma>)))"

text \<open>Timer code past the end of its refresh has only the re-queueing left.\<close>

lemma timer_code_tail:
  assumes "code_point (code_of cls ByTimer) c is" and "\<not> holding c is"
  shows "c = C_tick \<and> is = [QueueRefresh]"
proof -
  obtain pre i where code: "onRefresh_of cls @ [Tick, Settle, Tick, QueueRefresh] = pre @ i # is"
    and w: "waits i c" and no: "Settle \<notin> set is"
    using assms by (auto simp: code_point_def holding_def refresh_callback_def)
  from w have "i \<noteq> QueueRefresh" "i \<noteq> Settle" by auto
  moreover from code have "(onRefresh_of cls @ [Tick]) @ Settle # [Tick, QueueRefresh] = pre @ i # is"
    by simp
  ultimately have "i = Tick \<and> is = [QueueRefresh]"
    using no by (auto simp: append_eq_append_conv2 Cons_eq_append_conv append_eq_Cons_conv)
  then show ?thesis using w by (auto split: call.splits)
qed

lemma no_user_task_when_idle:
  assumes "control_inv cls \<sigma>" and "\<not> pending (machine (this \<sigma>))"
  shows "(ByUser t, c, is) \<notin> set (tasks \<sigma>)"
  using assms control_inv_task [OF assms(1)] user_code_holding by blast

locale attainment = resource hav src waiting harmful harming
  for hav :: "('s, 'n) client \<Rightarrow> bool" and src waiting harmful harming +
  fixes t :: client_transition
  assumes harmless_code: "state_during org = target t \<Longrightarrow> i \<in> set (code_of cls org) \<Longrightarrow> \<not> harmful i"
    and harmless_call: "state_during org = target t \<Longrightarrow> code_point (code_of cls org) c is \<Longrightarrow> \<not> harming c"
    and tail_code: "\<not> harmful QueueRefresh"
    and tail_call: "\<not> harming C_tick"
    and hav_machine: "hav (s\<lparr>machine := m\<rparr>) = hav s"
    and hav_armed: "hav (s\<lparr>armed := hs\<rparr>) = hav s"
    and not_refresh: "t \<noteq> REFRESH"
begin

lemma attained_fired:
  assumes J: "jsm_documented J" and cinv: "control_inv cls \<sigma>" and inv: "attained t hav src waiting \<sigma>"
    and src: "src \<in> set (code_of cls (ByUser t))"
    and fire: "jsm_fire J transitions (machine (this \<sigma>)) u = Inr m"
    and org: "org = ByUser u \<or> org = ByTimer \<and> u = REFRESH"
    and s: "machine s = m" and same: "hav s = hav (this \<sigma>)"
  shows "attained t hav src waiting
    (put_progress org (tasks \<sigma>) [] (outcomes \<sigma>) (run J (code_of cls org) s))"
proof -
  obtain s' p where run: "run J (code_of cls org) s = (s', p)" by fastforce
  note m = jsm_fire_Inr [OF J fire]
  have none: "(ByUser w, c, is) \<notin> set (tasks \<sigma>)" for w c "is"
    using no_user_task_when_idle [OF cinv] m by blast
  have cur: "current (machine s') = target u"
    using run_machine [OF J run] code_Settle [of cls org] s m by (cases u) auto
  show ?thesis
  proof (cases "target u = target t")
    case False
    with cur run show ?thesis by (cases p) (auto simp: attained_def)
  next
    case True
    then have so: "state_during org = target t" using org by auto
    have ok: "\<forall>i \<in> set (code_of cls org). \<not> harmful i"
      using harmless_code [OF so, of _ cls] by blast
    show ?thesis
    proof (cases "org = ByUser t")
      case True
      have "secured hav src waiting (s', p)"
        using run_secured [of s "code_of cls org" J] src ok run True by simp
      then show ?thesis
        using run none True by (cases p) (auto simp: attained_def secured_def)
    next
      case False
      have "u = REFRESH" "t = START"
        using False True org not_refresh by (cases u; cases t; auto)+
      then have "current (machine (this \<sigma>)) = target t" using m by simp
      then have "map_of (outcomes \<sigma>) (ByUser t) = Some (Inr ()) \<Longrightarrow> hav (this \<sigma>)"
        using inv none by (auto simp: attained_def)
      then have "map_of (outcomes \<sigma>) (ByUser t) = Some (Inr ()) \<Longrightarrow> hav s'"
        using run_keeps [of s "code_of cls org" J] ok run same by simp
      then show ?thesis using run none False by (cases p) (auto simp: attained_def)
    qed
  qed
qed

lemma attained_answered:
  assumes J: "jsm_documented J" and cinv: "control_inv cls \<sigma>" and inv: "attained t hav src waiting \<sigma>"
    and t: "tasks \<sigma> = pre @ (org, c, is) # suf"
    and res: "resume J c r is (this \<sigma>) = Some (s', p)"
  shows "attained t hav src waiting (put_progress org pre suf (outcomes \<sigma>) (s', p))"
proof (cases "current (machine (this \<sigma>)) = target t")
  case cur: True
  have mem: "(org, c, is) \<in> set (tasks \<sigma>)" using t by simp
  note cp = control_inv_task(1) [OF cinv mem]
  have ok: "(\<forall>i \<in> set is. \<not> harmful i) \<and> \<not> harming c"
  proof (cases "holding c is")
    case True
    then have so: "state_during org = target t" using control_inv_task(2) [OF cinv mem] cur by simp
    then show ?thesis
      using harmless_code [OF so, of _ cls] harmless_call [OF so cp] cp by (auto simp: code_point_def)
  next
    case False
    then have "org = ByTimer" using user_code_holding [of cls _ c "is"] cp by (cases org) auto
    then show ?thesis using timer_code_tail [of cls c "is"] cp False tail_code tail_call by simp
  qed
  show ?thesis
  proof (cases "org = ByUser t")
    case True
    have others: "(ByUser t, c', is') \<notin> set (pre @ suf)" for c' is'
    proof
      assume other: "(ByUser t, c', is') \<in> set (pre @ suf)"
      then have "code_point (code_of cls (ByUser t)) c' is'"
        using control_inv_task(1) [OF cinv, of "ByUser t" c' is'] t by auto
      then have "holding c' is'" by (rule user_code_holding)
      moreover have "holding c is" using user_code_holding cp True by blast
      ultimately show False using control_inv_unique [OF cinv t] other by fastforce
    qed
    have unwound: "\<exists>e. p = Crashed e" if "is_unwind c"
      by (rule resume_unwound [OF res that cp])
    have "secured hav src waiting (s', p)"
    proof (cases "is_unwind c")
      case True
      with unwound show ?thesis by (auto simp: secured_def)
    next
      case False
      then have "hav (this \<sigma>) \<or> waiting c \<or> src \<in> set is"
        using inv mem cur True by (auto simp: attained_def)
      then show ?thesis using resume_secured [OF res] ok by blast
    qed
    then show ?thesis using others True by (cases p) (auto simp: attained_def secured_def)
  next
    case False
    have kept: "hav (this \<sigma>) \<Longrightarrow> hav s'" using resume_keeps [OF res] ok by blast
    have same: "(ByUser t, c', is') \<in> set (tasks \<sigma>) \<longleftrightarrow> (ByUser t, c', is') \<in> set (pre @ suf)" for c' is'
      using t False by auto
    show ?thesis
      using inv kept same cur False by (cases p) (auto simp: attained_def)
  qed
next
  case False
  have "current (machine s') = current (machine (this \<sigma>))"
    by (rule answered_current [OF J cinv t res])
  with False show ?thesis by (cases p) (auto simp: attained_def)
qed

lemma attained_step:
  assumes step: "sys_step J cls e \<sigma> = Some \<sigma>'" and J: "jsm_documented J"
    and cinv: "control_inv cls \<sigma>" and inv: "attained t hav src waiting \<sigma>"
    and src: "src \<in> set (code_of cls (ByUser t))"
  shows "attained t hav src waiting \<sigma>'"
  using step J
proof (cases rule: sys_step_cases)
  case (called u m)
  show ?thesis
    unfolding called(3)
    by (rule attained_fired [OF J cinv inv src called(2)]) (simp_all add: hav_machine)
next
  case (answered k r org c "is" pre suf y)
  then show ?thesis by (cases y) (auto intro: attained_answered [OF J cinv inv])
next
  case (refreshed h m)
  show ?thesis
    unfolding refreshed(4)
    by (rule attained_fired [OF J cinv inv src refreshed(3)]) (simp_all add: hav_machine hav_armed)
next
  case (requeued h)
  have "hav (this \<sigma>) \<Longrightarrow> hav (queueRefreshTask ((this \<sigma>)\<lparr>armed := removeAll h (armed (this \<sigma>))\<rparr>))"
    using keep_sync [of "(this \<sigma>)\<lparr>armed := removeAll h (armed (this \<sigma>))\<rparr>" QueueRefresh] tail_code
    by (simp add: hav_armed)
  then show ?thesis
    using requeued inv by (auto simp: attained_def queueRefreshTask_def)
qed (use inv in simp)

lemma attained_reachable:
  assumes "reachable_if guard J cls \<sigma>" and "jsm_documented J" and "src \<in> set (code_of cls (ByUser t))"
  shows "attained t hav src waiting \<sigma>"
  using assms
proof (induction rule: reachable_if.induct)
  case init
  then show ?case by (simp add: attained_def new_sys_def)
next
  case (step \<sigma> e \<sigma>')
  then show ?case using attained_step reachable_control_inv by blast
qed

text \<open>What a caller sees: the latest call has resolved and the client is idle in that state.\<close>

lemma attained_idle:
  assumes "reachable_if guard J cls \<sigma>" and J: "jsm_documented J" and "src \<in> set (code_of cls (ByUser t))"
    and "current (machine (this \<sigma>)) = target t"
    and "map_of (outcomes \<sigma>) (ByUser t) = Some (Inr ())"
    and "\<forall>c is. (ByUser t, c, is) \<notin> set (tasks \<sigma>)"
  shows "hav (this \<sigma>)"
  using attained_reachable [OF assms(1-3)] assms(4-6) by (simp add: attained_def)

end

section \<open>The conditions of the client classes\<close>

lemmas handler_code_defs =
  transition_code_def refresh_callback_def csds_onStart_def csds_onRefresh_def csds_onStop_def
  le_onStart_def le_onRefresh_def le_onStop_def transport_onStart_def transport_onStop_def
  ums_onStart_def ums_onStop_def

lemmas statement_defs =
  queueRefreshTask_def clearRefreshTask_def onError_def onMessage_def checkStarted_def
  removeUmsListeners_def

lemma state_during_STARTED: "state_during org = STARTED \<longleftrightarrow> org \<noteq> ByUser STOP"
  by (cases org rule: state_during.cases) auto

lemma state_during_STOPPED: "state_during org = STOPPED \<longleftrightarrow> org = ByUser STOP"
  by (cases org rule: state_during.cases) auto

lemma started_code_keeps:
  assumes "org \<noteq> ByUser STOP"
  shows "DeleteDomains \<notin> set (code_of cls org)" "DeleteSession \<notin> set (code_of cls org)"
    "ClearRefresh \<notin> set (code_of cls org)"
  using assms by (cases org rule: state_during.cases; cases cls; simp add: handler_code_defs)+

lemma stop_code_keeps:
  "Resolve \<notin> set (code_of cls (ByUser STOP))" "Login \<notin> set (code_of cls (ByUser STOP))"
  "QueueRefresh \<notin> set (code_of cls (ByUser STOP))"
  by (cases cls; simp add: handler_code_defs)+

lemma code_point_instr:
  "code_point code c is \<Longrightarrow> \<not> is_unwind c \<Longrightarrow> \<exists>i \<in> set code. waits i c"
  by (auto simp: code_point_def)

lemma waits_call:
  "waits i C_resolve \<longleftrightarrow> i = Resolve" "waits i C_login \<longleftrightarrow> i = Login"
  by (cases i; simp)+

text \<open>A started client has its domains, and (but for the base class) its session.\<close>

interpretation domains_up: attainment "\<lambda>s. csdsDomains s \<noteq> None" Resolve "\<lambda>c. c = C_resolve"
    "\<lambda>i. i = DeleteDomains" "\<lambda>c. False" START
proof unfold_locales
  show "csdsDomains (fst (exec_instr J i s)) \<noteq> None"
    if "csdsDomains s \<noteq> None" "i \<noteq> DeleteDomains" for s :: "('s, 'n) client" and i J
    using that by (cases i) (auto simp: statement_defs)
  show "csdsDomains s' \<noteq> None" if "csdsDomains s \<noteq> None" "answer J c r s = Some (s', out)"
    for s s' :: "('s, 'n) client" and J c r out
    using that by (cases c; cases r) auto
qed (auto split: reply.splits simp: state_during_STARTED started_code_keeps)

interpretation session_up: attainment "\<lambda>s. leSession s \<noteq> None" Login "\<lambda>c. c = C_login"
    "\<lambda>i. i = DeleteSession" "\<lambda>c. False" START
proof unfold_locales
  show "leSession (fst (exec_instr J i s)) \<noteq> None"
    if "leSession s \<noteq> None" "i \<noteq> DeleteSession" for s :: "('s, 'n) client" and i J
    using that by (cases i) (auto simp: statement_defs)
  show "leSession s' \<noteq> None" if "leSession s \<noteq> None" "answer J c r s = Some (s', out)"
    for s s' :: "('s, 'n) client" and J c r out
    using that by (cases c; cases r) auto
qed (auto split: reply.splits simp: state_during_STARTED started_code_keeps)

text \<open>A stopped client has neither.\<close>

interpretation domains_gone: attainment "\<lambda>s. csdsDomains s = None" DeleteDomains "\<lambda>c. False"
    "\<lambda>i. False" "\<lambda>c. c = C_resolve" STOP
proof unfold_locales
  show "csdsDomains (fst (exec_instr J i s)) = None"
    if "csdsDomains s = None" for s :: "('s, 'n) client" and i J
    using that by (cases i) (auto simp: statement_defs)
  show "csdsDomains s' = None"
    if "csdsDomains s = None" "c \<noteq> C_resolve" "answer J c r s = Some (s', out)"
    for s s' :: "('s, 'n) client" and J c r out
    using that by (cases c; cases r) auto
  show "c \<noteq> C_resolve" if "state_during org = target STOP" "code_point (code_of cls org) c is"
    for org cls "is" and c :: "'s call"
    using that code_point_instr [of "code_of cls org" c "is"] stop_code_keeps(1) [of cls]
    by (auto simp: state_during_STOPPED waits_call simp del: code_of.simps)
qed (auto split: reply.splits)

interpretation session_gone: attainment "\<lambda>s. leSession s = None" DeleteSession "\<lambda>c. False"
    "\<lambda>i. False" "\<lambda>c. c = C_login" STOP
proof unfold_locales
  show "leSession (fst (exec_instr J i s)) = None"
    if "leSession s = None" for s :: "('s, 'n) client" and i J
    using that by (cases i) (auto simp: statement_defs)
  show "leSession s' = None"
    if "leSession s = None" "c \<noteq> C_login" "answer J c r s = Some (s', out)"
    for s s' :: "('s, 'n) client" and J c r out
    using that by (cases c; cases r) auto
  show "c \<noteq> C_login" if "state_during org = target STOP" "code_point (code_of cls org) c is"
    for org cls "is" and c :: "'s call"
    using that code_point_instr [of "code_of cls org" c "is"] stop_code_keeps(2) [of cls]
    by (auto simp: state_during_STOPPED waits_call simp del: code_of.simps)
qed (auto split: reply.splits)

text \<open>The statements are in the handlers.\<close>

lemma attaining_code:
  "Resolve \<in> set (code_of cls (ByUser START))"
  "cls \<noteq> CsdsClient \<Longrightarrow> Login \<in> set (code_of cls (ByUser START))"
  "DeleteDomains \<in> set (code_of cls (ByUser STOP))"
  "cls \<noteq> CsdsClient \<Longrightarrow> DeleteSession \<in> set (code_of cls (ByUser STOP))"
  by (cases cls; simp add: handler_code_defs)+

end
