(* ===== verification/Client_Timers.thy ===== *)
theory Client_Timers
  imports Client_Data
begin

text \<open>
  The periodic refresh: the timer a start arms, and the callback that arms the next one. Two facts
  about it: a started client keeps refreshing unless a periodic refresh fails, and, as long as no
  \<open>stop()\<close> gets between the end of a periodic refresh and its re-queueing, there is never more than
  one timer and none is left behind by a stop.
\<close>

section \<open>The chain of timers\<close>

definition chain_alive :: "('s, 'n) sys \<Rightarrow> bool" where
  "chain_alive \<sigma> \<longleftrightarrow>
     armed (this \<sigma>) \<noteq> [] \<or> (\<exists>c is. (ByTimer, c, is) \<in> set (tasks \<sigma>) \<and> QueueRefresh \<in> set is)"

text \<open>A periodic refresh has failed, or is just failing.\<close>

definition timer_failed :: "('s, 'n) sys \<Rightarrow> bool" where
  "timer_failed \<sigma> \<longleftrightarrow>
     (\<exists>e. (ByTimer, Inl e) \<in> set (outcomes \<sigma>)) \<or>
     (\<exists>c is. (ByTimer, c, is) \<in> set (tasks \<sigma>) \<and> is_unwind c)"

definition start_will_queue :: "('s, 'n) sys \<Rightarrow> bool" where
  "start_will_queue \<sigma> \<longleftrightarrow>
     (\<exists>c is. (ByUser START, c, is) \<in> set (tasks \<sigma>) \<and> (QueueRefresh \<in> set is \<or> is_unwind c))"

definition start_not_resolved :: "('s, 'n) sys \<Rightarrow> bool" where
  "start_not_resolved \<sigma> \<longleftrightarrow>
     (\<forall>c is. (ByUser START, c, is) \<notin> set (tasks \<sigma>)) \<and>
     map_of (outcomes \<sigma>) (ByUser START) \<noteq> Some (Inr ())"

definition chain_inv :: "('s, 'n) sys \<Rightarrow> bool" where
  "chain_inv \<sigma> \<longleftrightarrow>
     (current (machine (this \<sigma>)) = STARTED \<longrightarrow>
        chain_alive \<sigma> \<or> timer_failed \<sigma> \<or> start_will_queue \<sigma> \<or> start_not_resolved \<sigma>)"

lemmas chain_defs = chain_alive_def timer_failed_def start_will_queue_def start_not_resolved_def

interpretation timer_armed: resource "\<lambda>s. armed s \<noteq> []" QueueRefresh "\<lambda>c. False"
    "\<lambda>i. i = ClearRefresh" "\<lambda>c. False"
proof unfold_locales
  show "armed (fst (exec_instr J i s)) \<noteq> []"
    if "armed s \<noteq> []" "i \<noteq> ClearRefresh" for s :: "('s, 'n) client" and i J
    using that by (cases i) (auto simp: statement_defs)
  show "armed s' \<noteq> []" if "armed s \<noteq> []" "answer J c r s = Some (s', out)"
    for s s' :: "('s, 'n) client" and J c r out
    using that by (cases c; cases r) auto
qed (auto simp: queueRefreshTask_def)

lemma chain_code: "QueueRefresh \<in> set (code_of cls ByTimer)" "QueueRefresh \<in> set (code_of cls (ByUser START))"
  by (cases cls; simp add: handler_code_defs)+

text \<open>A new start is suspended at its first statement, with the re-queueing still to come.\<close>

lemma onRefresh_first: "\<exists>rest. onRefresh_of cls = Resolve # rest \<and> QueueRefresh \<notin> set rest"
  by (cases cls) (simp_all add: handler_code_defs)

lemma onStart_first:
  "\<exists>rest. code_of cls (ByUser START) = Resolve # rest \<and> count_list rest QueueRefresh = 1"
  by (cases cls) (simp_all add: handler_code_defs)

lemma run_Resolve: "run J (Resolve # rest) s = (s, Blocked C_resolve rest)"
  by simp

lemma chain_fired:
  assumes J: "jsm_documented J" and cinv: "control_inv cls \<sigma>" and inv: "chain_inv \<sigma>"
    and fire: "jsm_fire J transitions (machine (this \<sigma>)) u = Inr m"
    and s: "machine s = m" and armed: "armed s = armed (this \<sigma>)"
  shows "chain_inv (put_progress (ByUser u) (tasks \<sigma>) [] (outcomes \<sigma>) (run J (code_of cls (ByUser u)) s))"
proof -
  obtain s' p where run: "run J (code_of cls (ByUser u)) s = (s', p)" by fastforce
  note m = jsm_fire_Inr [OF J fire]
  have none: "(ByUser w, c, is) \<notin> set (tasks \<sigma>)" for w c "is"
    using no_user_task_when_idle [OF cinv] m by blast
  show ?thesis
  proof (cases u)
    case START
    obtain rest where "code_of cls (ByUser START) = Resolve # rest" "count_list rest QueueRefresh = 1"
      using onStart_first by blast
    moreover from this(2) have "QueueRefresh \<in> set rest" by (metis count_list_0_iff zero_neq_one)
    ultimately show ?thesis
      using START by (auto simp: chain_inv_def start_will_queue_def simp del: code_of.simps)
  next
    case STOP
    have "current (machine s') = STOPPED"
      using run_machine [OF J run] code_Settle [of cls "ByUser u"] s m STOP by auto
    then show ?thesis using run by (cases p) (auto simp: chain_inv_def simp del: code_of.simps)
  next
    case REFRESH
    obtain rest where code: "code_of cls (ByUser REFRESH) = Resolve # rest"
      using onRefresh_first [of cls] by (auto simp: transition_code_def)
    then have "s' = s" "p = Blocked C_resolve rest"
      using run REFRESH by (simp_all del: code_of.simps)
    then show ?thesis
      using run inv none m armed REFRESH
      by (auto simp: chain_inv_def chain_defs simp del: code_of.simps)
  qed
qed

lemma chain_timer_code:
  assumes "secured (\<lambda>s. armed s \<noteq> []) QueueRefresh (\<lambda>c. False) (s', p)"
  shows "chain_alive (put_progress ByTimer pre suf outs (s', p)) \<or>
    timer_failed (put_progress ByTimer pre suf outs (s', p))"
  using assms by (cases p) (auto simp: secured_def chain_defs)

lemma outcomes_put_progress: "set outs \<subseteq> set (outcomes (put_progress org pre suf outs y))"
  by (cases y; cases "snd y") auto

lemma chain_answered:
  assumes J: "jsm_documented J" and cinv: "control_inv cls \<sigma>" and inv: "chain_inv \<sigma>"
    and t: "tasks \<sigma> = pre @ (org, c, is) # suf"
    and res: "resume J c r is (this \<sigma>) = Some (s', p)"
  shows "chain_inv (put_progress org pre suf (outcomes \<sigma>) (s', p))"
proof (cases "current (machine (this \<sigma>)) = STARTED")
  case cur: True
  have mem: "(org, c, is) \<in> set (tasks \<sigma>)" using t by simp
  note cp = control_inv_task(1) [OF cinv mem]
  have "org \<noteq> ByUser STOP"
    using control_inv_task(2) [OF cinv mem] user_code_holding [of cls STOP c "is"] cp cur by auto
  then have harmless: "\<forall>i \<in> set is. i \<noteq> ClearRefresh"
    using started_code_keeps(3) [of org cls] cp by (auto simp: code_point_def simp del: code_of.simps)
  have kept: "armed (this \<sigma>) \<noteq> [] \<Longrightarrow> armed s' \<noteq> []"
    using timer_armed.resume_keeps [OF res] harmless by simp
  have sec: "secured (\<lambda>s. armed s \<noteq> []) QueueRefresh (\<lambda>c. False) (s', p)"
    if "armed (this \<sigma>) \<noteq> [] \<or> QueueRefresh \<in> set is"
    using timer_armed.resume_secured [OF res] that harmless by simp
  have unwound: "\<exists>e. p = Crashed e" if "is_unwind c"
    by (rule resume_unwound [OF res that cp])
  consider (alive) "armed (this \<sigma>) \<noteq> []"
    | (other) c' is' where "(ByTimer, c', is') \<in> set (pre @ suf)" "QueueRefresh \<in> set is' \<or> is_unwind c'"
    | (past) e where "(ByTimer, Inl e) \<in> set (outcomes \<sigma>)"
    | (mine) "org = ByTimer" "QueueRefresh \<in> set is \<or> is_unwind c"
    | (start) "org = ByUser START" "QueueRefresh \<in> set is \<or> is_unwind c"
    | (starts) c' is' where "(ByUser START, c', is') \<in> set (pre @ suf)" "QueueRefresh \<in> set is' \<or> is_unwind c'"
    | (none) "start_not_resolved \<sigma>"
    using inv cur t unfolding chain_inv_def chain_alive_def timer_failed_def start_will_queue_def
    by simp blast
  then show ?thesis
  proof cases
    case alive
    with kept show ?thesis by (cases p) (auto simp: chain_inv_def chain_alive_def)
  next
    case other
    then show ?thesis by (cases p) (auto simp: chain_inv_def chain_alive_def timer_failed_def)
  next
    case past
    then show ?thesis by (cases p) (auto simp: chain_inv_def timer_failed_def)
  next
    case mine
    have "secured (\<lambda>s. armed s \<noteq> []) QueueRefresh (\<lambda>c. False) (s', p)"
    proof (cases "is_unwind c")
      case True
      then obtain e where "p = Crashed e" using unwound by blast
      then show ?thesis by (simp add: secured_def)
    qed (use mine sec in blast)
    with mine chain_timer_code [of s' p pre suf "outcomes \<sigma>"] show ?thesis
      unfolding chain_inv_def by blast
  next
    case start
    show ?thesis
    proof (cases "is_unwind c")
      case True
      then have "holding c is" by (simp add: holding_def)
      from control_inv_unique [OF cinv t this]
      have others: "(ByUser START, c', is') \<notin> set (pre @ suf)" for c' is'
        using user_code_holding control_inv_task(1) [OF cinv, of "ByUser START" c' is'] t by fastforce
      with unwound [OF True] start show ?thesis
        by (auto simp: chain_inv_def start_not_resolved_def)
    next
      case False
      then have "secured (\<lambda>s. armed s \<noteq> []) QueueRefresh (\<lambda>c. False) (s', p)" using sec start by blast
      moreover have "(ByUser START, c', is') \<notin> set (pre @ suf)" for c' is'
      proof -
        have "holding c is" using user_code_holding [of cls START c "is"] cp start by simp
        from control_inv_unique [OF cinv t this] show ?thesis
          using user_code_holding control_inv_task(1) [OF cinv, of "ByUser START" c' is'] t by fastforce
      qed
      ultimately show ?thesis
        using start by (cases p) (auto simp: chain_inv_def chain_defs secured_def)
    qed
  next
    case starts
    then show ?thesis by (cases p) (auto simp: chain_inv_def start_will_queue_def)
  next
    case none
    then show ?thesis using t by (cases p) (auto simp: chain_inv_def start_not_resolved_def)
  qed
next
  case False
  have "current (machine s') = current (machine (this \<sigma>))"
    by (rule answered_current [OF J cinv t res])
  with False show ?thesis by (cases p) (auto simp: chain_inv_def)
qed

lemma chain_inv_step:
  assumes step: "sys_step J cls e \<sigma> = Some \<sigma>'" and J: "jsm_documented J"
    and cinv: "control_inv cls \<sigma>" and inv: "chain_inv \<sigma>"
  shows "chain_inv \<sigma>'"
  using step J
proof (cases rule: sys_step_cases)
  case (called u m)
  show ?thesis
    unfolding called(3) by (rule chain_fired [OF J cinv inv called(2)]) simp_all
next
  case (answered k r org c "is" pre suf y)
  then show ?thesis by (cases y) (auto intro: chain_answered [OF J cinv inv])
next
  case (refreshed h m)
  let ?s = "(this \<sigma>)\<lparr>armed := removeAll h (armed (this \<sigma>)), machine := m\<rparr>"
  have "secured (\<lambda>s. armed s \<noteq> []) QueueRefresh (\<lambda>c. False) (run J (code_of cls ByTimer) ?s)"
    using timer_armed.run_secured [of ?s "code_of cls ByTimer" J] chain_code(1)
      started_code_keeps(3) [of ByTimer cls] by blast
  then show ?thesis
    unfolding refreshed(4) chain_inv_def
    using chain_timer_code by (metis prod.collapse)
next
  case (requeued h)
  then show ?thesis by (auto simp: chain_inv_def chain_alive_def queueRefreshTask_def)
qed (use inv in simp)

lemma reachable_chain_inv:
  "reachable_if guard J cls \<sigma> \<Longrightarrow> jsm_documented J \<Longrightarrow> chain_inv \<sigma>"
proof (induction rule: reachable_if.induct)
  case init
  show ?case by (simp add: chain_inv_def new_sys_def new_client_def)
next
  case (step \<sigma> e \<sigma>')
  then show ?case using chain_inv_step reachable_control_inv by blast
qed

section \<open>One timer at a time\<close>

text \<open>
  No \<open>stop()\<close> between the end of a periodic refresh and its re-queueing. (During the refresh
  itself the state machine refuses a stop anyway.)
\<close>

definition quiet_stop :: "'s event \<Rightarrow> ('s, 'n) sys \<Rightarrow> bool" where
  "quiet_stop e \<sigma> \<longleftrightarrow> (e = Call STOP \<longrightarrow> (\<forall>t \<in> set (tasks \<sigma>). fst t \<noteq> ByTimer))"

definition timer_tasks :: "('s, 'n) sys \<Rightarrow> nat" where
  "timer_tasks \<sigma> = length (filter (\<lambda>t. fst t = ByTimer) (tasks \<sigma>))"

definition single_timer :: "('s, 'n) sys \<Rightarrow> bool" where
  "single_timer \<sigma> \<longleftrightarrow>
     length (armed (this \<sigma>)) + timer_tasks \<sigma> \<le> 1 \<and>
     (armed (this \<sigma>) \<noteq> [] \<longrightarrow> refreshTask (this \<sigma>) = Some (hd (armed (this \<sigma>)))) \<and>
     (current (machine (this \<sigma>)) = STOPPED \<longrightarrow> armed (this \<sigma>) = [] \<and> timer_tasks \<sigma> = 0) \<and>
     (\<forall>c is. (ByUser START, c, is) \<in> set (tasks \<sigma>) \<longrightarrow> QueueRefresh \<in> set is \<longrightarrow>
        armed (this \<sigma>) = [] \<and> timer_tasks \<sigma> = 0)"

definition same_timers :: "('s, 'n) client \<Rightarrow> ('s, 'n) client \<Rightarrow> bool" where
  "same_timers s s' \<longleftrightarrow> armed s' = armed s \<and> refreshTask s' = refreshTask s"

lemma same_timers_simps [simp]:
  "same_timers s s"
  "same_timers s (s\<lparr>machine := m\<rparr>)"
  by (simp_all add: same_timers_def)

lemma exec_instr_timers:
  "i \<noteq> QueueRefresh \<Longrightarrow> i \<noteq> ClearRefresh \<Longrightarrow> same_timers s (fst (exec_instr J i s))"
  by (cases i) (auto simp: same_timers_def statement_defs)

lemma answer_timers: "answer J c r s = Some (s', out) \<Longrightarrow> same_timers s s'"
  by (cases c; cases r) (auto simp: same_timers_def)

text \<open>Code that runs either leaves the timers alone or passes the one statement that arms one.\<close>

lemma run_timers:
  assumes "run J is s = (s', p)" and "ClearRefresh \<notin> set is"
  shows "same_timers s s' \<and> (QueueRefresh \<in> set is \<longrightarrow> p \<noteq> Finished) \<or>
    (\<exists>xs ys s1. is = xs @ QueueRefresh # ys \<and> same_timers s s1 \<and> run J ys (queueRefreshTask s1) = (s', p))"
  using assms
proof (induction J "is" s arbitrary: s' p rule: run.induct)
  case (1 J s)
  then show ?case by simp
next
  case (2 J i "is" s)
  obtain s1 out where e: "exec_instr J i s = (s1, out)" by fastforce
  show ?case
  proof (cases "i = QueueRefresh")
    case True
    with "2.prems" show ?thesis
      by (intro disjI2 exI [of _ "[]"] exI [of _ "is"] exI [of _ s]) auto
  next
    case False
    have st: "same_timers s s1"
      using exec_instr_timers [of i s J] False "2.prems"(2) e by auto
    show ?thesis
    proof (cases out)
      case Continue
      then have "run J is s1 = (s', p)" using "2.prems"(1) e by simp
      from "2.IH" [OF e [symmetric] Continue this] "2.prems"(2)
      consider "same_timers s1 s'" "QueueRefresh \<in> set is \<longrightarrow> p \<noteq> Finished"
        | xs ys s2 where "is = xs @ QueueRefresh # ys" "same_timers s1 s2" "run J ys (queueRefreshTask s2) = (s', p)"
        by auto
      then show ?thesis
      proof cases
        case 1
        with st False show ?thesis by (auto simp: same_timers_def)
      next
        case 2
        with st show ?thesis
          by (intro disjI2 exI [of _ "i # xs"] exI [of _ ys] exI [of _ s2]) (auto simp: same_timers_def)
      qed
    next
      case (Wait c)
      with "2.prems" e st show ?thesis by auto
    next
      case (Raise x)
      have "abort x is \<noteq> Finished" by (simp add: abort_def)
      with Raise "2.prems" e st show ?thesis by auto
    qed
  qed
qed

lemma run_timers_same:
  assumes "run J is s = (s', p)" and "ClearRefresh \<notin> set is" and "QueueRefresh \<notin> set is"
  shows "same_timers s s'"
  using run_timers [OF assms(1,2)] assms(3) by auto

lemma resume_timers:
  assumes "resume J c r is s = Some (s', p)" and "ClearRefresh \<notin> set is"
  shows "same_timers s s' \<or>
    (\<exists>xs ys s1. is = xs @ QueueRefresh # ys \<and> same_timers s s1 \<and> run J ys (queueRefreshTask s1) = (s', p))"
proof -
  obtain s1 out where a: "answer J c r s = Some (s1, out)"
    using assms(1) by (auto simp: resume_def split: option.splits)
  note st = answer_timers [OF a]
  show ?thesis
  proof (cases out)
    case Continue
    with a assms(1) have "run J is s1 = (s', p)" by (simp add: resume_def)
    from run_timers [OF this assms(2)] st show ?thesis
      by (auto simp: same_timers_def)
  qed (use a assms(1) st in \<open>auto simp: resume_def\<close>)
qed

lemma queue_counts:
  "org \<noteq> ByUser STOP \<Longrightarrow> count_list (code_of cls org) QueueRefresh \<le> 1"
  "\<exists>rest. code_of cls (ByUser STOP) = ClearRefresh # DeleteDomains # rest \<and>
     ClearRefresh \<notin> set rest \<and> QueueRefresh \<notin> set rest"
  by (cases org rule: state_during.cases; cases cls; simp add: handler_code_defs)
    (cases cls; simp add: handler_code_defs)

lemma user_refresh_code: "QueueRefresh \<notin> set (code_of cls (ByUser REFRESH))"
  by (cases cls; simp add: handler_code_defs)

lemma code_point_rest: "code_point code c is \<Longrightarrow> set is \<subseteq> set code"
  by (auto simp: code_point_def)

lemma code_point_count: "code_point code c is \<Longrightarrow> count_list is x \<le> count_list code x"
  by (auto simp: code_point_def)

lemma stop_code_point:
  assumes "code_point (code_of cls (ByUser STOP)) c is"
  shows "ClearRefresh \<notin> set is" "QueueRefresh \<notin> set is"
proof -
  obtain rest where code: "code_of cls (ByUser STOP) = ClearRefresh # DeleteDomains # rest"
    and no: "ClearRefresh \<notin> set rest" "QueueRefresh \<notin> set rest"
    using queue_counts(2) by blast
  have "set is \<subseteq> set rest"
    using assms unfolding code code_point_def
    by (auto simp: Cons_eq_append_conv)
  with no show "ClearRefresh \<notin> set is" "QueueRefresh \<notin> set is" by auto
qed

text \<open>Re-queueing is the last thing the timer's callback does.\<close>

lemma timer_code_last:
  assumes "code_point (code_of cls ByTimer) c is" and "is = xs @ QueueRefresh # ys"
  shows "ys = []"
proof (rule ccontr)
  assume "ys \<noteq> []"
  obtain pre i where code: "code_of cls ByTimer = pre @ i # is"
    using assms by (auto simp: code_point_def)
  have "last (code_of cls ByTimer) = QueueRefresh" by (simp add: refresh_callback_def)
  with code assms(2) \<open>ys \<noteq> []\<close> have "last ys = QueueRefresh" by simp
  then have "QueueRefresh \<in> set ys" using \<open>ys \<noteq> []\<close> last_in_set by metis
  then have "count_list ys QueueRefresh \<noteq> 0" by (simp add: count_list_0_iff)
  moreover have "count_list (code_of cls ByTimer) QueueRefresh \<le> 1"
    using queue_counts(1) [of ByTimer cls] by simp
  ultimately show False using code assms(2) by (simp split: if_splits)
qed

lemma single_timer_fired:
  assumes J: "jsm_documented J" and cinv: "control_inv cls \<sigma>" and inv: "single_timer \<sigma>"
    and fire: "jsm_fire J transitions (machine (this \<sigma>)) u = Inr m"
    and quiet: "quiet_stop (Call u) \<sigma>"
  shows "single_timer (put_progress (ByUser u) (tasks \<sigma>) [] (outcomes \<sigma>)
    (run J (code_of cls (ByUser u)) ((this \<sigma>)\<lparr>machine := m\<rparr>)))"
proof -
  let ?s = "(this \<sigma>)\<lparr>machine := m\<rparr>"
  obtain s' p where run: "run J (code_of cls (ByUser u)) ?s = (s', p)" by fastforce
  note m = jsm_fire_Inr [OF J fire]
  have none: "(ByUser w, c, is) \<notin> set (tasks \<sigma>)" for w c "is"
    using no_user_task_when_idle [OF cinv] m by blast
  show ?thesis
  proof (cases u)
    case START
    obtain rest where "code_of cls (ByUser START) = Resolve # rest"
      using onStart_first by blast
    then have "s' = ?s" "p = Blocked C_resolve rest"
      using run START by (simp_all del: code_of.simps)
    then show ?thesis
      using run inv none m START
      by (auto simp: single_timer_def timer_tasks_def simp del: code_of.simps)
  next
    case STOP
    obtain rest where code: "code_of cls (ByUser STOP) = ClearRefresh # DeleteDomains # rest"
      and no: "ClearRefresh \<notin> set rest" "QueueRefresh \<notin> set rest"
      using queue_counts(2) by blast
    let ?c = "(clearRefreshTask ?s)\<lparr>csdsDomains := None\<rparr>"
    have "run J rest ?c = (s', p)" using run code STOP by simp
    then have "same_timers ?c s'" using run_timers_same no by blast
    moreover have "armed (this \<sigma>) = [] \<or> (\<exists>h. armed (this \<sigma>) = [h] \<and> refreshTask (this \<sigma>) = Some h)"
      using inv by (cases "armed (this \<sigma>)") (auto simp: single_timer_def)
    ultimately have "armed s' = []"
      by (auto simp: same_timers_def clearRefreshTask_def split: option.splits)
    moreover have "\<forall>t \<in> set (tasks \<sigma>). fst t \<noteq> ByTimer" using quiet STOP by (simp add: quiet_stop_def)
    ultimately show ?thesis
      using run none STOP
      by (cases p) (auto simp: single_timer_def timer_tasks_def filter_empty_conv simp del: code_of.simps)
  next
    case REFRESH
    obtain rest where "code_of cls (ByUser REFRESH) = Resolve # rest"
      using onRefresh_first [of cls] by (auto simp: transition_code_def)
    then have "s' = ?s" "p = Blocked C_resolve rest"
      using run REFRESH by (simp_all del: code_of.simps)
    then show ?thesis
      using run inv none m REFRESH
      by (auto simp: single_timer_def timer_tasks_def simp del: code_of.simps)
  qed
qed

lemma timer_tasks_split:
  "timer_tasks \<lparr>this = s, tasks = pre @ t # suf, outcomes = outs\<rparr> =
     timer_tasks \<lparr>this = s', tasks = pre @ suf, outcomes = outs'\<rparr> + (if fst t = ByTimer then 1 else 0)"
  by (simp add: timer_tasks_def)

lemma single_timer_answered:
  assumes J: "jsm_documented J" and cinv: "control_inv cls \<sigma>" and inv: "single_timer \<sigma>"
    and t: "tasks \<sigma> = pre @ (org, c, is) # suf"
    and res: "resume J c r is (this \<sigma>) = Some (s', p)"
  shows "single_timer (put_progress org pre suf (outcomes \<sigma>) (s', p))"
proof -
  have mem: "(org, c, is) \<in> set (tasks \<sigma>)" using t by simp
  note cp = control_inv_task(1) [OF cinv mem]
  note cur = answered_current [OF J cinv t res]
  have noClear: "ClearRefresh \<notin> set is"
  proof (cases "org = ByUser STOP")
    case True
    then show ?thesis using stop_code_point(1) cp by blast
  next
    case False
    then show ?thesis using started_code_keeps(3) code_point_rest [OF cp] by blast
  qed
  let ?T = "length (filter (\<lambda>t. fst t = ByTimer) pre) + length (filter (\<lambda>t. fst t = ByTimer) suf)"
  have T: "timer_tasks \<sigma> = ?T + (if org = ByTimer then 1 else 0)"
    using t by (simp add: timer_tasks_def)
  have rest': "set is' \<subseteq> set is" if "p = Blocked c' is'" for c' is'
    using resume_rest [of J c r "is" "this \<sigma>" s' c' is'] res that by simp
  from resume_timers [OF res noClear] show ?thesis
  proof
    assume "same_timers (this \<sigma>) s'"
    then show ?thesis
      using inv T cur t rest'
      by (cases p) (auto simp: single_timer_def timer_tasks_def same_timers_def)
  next
    assume "\<exists>xs ys s1. is = xs @ QueueRefresh # ys \<and> same_timers (this \<sigma>) s1 \<and>
      run J ys (queueRefreshTask s1) = (s', p)"
    then obtain xs ys s1 where code: "is = xs @ QueueRefresh # ys"
      and st: "same_timers (this \<sigma>) s1" and run: "run J ys (queueRefreshTask s1) = (s', p)" by blast
    have notstop: "org \<noteq> ByUser STOP" using stop_code_point(2) [of cls c "is"] cp code by auto
    have notref: "org \<noteq> ByUser REFRESH"
      using user_refresh_code [of cls] code_point_rest [OF cp] code by auto
    have "count_list is QueueRefresh \<le> 1"
      using code_point_count [OF cp] queue_counts(1) [OF notstop] le_trans by blast
    then have noQ: "QueueRefresh \<notin> set ys" using code by (simp add: count_list_0_iff)
    have "same_timers (queueRefreshTask s1) s'"
      using run_timers_same [OF run] noQ noClear code by simp
    then have new: "armed s' = armed (this \<sigma>) @ [next_timer s1]" "refreshTask s' = Some (next_timer s1)"
      using st by (simp_all add: same_timers_def queueRefreshTask_def)
    have later: "QueueRefresh \<notin> set is'" if "p = Blocked c' is'" for c' is'
      using run_code_point [of J ys "queueRefreshTask s1" s' c' is'] run that noQ code_point_rest by blast
    have idle: "armed (this \<sigma>) = [] \<and> ?T = 0"
    proof (cases "org = ByTimer")
      case True
      then show ?thesis using inv T by (auto simp: single_timer_def)
    next
      case False
      then have "org = ByUser START" using notstop notref by (cases org rule: state_during.cases) auto
      then have "armed (this \<sigma>) = [] \<and> timer_tasks \<sigma> = 0"
        using inv mem code unfolding single_timer_def by auto
      then show ?thesis using T by simp
    qed
    have started: "current (machine (this \<sigma>)) = STARTED"
    proof (cases "org = ByTimer")
      case True
      then show ?thesis using inv T by (cases "current (machine (this \<sigma>))") (auto simp: single_timer_def)
    next
      case False
      then have "holding c is" using user_code_holding cp by (cases org) blast+
      then show ?thesis
        using control_inv_task(2) [OF cinv mem] notstop
        by (cases org rule: state_during.cases) auto
    qed
    have others: "\<not> (QueueRefresh \<in> set is' \<and> (ByUser START, c', is') \<in> set (pre @ suf))" for c' is'
    proof
      assume a: "QueueRefresh \<in> set is' \<and> (ByUser START, c', is') \<in> set (pre @ suf)"
      then have mem': "(ByUser START, c', is') \<in> set (tasks \<sigma>)" using t by auto
      with inv a have "timer_tasks \<sigma> = 0" by (auto simp: single_timer_def)
      then have "org = ByUser START"
        using T notstop notref by (cases org rule: state_during.cases) auto
      then have "holding c is" using user_code_holding cp by blast
      from control_inv_unique [OF cinv t this] a
      show False using user_code_holding [OF control_inv_task(1) [OF cinv mem']] by fastforce
    qed
    have tail: "p = Finished" if "org = ByTimer"
      using timer_code_last [of cls c "is" xs ys] cp that code run by simp
    show ?thesis
      using idle new later started cur others tail
      by (cases p) (auto simp: single_timer_def timer_tasks_def)
  qed
qed

lemma single_timer_step:
  assumes step: "sys_step J cls e \<sigma> = Some \<sigma>'" and J: "jsm_documented J"
    and cinv: "control_inv cls \<sigma>" and inv: "single_timer \<sigma>" and quiet: "quiet_stop e \<sigma>"
  shows "single_timer \<sigma>'"
  using step J
proof (cases rule: sys_step_cases)
  case (called u m)
  show ?thesis
    unfolding called(3) by (rule single_timer_fired [OF J cinv inv called(2)]) (use quiet called in simp)
next
  case (answered k r org c "is" pre suf y)
  then show ?thesis by (cases y) (auto intro: single_timer_answered [OF J cinv inv])
next
  case (refreshed h m)
  obtain rest where code: "code_of cls ByTimer = Resolve # rest"
    using onRefresh_first [of cls] by (auto simp: refresh_callback_def)
  have "armed (this \<sigma>) = [h]" "timer_tasks \<sigma> = 0"
    using inv refreshed(2) by (cases "armed (this \<sigma>)"; auto simp: single_timer_def)+
  moreover have "current m = STARTED" using jsm_fire_Inr [OF J refreshed(3)] by simp
  ultimately show ?thesis
    using inv code unfolding refreshed(4)
    by (auto simp: single_timer_def timer_tasks_def simp del: code_of.simps)
next
  case (requeued h)
  have "armed (this \<sigma>) = [h]" "timer_tasks \<sigma> = 0"
    using inv requeued(2) by (cases "armed (this \<sigma>)"; auto simp: single_timer_def)+
  then show ?thesis
    using inv requeued by (auto simp: single_timer_def timer_tasks_def queueRefreshTask_def)
qed (use inv in simp)

lemma reachable_single_timer:
  "reachable_if quiet_stop J cls \<sigma> \<Longrightarrow> jsm_documented J \<Longrightarrow> single_timer \<sigma>"
proof (induction rule: reachable_if.induct)
  case init
  show ?case by (simp add: single_timer_def timer_tasks_def new_sys_def new_client_def)
next
  case (step \<sigma> e \<sigma>')
  then show ?case using single_timer_step reachable_control_inv by blast
qed

end
