(* ===== verification/Client_Lifecycle.thy ===== *)
theory Client_Lifecycle
  imports Client_Timers
begin

text \<open>
  The life cycle of the four client classes: what a caller can rely on, and the runs in which it
  goes wrong. The first part computes whole runs of the UMS client (the class with every handler);
  the second states the properties of all reachable states.
\<close>

section \<open>Whole runs\<close>

text \<open>The answers a start of the UMS client waits for when all goes well, in order.\<close>

definition start_replies :: "csds_response \<Rightarrow> 's \<Rightarrow> js_value \<Rightarrow> 's event list" where
  "start_replies d x v = map (Reply 0)
     [R_domains d, R_done, R_done, R_done, R_done, R_session x, R_done, R_service v, R_done, R_done, R_done]"

text \<open>The same for a stop with a session: the pause after the super handler, the logout, another
  pause, the transport's disconnect, and the two pauses before the transition ends.\<close>

definition stop_replies :: "'s event list" where
  "stop_replies = map (Reply 0) [R_done, R_done, R_done, R_done, R_done, R_done]"

definition idle :: "client_state \<Rightarrow> ('s, 'n) sys \<Rightarrow> bool" where
  "idle st \<sigma> \<longleftrightarrow> machine (this \<sigma>) = \<lparr>current = st, pending = False\<rparr> \<and> tasks \<sigma> = []"

lemma exec_append:
  "exec J cls (es @ es') \<sigma> = (case exec J cls es \<sigma> of None \<Rightarrow> None | Some \<sigma>' \<Rightarrow> exec J cls es' \<sigma>')"
  by (induction es arbitrary: \<sigma>) (auto split: option.splits)

lemma idle_new: "idle STOPPED new_sys"
  by (simp add: idle_def new_sys_def new_client_def)

lemmas run_simps =
  idle_def transition_method_def handler_code_defs jsm_laws resume_def statement_defs credentials_def
  started_def abort_def timer_callback_def

text \<open>The state a complete start leads to.\<close>

definition after_start :: "csds_response \<Rightarrow> 's \<Rightarrow> ('s, 'n) sys \<Rightarrow> ('s, 'n) sys" where
  "after_start d x \<sigma> =
     \<lparr>this = (this \<sigma>)\<lparr>machine := \<lparr>current = STARTED, pending = False\<rparr>, csdsDomains := Some d,
        refreshTask := Some (next_timer (this \<sigma>)), armed := armed (this \<sigma>) @ [next_timer (this \<sigma>)],
        next_timer := Suc (next_timer (this \<sigma>)), leSession := Some x,
        err_listeners := Suc (err_listeners (this \<sigma>)), msg_listeners := Suc (msg_listeners (this \<sigma>))\<rparr>,
      tasks = [], outcomes = (ByUser START, Inr ()) # outcomes \<sigma>\<rparr>"

lemma start_run:
  assumes "jsm_documented J" and "idle STOPPED \<sigma>" and "leSession (this \<sigma>) = None"
  shows "exec J UmsClient (Call START # start_replies d x v) \<sigma> = Some (after_start d x \<sigma>)"
  using assms by (simp add: start_replies_def after_start_def run_simps)

text \<open>The state a complete stop leads to.\<close>

definition after_stop :: "('s, 'n) sys \<Rightarrow> ('s, 'n) sys" where
  "after_stop \<sigma> =
     \<lparr>this = removeUmsListeners ((clearRefreshTask (this \<sigma>))\<lparr>
        machine := \<lparr>current = STOPPED, pending = False\<rparr>, csdsDomains := None, leSession := None\<rparr>),
      tasks = [], outcomes = (ByUser STOP, Inr ()) # outcomes \<sigma>\<rparr>"

lemma stop_run:
  assumes "jsm_documented J" and "idle STARTED \<sigma>" and "leSession (this \<sigma>) = Some x"
  shows "exec J UmsClient (Call STOP # stop_replies) \<sigma> = Some (after_stop \<sigma>)"
  using assms by (simp add: stop_replies_def after_stop_def run_simps split: option.splits)

lemma idle_after_start: "idle STARTED (after_start d x \<sigma>)"
  by (simp add: idle_def after_start_def)

lemma idle_after_stop: "idle STOPPED (after_stop \<sigma>)"
  by (simp add: idle_def after_stop_def removeUmsListeners_def clearRefreshTask_def)

text \<open>A start whose first request fails, for any class.\<close>

lemma failed_start_run:
  assumes "jsm_documented J" and "idle STOPPED \<sigma>"
  shows "exec J cls [Call START, Reply 0 (Rejected e), Reply 0 R_done] \<sigma> =
    Some \<lparr>this = (this \<sigma>)\<lparr>machine := \<lparr>current = STARTED, pending = False\<rparr>\<rparr>,
          tasks = [], outcomes = (ByUser START, Inl e) # outcomes \<sigma>\<rparr>"
  using assms by (cases cls) (simp_all add: run_simps)

text \<open>A periodic refresh that fails.\<close>

lemma failed_refresh_run:
  assumes "jsm_documented J" and "idle STARTED \<sigma>" and "armed (this \<sigma>) = [h]"
  shows "exec J cls [Fire h, Reply 0 (Rejected e), Reply 0 R_done] \<sigma> =
    Some \<lparr>this = (this \<sigma>)\<lparr>armed := [], machine := \<lparr>current = STARTED, pending = False\<rparr>\<rparr>,
          tasks = [], outcomes = (ByTimer, Inl e) # outcomes \<sigma>\<rparr>"
proof -
  have "jsm_can J transitions (machine (this \<sigma>)) REFRESH"
    using jsm_can_iff [OF assms(1)] jsm_fire_ok(3) [OF assms(1), of "machine (this \<sigma>)"] assms(2)
    by (simp add: idle_def)
  then show ?thesis
    using assms by (cases cls) (simp_all add: run_simps)
qed

text \<open>A stop whose logout fails.\<close>

lemma failed_logout_run:
  assumes "jsm_documented J" and "idle STARTED \<sigma>" and "leSession (this \<sigma>) = Some x"
    and "cls \<noteq> CsdsClient"
  shows "exec J cls [Call STOP, Reply 0 R_done, Reply 0 (Rejected e), Reply 0 R_done] \<sigma> =
    Some \<lparr>this = (clearRefreshTask (this \<sigma>))\<lparr>machine := \<lparr>current = STOPPED, pending = False\<rparr>, csdsDomains := None\<rparr>,
          tasks = [], outcomes = (ByUser STOP, Inl e) # outcomes \<sigma>\<rparr>"
  using assms by (cases cls) (simp_all add: run_simps split: option.splits)

section \<open>Properties\<close>

text \<open>
  C4. Transitions exclude one another: in every reachable state of a client, at most one piece of
  suspended code is inside a transition, and one is exactly when the state machine is busy; every
  method call in flight is inside its transition, in the state that transition leads to.
\<close>

theorem transitions_exclusive:
  assumes "jsm_documented J" and "reachable J cls \<sigma>"
  shows "length (filter in_transition (tasks \<sigma>)) = (if pending (machine (this \<sigma>)) then 1 else 0)
    \<and> (\<forall>t c is. (ByUser t, c, is) \<in> set (tasks \<sigma>) \<longrightarrow>
          in_transition (ByUser t, c, is) \<and> current (machine (this \<sigma>)) = target t)"
proof (intro conjI allI impI)
  have inv: "control_inv cls \<sigma>" using reachable_control_inv assms by blast
  then show "length (filter in_transition (tasks \<sigma>)) = (if pending (machine (this \<sigma>)) then 1 else 0)"
    by (simp add: control_inv_def transitions_running_def)
  fix t c "is"
  assume mem: "(ByUser t, c, is) \<in> set (tasks \<sigma>)"
  then have "holding c is" using user_code_holding control_inv_task(1) [OF inv] by blast
  then show "in_transition (ByUser t, c, is)" and "current (machine (this \<sigma>)) = target t"
    using control_inv_task(2) [OF inv mem] by simp_all
qed

theorem transitions_exclusive_witness:
  "length (filter in_transition (tasks (new_sys :: (nat, nat) sys))) = 0"
  using transitions_exclusive [of reference_jsm UmsClient "new_sys :: (nat, nat) sys"]
    reference_jsm_documented reachable_if.init
  by (simp add: new_sys_def new_client_def)

text \<open>
  C22. \<open>start()\<close>, \<open>stop()\<close> and \<open>refresh()\<close> are refused exactly when another transition is under way or
  the client is in the wrong state (\<open>start\<close> wants it stopped, the others started), and a refused
  call changes nothing; an accepted one has changed the state before its handler first waits.
\<close>

theorem calls_refused_exactly:
  assumes "jsm_documented J"
  shows "(if pending (machine (this \<sigma>)) \<or> (t = START \<longleftrightarrow> started (this \<sigma>))
     then \<exists>e. transition_method J cls t \<sigma> = (Some e, \<sigma>)
     else \<exists>\<sigma>'. transition_method J cls t \<sigma> = (None, \<sigma>') \<and> current (machine (this \<sigma>')) = target t)"
proof (cases "pending (machine (this \<sigma>)) \<or> (t = START \<longleftrightarrow> started (this \<sigma>))")
  case True
  then show ?thesis
    using jsm_fire_refused [OF assms, of "machine (this \<sigma>)" t]
    by (auto simp: transition_method_def started_def)
next
  case False
  let ?m = "\<lparr>current = target t, pending = True\<rparr>"
  have m: "jsm_fire J transitions (machine (this \<sigma>)) t = Inr ?m"
    using False jsm_fire_ok [OF assms, of "machine (this \<sigma>)"]
    by (cases t; cases "current (machine (this \<sigma>))") (auto simp: started_def)
  obtain s' p where run: "run J (code_of cls (ByUser t)) ((this \<sigma>)\<lparr>machine := ?m\<rparr>) = (s', p)"
    by fastforce
  have "current (machine s') = target t"
    using run_machine [OF assms run] code_Settle [of cls "ByUser t"] by auto
  then show ?thesis
    using False m run by (simp add: transition_method_def del: code_of.simps)
qed

theorem calls_refused_exactly_witness:
  "\<exists>e. transition_method reference_jsm LeClient STOP (new_sys :: (nat, nat) sys) = (Some e, new_sys)"
  using calls_refused_exactly [OF reference_jsm_documented, of "new_sys :: (nat, nat) sys" STOP LeClient]
  by (simp add: started_def new_sys_def new_client_def)

text \<open>
  C1. What a successful start promises: in every reachable state in which the client is started,
  its last \<open>start()\<close> has resolved and none is under way, the domains are there, and so is the login
  session in every class that has one. (Refreshes, timers and refused calls may have come between.)
\<close>

theorem started_has_data:
  assumes "jsm_documented J" and "reachable J cls \<sigma>"
    and "started (this \<sigma>)" and "map_of (outcomes \<sigma>) (ByUser START) = Some (Inr ())"
    and "\<forall>c is. (ByUser START, c, is) \<notin> set (tasks \<sigma>)"
  shows "(\<exists>d. domains (this \<sigma>) = Return (Some d))
    \<and> (cls \<noteq> CsdsClient \<longrightarrow> (\<exists>x. credentials (this \<sigma>) = Return (Some x)))"
proof (intro conjI impI)
  have cur: "current (machine (this \<sigma>)) = target START" using assms(3) by (simp add: started_def)
  show "\<exists>d. domains (this \<sigma>) = Return (Some d)"
    using domains_up.attained_idle [OF assms(2,1) attaining_code(1) cur assms(4,5)] assms(3)
    by (auto simp: domains_def checkStarted_def)
  show "\<exists>x. credentials (this \<sigma>) = Return (Some x)" if "cls \<noteq> CsdsClient"
    using session_up.attained_idle [OF assms(2,1) attaining_code(2) [OF that] cur assms(4,5)] assms(3)
    by (auto simp: credentials_def checkStarted_def)
qed

text \<open>The states after a start of the UMS client, for the witnesses.\<close>

definition started_ums :: "(nat, nat) sys" where
  "started_ums = after_start [] 7 new_sys"

lemma started_ums_run:
  "exec reference_jsm UmsClient (Call START # start_replies [] 7 None) new_sys = Some started_ums"
  unfolding started_ums_def
  by (rule start_run [OF reference_jsm_documented idle_new]) (simp add: new_sys_def new_client_def)

lemma started_ums_reachable: "reachable reference_jsm UmsClient started_ums"
  by (rule run_from_new [OF started_ums_run])

lemma stopped_ums_reachable: "reachable reference_jsm UmsClient (after_stop started_ums)"
proof (rule exec_reachable [OF started_ums_reachable stop_run [OF reference_jsm_documented]])
  show "idle STARTED started_ums" by (simp add: started_ums_def idle_after_start)
  show "leSession (this started_ums) = Some 7" by (simp add: started_ums_def after_start_def)
qed

theorem started_has_data_witness: "\<exists>d. domains (this started_ums) = Return (Some d)"
  using started_has_data [OF reference_jsm_documented started_ums_reachable]
  by (simp add: started_ums_def after_start_def started_def)

text \<open>
  C16. What a successful stop promises: in every reachable state in which the client is stopped, its
  last \<open>stop()\<close> has resolved and none is under way, the domains and the login session are gone.
\<close>

theorem stopped_is_clean:
  assumes "jsm_documented J" and "reachable J cls \<sigma>"
    and "\<not> started (this \<sigma>)" and "map_of (outcomes \<sigma>) (ByUser STOP) = Some (Inr ())"
    and "\<forall>c is. (ByUser STOP, c, is) \<notin> set (tasks \<sigma>)"
  shows "csdsDomains (this \<sigma>) = None \<and> (cls \<noteq> CsdsClient \<longrightarrow> leSession (this \<sigma>) = None)
    \<and> domains (this \<sigma>) = Throw not_started \<and> credentials (this \<sigma>) = Throw not_started"
proof (intro conjI impI)
  have cur: "current (machine (this \<sigma>)) = target STOP"
    using assms(3) by (cases "current (machine (this \<sigma>))") (simp_all add: started_def)
  show "csdsDomains (this \<sigma>) = None"
    by (rule domains_gone.attained_idle [OF assms(2,1) attaining_code(3) cur assms(4,5)])
  show "leSession (this \<sigma>) = None" if "cls \<noteq> CsdsClient"
    by (rule session_gone.attained_idle [OF assms(2,1) attaining_code(4) [OF that] cur assms(4,5)])
qed (use assms(3) in \<open>simp_all add: domains_def credentials_def checkStarted_def\<close>)

theorem stopped_is_clean_witness: "leSession (this (after_stop started_ums)) = None"
  using stopped_is_clean [OF reference_jsm_documented stopped_ums_reachable]
  by (simp add: after_stop_def started_ums_def after_start_def started_def removeUmsListeners_def
      clearRefreshTask_def)

text \<open>
  C18. A started client keeps refreshing: in every reachable state in which it is started and its
  last \<open>start()\<close> has resolved (and none is under way), a refresh timer is armed or its callback is
  on its way to arm one, unless a periodic refresh has failed.
\<close>

theorem refresh_chain_alive:
  assumes "jsm_documented J" and "reachable J cls \<sigma>"
    and "started (this \<sigma>)" and "map_of (outcomes \<sigma>) (ByUser START) = Some (Inr ())"
    and "\<forall>c is. (ByUser START, c, is) \<notin> set (tasks \<sigma>)"
  shows "armed (this \<sigma>) \<noteq> [] \<or> (\<exists>c is. (ByTimer, c, is) \<in> set (tasks \<sigma>) \<and> QueueRefresh \<in> set is)
    \<or> (\<exists>e. (ByTimer, Inl e) \<in> set (outcomes \<sigma>)) \<or> (\<exists>e is. (ByTimer, C_unwind e, is) \<in> set (tasks \<sigma>))"
proof -
  have "chain_alive \<sigma> \<or> timer_failed \<sigma>"
    using reachable_chain_inv [OF assms(2,1)] assms(3-5)
    by (auto simp: chain_inv_def started_def start_will_queue_def start_not_resolved_def)
  moreover have "\<exists>e. c = C_unwind e" if "is_unwind c" for c :: "'a call"
    using that by (cases c) auto
  ultimately show ?thesis unfolding chain_alive_def timer_failed_def by blast
qed

theorem refresh_chain_alive_witness: "armed (this started_ums) \<noteq> []"
  using refresh_chain_alive [OF reference_jsm_documented started_ums_reachable]
  by (simp add: started_ums_def after_start_def started_def new_sys_def new_client_def)

text \<open>Runs in which no stop comes between a periodic refresh and its re-queueing.\<close>

lemma quiet_run:
  assumes "reachable_if quiet_stop J cls \<sigma>" and "exec J cls es \<sigma> = Some \<sigma>'" and "Call STOP \<notin> set es"
  shows "reachable_if quiet_stop J cls \<sigma>'"
  using assms
proof (induction es arbitrary: \<sigma>)
  case (Cons e es)
  then obtain \<sigma>1 where "sys_step J cls e \<sigma> = Some \<sigma>1" "exec J cls es \<sigma>1 = Some \<sigma>'"
    by (auto split: option.splits)
  moreover have "quiet_stop e \<sigma>" using Cons.prems(3) by (auto simp: quiet_stop_def)
  ultimately show ?case using Cons reachable_if.step by (metis list.set_intros(2))
qed simp

text \<open>
  C17. Timers do not pile up: as long as no \<open>stop()\<close> gets between the end of a periodic refresh and
  its re-queueing, at most one refresh timer is armed or being served, the armed one is the one
  \<open>stop()\<close> clears, and a stopped client has none.
\<close>

theorem no_stray_timers:
  assumes "jsm_documented J" and "reachable_if quiet_stop J cls \<sigma>"
  shows "length (armed (this \<sigma>)) + length (filter (\<lambda>t. fst t = ByTimer) (tasks \<sigma>)) \<le> 1
    \<and> (armed (this \<sigma>) \<noteq> [] \<longrightarrow> refreshTask (this \<sigma>) = Some (hd (armed (this \<sigma>))))
    \<and> (\<not> started (this \<sigma>) \<longrightarrow> armed (this \<sigma>) = [])"
proof -
  have "\<not> started (this \<sigma>) \<Longrightarrow> current (machine (this \<sigma>)) = STOPPED"
    by (cases "current (machine (this \<sigma>))") (simp_all add: started_def)
  then show ?thesis
    using reachable_single_timer [OF assms(2,1)] by (auto simp: single_timer_def timer_tasks_def)
qed

theorem no_stray_timers_witness:
  "length (armed (this started_ums)) + length (filter (\<lambda>t. fst t = ByTimer) (tasks started_ums)) \<le> 1"
proof -
  have "Call STOP \<notin> set (Call START # start_replies [] (7::nat) None)"
    by (simp add: start_replies_def)
  then have "reachable_if quiet_stop reference_jsm UmsClient started_ums"
    by (rule quiet_run [OF reachable_if.init started_ums_run])
  from no_stray_timers [OF reference_jsm_documented this] show ?thesis by simp
qed

section \<open>Properties of whole runs\<close>

text \<open>
  A full cycle of the UMS client: when every call it makes is answered, \<open>start()\<close> and then
  \<open>stop()\<close> both resolve, and the client is idle and stopped again, without domains, session or
  listeners of its own emitters and with the timer of this start cleared. Its error and message
  callbacks, however, are still registered with the transport, once more than before.
\<close>

theorem start_stop_cycle:
  assumes "jsm_documented J" and "idle STOPPED \<sigma>" and "leSession (this \<sigma>) = None"
  shows "\<exists>\<sigma>1 \<sigma>2. exec J UmsClient (Call START # start_replies d x v) \<sigma> = Some \<sigma>1
    \<and> idle STARTED \<sigma>1 \<and> domains (this \<sigma>1) = Return (Some d) \<and> credentials (this \<sigma>1) = Return (Some x)
    \<and> armed (this \<sigma>1) = armed (this \<sigma>) @ [next_timer (this \<sigma>)]
    \<and> exec J UmsClient (Call STOP # stop_replies) \<sigma>1 = Some \<sigma>2
    \<and> outcomes \<sigma>2 = (ByUser STOP, Inr ()) # (ByUser START, Inr ()) # outcomes \<sigma>
    \<and> idle STOPPED \<sigma>2 \<and> csdsDomains (this \<sigma>2) = None \<and> leSession (this \<sigma>2) = None
    \<and> refreshTask (this \<sigma>2) = None \<and> armed (this \<sigma>2) = removeAll (next_timer (this \<sigma>)) (armed (this \<sigma>))
    \<and> umsResponseHandler (this \<sigma>2) = [] \<and> umsNotificationHandler (this \<sigma>2) = []
    \<and> msg_listeners (this \<sigma>2) = Suc (msg_listeners (this \<sigma>))
    \<and> err_listeners (this \<sigma>2) = Suc (err_listeners (this \<sigma>))"
proof -
  let ?s1 = "after_start d x \<sigma>"
  have "exec J UmsClient (Call STOP # stop_replies) ?s1 = Some (after_stop ?s1)"
    by (rule stop_run [OF assms(1) idle_after_start]) (simp add: after_start_def)
  moreover have "domains (this ?s1) = Return (Some d)" "credentials (this ?s1) = Return (Some x)"
    "armed (this ?s1) = armed (this \<sigma>) @ [next_timer (this \<sigma>)]"
    by (simp_all add: after_start_def domains_def credentials_def checkStarted_def started_def)
  moreover have "outcomes (after_stop ?s1) = (ByUser STOP, Inr ()) # (ByUser START, Inr ()) # outcomes \<sigma>"
    "csdsDomains (this (after_stop ?s1)) = None" "leSession (this (after_stop ?s1)) = None"
    "refreshTask (this (after_stop ?s1)) = None"
    "armed (this (after_stop ?s1)) = removeAll (next_timer (this \<sigma>)) (armed (this \<sigma>))"
    "umsResponseHandler (this (after_stop ?s1)) = []" "umsNotificationHandler (this (after_stop ?s1)) = []"
    "msg_listeners (this (after_stop ?s1)) = Suc (msg_listeners (this \<sigma>))"
    "err_listeners (this (after_stop ?s1)) = Suc (err_listeners (this \<sigma>))"
    by (simp_all add: after_start_def after_stop_def clearRefreshTask_def removeUmsListeners_def
        removeAllListeners_def)
  ultimately show ?thesis
    using start_run [OF assms, of d x v] idle_after_start [of d x \<sigma>] idle_after_stop [of ?s1]
    by (intro exI [of _ ?s1] exI [of _ "after_stop ?s1"] conjI)
qed

theorem start_stop_cycle_witness:
  "\<exists>\<sigma>1. exec reference_jsm UmsClient (Call START # start_replies [] 7 None) (new_sys :: (nat, nat) sys) = Some \<sigma>1
    \<and> credentials (this \<sigma>1) = Return (Some 7)"
  using start_stop_cycle [OF reference_jsm_documented idle_new, of "[]" 7 None]
  by (simp add: new_sys_def new_client_def del: exec.simps) blast

text \<open>
  A failed start strands the client: when the first request of \<open>start()\<close> fails, the state machine
  stays in the state it has entered. The client says it is started, its domains are undefined
  although the comment in the getter rules that out, no refresh is ever queued, and a second
  \<open>start()\<close> is refused; only \<open>stop()\<close> leads out.
\<close>

theorem failed_start_strands:
  assumes "jsm_documented J" and "idle STOPPED \<sigma>" and "csdsDomains (this \<sigma>) = None"
    and "exec J cls [Call START, Reply 0 (Rejected e), Reply 0 R_done] \<sigma> = Some \<sigma>'"
  shows "hd (outcomes \<sigma>') = (ByUser START, Inl e) \<and> started (this \<sigma>')
    \<and> domains (this \<sigma>') = Return None \<and> armed (this \<sigma>') = armed (this \<sigma>)
    \<and> (\<exists>e'. transition_method J cls START \<sigma>' = (Some e', \<sigma>'))"
  using assms(3,4) failed_start_run [OF assms(1,2), of cls e]
    jsm_fire_refused [OF assms(1), of "machine (this \<sigma>')" START]
  by (auto simp: started_def domains_def checkStarted_def transition_method_def simp del: exec.simps)

theorem failed_start_strands_witness:
  "\<exists>\<sigma>'. exec reference_jsm LeClient [Call START, Reply 0 (Rejected TypeError), Reply 0 R_done]
      (new_sys :: (nat, nat) sys) = Some \<sigma>' \<and> started (this \<sigma>') \<and> domains (this \<sigma>') = Return None"
  using failed_start_run [OF reference_jsm_documented idle_new, of LeClient TypeError]
    failed_start_strands [OF reference_jsm_documented idle_new, of LeClient TypeError]
  by (simp add: new_sys_def new_client_def del: exec.simps) blast

text \<open>
  One failed periodic refresh ends all of them: the client stays started, but no timer is armed
  and none of its code is running, so nothing but a call of the user can ever happen again.
\<close>

theorem failed_refresh_ends_chain:
  assumes "jsm_documented J" and "idle STARTED \<sigma>" and "armed (this \<sigma>) = [h]"
    and "exec J cls [Fire h, Reply 0 (Rejected e), Reply 0 R_done] \<sigma> = Some \<sigma>'"
  shows "started (this \<sigma>') \<and> (\<forall>ev. (\<forall>t. ev \<noteq> Call t) \<longrightarrow> sys_step J cls ev \<sigma>' = None)"
proof -
  have "this \<sigma>' = (this \<sigma>)\<lparr>armed := [], machine := \<lparr>current = STARTED, pending = False\<rparr>\<rparr>"
    and "tasks \<sigma>' = []"
    using assms(4) failed_refresh_run [OF assms(1-3), of cls e] by (auto simp del: exec.simps)
  moreover have "sys_step J cls ev \<sigma>' = None" if "\<forall>t. ev \<noteq> Call t" for ev
    using calculation that by (cases ev) auto
  ultimately show ?thesis by (simp add: started_def)
qed

theorem failed_refresh_ends_chain_witness:
  "\<exists>\<sigma>'. exec reference_jsm UmsClient [Fire 0, Reply 0 (Rejected TypeError), Reply 0 R_done] started_ums
      = Some \<sigma>' \<and> started (this \<sigma>')"
proof -
  have i: "idle STARTED started_ums" "armed (this started_ums) = [0]"
    by (simp_all add: started_ums_def idle_after_start) (simp add: after_start_def new_sys_def new_client_def)
  show ?thesis
    using failed_refresh_run [OF reference_jsm_documented i, of UmsClient TypeError]
      failed_refresh_ends_chain [OF reference_jsm_documented i, of UmsClient TypeError]
    by blast
qed

text \<open>
  C27. A failed logout leaves the old session behind: \<open>stop()\<close> is rejected, yet the client is stopped
  and keeps the session; a subclass's \<open>transport.disconnect()\<close> is never called; and the next \<open>start()\<close>
  refreshes that old session before it logs in.
\<close>

theorem failed_logout_keeps_session:
  assumes "jsm_documented J" and "cls \<noteq> CsdsClient"
    and "idle STARTED \<sigma>" and "leSession (this \<sigma>) = Some x"
    and "exec J cls [Call STOP, Reply 0 R_done, Reply 0 (Rejected e), Reply 0 R_done] \<sigma> = Some \<sigma>'"
  shows "hd (outcomes \<sigma>') = (ByUser STOP, Inl e) \<and> idle STOPPED \<sigma>' \<and> leSession (this \<sigma>') = Some x
    \<and> (\<exists>\<sigma>'' is. exec J cls [Call START, Reply 0 (R_domains d), Reply 0 R_done] \<sigma>' = Some \<sigma>''
         \<and> tasks \<sigma>'' = [(ByUser START, C_refresh x, is)])"
proof -
  have s': "\<sigma>' = \<lparr>this = (clearRefreshTask (this \<sigma>))\<lparr>machine := \<lparr>current = STOPPED, pending = False\<rparr>, csdsDomains := None\<rparr>,
          tasks = [], outcomes = (ByUser STOP, Inl e) # outcomes \<sigma>\<rparr>"
    using assms(5) failed_logout_run [OF assms(1,3,4,2), of e] by (simp del: exec.simps)
  have kept: "leSession (this \<sigma>') = Some x" "machine (this \<sigma>') = \<lparr>current = STOPPED, pending = False\<rparr>"
      "tasks \<sigma>' = []"
    using assms(4) s' by (simp_all add: clearRefreshTask_def)
  have "\<exists>\<sigma>'' is. exec J cls [Call START, Reply 0 (R_domains d), Reply 0 R_done] \<sigma>' = Some \<sigma>''
         \<and> tasks \<sigma>'' = [(ByUser START, C_refresh x, is)]"
    using assms(1,2) kept by (cases cls) (simp_all add: run_simps)
  then show ?thesis using s' kept by (simp add: idle_def)
qed

theorem failed_logout_keeps_session_witness:
  "\<exists>\<sigma>'. exec reference_jsm UmsClient [Call STOP, Reply 0 R_done, Reply 0 (Rejected TypeError), Reply 0 R_done]
      started_ums = Some \<sigma>' \<and> idle STOPPED \<sigma>' \<and> leSession (this \<sigma>') = Some 7"
proof -
  have i: "idle STARTED started_ums" "leSession (this started_ums) = Some 7"
    by (simp_all add: started_ums_def idle_after_start) (simp add: after_start_def)
  show ?thesis
    using failed_logout_run [OF reference_jsm_documented i, of UmsClient TypeError]
      failed_logout_keeps_session [OF reference_jsm_documented _ i, of UmsClient TypeError]
    by blast
qed

text \<open>
  A \<open>stop()\<close> between the end of a periodic refresh and its re-queueing leaves a timer behind: the
  callback arms it after \<open>stop()\<close> has cleared the old one, so the client ends up stopped with an
  armed timer, which re-arms itself each time it fires. (The handle is kept, so the next \<open>stop()\<close>
  after another \<open>start()\<close> clears the timer of that start instead.)
\<close>

theorem late_requeue_leaves_timer:
  assumes "jsm_documented J" and "idle STARTED \<sigma>" and "armed (this \<sigma>) = [h]"
    and "refreshTask (this \<sigma>) = Some h"
  shows "\<exists>\<sigma>'. exec J CsdsClient [Fire h, Reply 0 (R_domains d), Reply 0 R_done, Call STOP,
        Reply 0 R_done, Reply 0 R_done] \<sigma> = Some \<sigma>'
    \<and> idle STOPPED \<sigma>' \<and> take 2 (outcomes \<sigma>') = [(ByUser STOP, Inr ()), (ByTimer, Inr ())]
    \<and> armed (this \<sigma>') = [next_timer (this \<sigma>)]
    \<and> (\<exists>\<sigma>''. sys_step J CsdsClient (Fire (next_timer (this \<sigma>))) \<sigma>' = Some \<sigma>''
         \<and> idle STOPPED \<sigma>'' \<and> armed (this \<sigma>'') = [Suc (next_timer (this \<sigma>))])"
proof -
  have can: "jsm_can J transitions \<lparr>current = STARTED, pending = False\<rparr> REFRESH"
    using jsm_can_iff [OF assms(1)] jsm_fire_ok(3) [OF assms(1), of "\<lparr>current = STARTED, pending = False\<rparr>"]
    by simp
  have cannot: "\<not> jsm_can J transitions \<lparr>current = STOPPED, pending = False\<rparr> REFRESH"
    using jsm_can_iff [OF assms(1)]
      jsm_fire_Inr [OF assms(1), of "\<lparr>current = STOPPED, pending = False\<rparr>" REFRESH] by auto
  show ?thesis using assms can cannot by (simp add: run_simps)
qed

theorem late_requeue_leaves_timer_witness:
  "\<exists>\<sigma>'. exec reference_jsm CsdsClient [Fire 0, Reply 0 (R_domains []), Reply 0 R_done, Call STOP,
        Reply 0 R_done, Reply 0 R_done] started_ums = Some \<sigma>' \<and> idle STOPPED \<sigma>' \<and> armed (this \<sigma>') = [1]"
proof -
  have i: "idle STARTED started_ums" "armed (this started_ums) = [0]" "refreshTask (this started_ums) = Some 0"
    by (simp_all add: started_ums_def idle_after_start) (simp_all add: after_start_def new_sys_def new_client_def)
  show ?thesis
    using late_requeue_leaves_timer [OF reference_jsm_documented i, of "[]"] i(2)
    by (simp add: started_ums_def after_start_def new_sys_def new_client_def del: exec.simps) blast
qed

end
