(* ===== verification/Ums_Client.thy ===== *)
theory Ums_Client
  imports Client_Lifecycle
begin

text \<open>
  \<open>packages/ums-client/src/client.ts\<close>, the requests: \<open>sendMessage\<close> pairs a request with the response
  of the same id, with a timeout as the only other way out; incoming messages are dispatched to the
  response or the notification emitter. The state is the client among its callers
  (\<open>Client_System\<close>) and the requests made so far, numbered in the order of the calls; request \<open>k\<close>'s
  \<open>resolve\<close> is the listener \<open>k\<close> of the response emitter.
\<close>

section \<open>State\<close>

text \<open>
  Where the promise of a request is: \<open>Racing\<close> is pending, \<open>Rejecting\<close> is settled with an error that
  the \<open>catch\<close> callback has not seen yet, the others are what the caller gets.
\<close>

datatype rq_state = Racing | Rejecting js_error | Fulfilled json | Failed js_error

record ums_request =
  rq_id :: string
  rq_state :: rq_state
  rq_timer :: bool

record ('s, 'n) ums =
  core :: "('s, 'n) sys"
  requests :: "ums_request list"

definition new_ums :: "('s, 'n) ums" where
  "new_ums = \<lparr>core = new_sys, requests = []\<rparr>"

abbreviation ums_this :: "('s, 'n) ums \<Rightarrow> ('s, 'n) client" where
  "ums_this \<sigma> \<equiv> this (core \<sigma>)"

definition with_this :: "(('s, 'n) client \<Rightarrow> ('s, 'n) client) \<Rightarrow> ('s, 'n) ums \<Rightarrow> ('s, 'n) ums" where
  "with_this f \<sigma> = \<sigma>\<lparr>core := (core \<sigma>)\<lparr>this := f (ums_this \<sigma>)\<rparr>\<rparr>"

text \<open>\<open>resolve\<close> and \<open>reject\<close> of a race: only the first one counts.\<close>

definition settle :: "nat \<Rightarrow> rq_state \<Rightarrow> ums_request list \<Rightarrow> ums_request list" where
  "settle k st rs =
     (if k < length rs \<and> rq_state (rs ! k) = Racing then rs[k := (rs ! k)\<lparr>rq_state := st\<rparr>] else rs)"

section \<open>Methods\<close>

text \<open>
  \<open>sendMessage\<close>: refused while a request with this id has a listener; otherwise \<open>umsRequest\<close> registers
  the listener and hands the request to the transport (which throws when the client is not started),
  and \<open>timeout\<close> arms its timer. The result is the number of the request.
\<close>

definition in_progress :: "string \<Rightarrow> js_error" where
  "in_progress i = Error (''A request with the id '' @ [CHR 0x27] @ i @ [CHR 0x27] @ '' is already in progress'')"

definition umsRequest :: "string \<Rightarrow> ('s, 'n) ums \<Rightarrow> ('s, 'n) ums" where
  "umsRequest i \<sigma> =
     (let k = length (requests \<sigma>);
          st = (case checkStarted (ums_this \<sigma>) of Inl e \<Rightarrow> Rejecting e | Inr _ \<Rightarrow> Racing)
      in (with_this (\<lambda>s. s\<lparr>umsResponseHandler := once i k (umsResponseHandler s)\<rparr>) \<sigma>)
           \<lparr>requests := requests \<sigma> @ [\<lparr>rq_id = i, rq_state = st, rq_timer = True\<rparr>]\<rparr>)"

definition ums_sendMessage :: "string \<Rightarrow> ('s, 'n) ums \<Rightarrow> (js_error + nat) \<times> ('s, 'n) ums" where
  "ums_sendMessage i \<sigma> =
     (if listenerCount i (umsResponseHandler (ums_this \<sigma>)) > 0 then (Throw (in_progress i), \<sigma>)
      else (Return (length (requests \<sigma>)), umsRequest i \<sigma>))"

text \<open>The timer of \<open>timeout\<close> fires.\<close>

definition timed_out :: "string \<Rightarrow> int \<Rightarrow> js_error" where
  "timed_out i umsRequestTimeout =
     Error (''Request '' @ [CHR 0x27] @ i @ [CHR 0x27] @ '' timed out; didn'' @ [CHR 0x27]
       @ ''t receive response within '' @ show_int umsRequestTimeout)"

definition fire_timeout :: "int \<Rightarrow> nat \<Rightarrow> ('s, 'n) ums \<Rightarrow> ('s, 'n) ums" where
  "fire_timeout timeout k \<sigma> =
     (let rs = requests \<sigma>; rs' = rs[k := (rs ! k)\<lparr>rq_timer := False\<rparr>]
      in \<sigma>\<lparr>requests := settle k (Rejecting (timed_out (rq_id (rs ! k)) timeout)) rs'\<rparr>)"

text \<open>The \<open>catch\<close> callback: remove the listeners for this request's id and throw again.\<close>

definition catch_rejection :: "nat \<Rightarrow> js_error \<Rightarrow> ('s, 'n) ums \<Rightarrow> ('s, 'n) ums" where
  "catch_rejection k e \<sigma> =
     (with_this (\<lambda>s. s\<lparr>umsResponseHandler :=
          removeAllListeners (Some (rq_id (requests \<sigma> ! k))) (umsResponseHandler s)\<rparr>) \<sigma>)
       \<lparr>requests := (requests \<sigma>)[k := (requests \<sigma> ! k)\<lparr>rq_state := Failed e\<rparr>]\<rparr>"

definition onNotification :: "string \<Rightarrow> 'n \<Rightarrow> ('s, 'n) ums \<Rightarrow> (js_error + unit) \<times> ('s, 'n) ums" where
  "onNotification notificationType cb \<sigma> =
     (case checkStarted (ums_this \<sigma>) of
        Inl e \<Rightarrow> (Throw e, \<sigma>)
      | Inr _ \<Rightarrow> (Return (), with_this (\<lambda>s. s\<lparr>umsNotificationHandler :=
                    on notificationType cb (umsNotificationHandler s)\<rparr>) \<sigma>))"

definition pendingMessages :: "('s, 'n) ums \<Rightarrow> nat" where
  "pendingMessages \<sigma> = length (eventNames (umsResponseHandler (ums_this \<sigma>)))"

text \<open>Property access on a value that is neither \<open>null\<close> nor \<open>undefined\<close>.\<close>

definition prop_of :: "json \<Rightarrow> string \<Rightarrow> js_value" where
  "prop_of res k = (case get_prop k (Some res) of Inl _ \<Rightarrow> None | Inr v \<Rightarrow> v)"

definition isResponseType :: "json \<Rightarrow> bool" where
  "isResponseType res \<longleftrightarrow> js_typeof (prop_of res ''reqId'') = ''string''"

text \<open>
  The callback \<open>onStart\<close> registers with the transport. The result lists the notification callbacks
  it calls; an \<open>emit\<close> may throw.
\<close>

definition on_message :: "js_error option \<Rightarrow> js_value \<Rightarrow> ('s, 'n) ums \<Rightarrow> (js_error + 'n list) \<times> ('s, 'n) ums" where
  "on_message err res \<sigma> =
     (case err of Some _ \<Rightarrow> (Return [], \<sigma>)
      | None \<Rightarrow>
     (case res of None \<Rightarrow> (Return [], \<sigma>)
      | Some v \<Rightarrow>
        (if \<not> truthy (Some v) then (Return [], \<sigma>)
         else if isResponseType v then
           (case emit (String_of (prop_of v ''reqId'')) (umsResponseHandler (ums_this \<sigma>)) of
              (Inl e, em) \<Rightarrow> (Throw e, \<sigma>)
            | (Inr (_, ks), em) \<Rightarrow>
                (Return [], (with_this (\<lambda>s. s\<lparr>umsResponseHandler := em\<rparr>) \<sigma>)
                   \<lparr>requests := fold (\<lambda>k. settle k (Fulfilled v)) ks (requests \<sigma>)\<rparr>))
         else if truthy (prop_of v ''type'') then
           (case emit (String_of (prop_of v ''type'')) (umsNotificationHandler (ums_this \<sigma>)) of
              (Inl e, em) \<Rightarrow> (Throw e, \<sigma>)
            | (Inr (_, fs), em) \<Rightarrow>
                (Return fs, with_this (\<lambda>s. s\<lparr>umsNotificationHandler := em\<rparr>) \<sigma>))
         else (Return [], \<sigma>))))"

text \<open>
  A message of the transport reaches every callback registered with it (\<open>msg_listeners\<close> of them); an
  exception keeps it from the later ones.
\<close>

fun deliver :: "nat \<Rightarrow> json \<Rightarrow> ('s, 'n) ums \<Rightarrow> (js_error + 'n list) \<times> ('s, 'n) ums" where
  "deliver 0 v \<sigma> = (Return [], \<sigma>)"
| "deliver (Suc n) v \<sigma> =
     (case on_message None (Some v) \<sigma> of
        (Inl e, \<sigma>') \<Rightarrow> (Throw e, \<sigma>')
      | (Inr fs, \<sigma>') \<Rightarrow>
          (case deliver n v \<sigma>' of (Inl e, \<sigma>'') \<Rightarrow> (Throw e, \<sigma>'') | (Inr gs, \<sigma>'') \<Rightarrow> (Return (fs @ gs), \<sigma>'')))"

section \<open>Steps\<close>

datatype ('s, 'n) ums_event =
    Life "'s event"                \<comment> \<open>a step of the life cycle\<close>
  | Send string                    \<comment> \<open>\<open>sendMessage\<close>, by the id of the request\<close>
  | Send_failed nat js_error       \<comment> \<open>the transport's promise is rejected\<close>
  | Timer nat                      \<comment> \<open>the timer of a request fires\<close>
  | Catch nat                      \<comment> \<open>the \<open>catch\<close> callback of a request runs\<close>
  | Incoming json                  \<comment> \<open>the transport delivers a message\<close>
  | Subscribe string 'n            \<comment> \<open>\<open>onNotification\<close>\<close>

fun ums_step :: "jsm \<Rightarrow> int \<Rightarrow> ('s, 'n) ums_event \<Rightarrow> ('s, 'n) ums \<Rightarrow> ('s, 'n) ums option" where
  "ums_step J timeout (Life e) \<sigma> = map_option (\<lambda>c. \<sigma>\<lparr>core := c\<rparr>) (sys_step J UmsClient e (core \<sigma>))"
| "ums_step J timeout (Send i) \<sigma> = Some (snd (ums_sendMessage i \<sigma>))"
| "ums_step J timeout (Send_failed k e) \<sigma> = Some (\<sigma>\<lparr>requests := settle k (Rejecting e) (requests \<sigma>)\<rparr>)"
| "ums_step J timeout (Timer k) \<sigma> =
     (if k < length (requests \<sigma>) \<and> rq_timer (requests \<sigma> ! k) then Some (fire_timeout timeout k \<sigma>) else None)"
| "ums_step J timeout (Catch k) \<sigma> =
     (if k < length (requests \<sigma>)
      then (case rq_state (requests \<sigma> ! k) of Rejecting e \<Rightarrow> Some (catch_rejection k e \<sigma>) | _ \<Rightarrow> None)
      else None)"
| "ums_step J timeout (Incoming v) \<sigma> = Some (snd (deliver (msg_listeners (ums_this \<sigma>)) v \<sigma>))"
| "ums_step J timeout (Subscribe t cb) \<sigma> = Some (snd (onNotification t cb \<sigma>))"

fun ums_exec :: "jsm \<Rightarrow> int \<Rightarrow> ('s, 'n) ums_event list \<Rightarrow> ('s, 'n) ums \<Rightarrow> ('s, 'n) ums option" where
  "ums_exec J timeout [] \<sigma> = Some \<sigma>"
| "ums_exec J timeout (e # es) \<sigma> =
     (case ums_step J timeout e \<sigma> of None \<Rightarrow> None | Some \<sigma>' \<Rightarrow> ums_exec J timeout es \<sigma>')"

inductive ums_reachable :: "jsm \<Rightarrow> int \<Rightarrow> ('s, 'n) ums \<Rightarrow> bool" for J timeout where
  init: "ums_reachable J timeout new_ums"
| step: "ums_reachable J timeout \<sigma> \<Longrightarrow> ums_step J timeout e \<sigma> = Some \<sigma>' \<Longrightarrow> ums_reachable J timeout \<sigma>'"

lemma ums_exec_reachable:
  "ums_reachable J timeout \<sigma> \<Longrightarrow> ums_exec J timeout es \<sigma> = Some \<sigma>' \<Longrightarrow> ums_reachable J timeout \<sigma>'"
  by (induction es arbitrary: \<sigma>) (auto intro: ums_reachable.step split: option.splits)

end
