(* ===== verification/Ums_Requests.thy ===== *)
theory Ums_Requests
  imports Ums_Client
begin

text \<open>
  What holds of the requests of a UMS client in every reachable state, and what the methods do in
  such a state.
\<close>

section \<open>Projections\<close>

lemma with_this_simps [simp]:
  "ums_this (with_this f \<sigma>) = f (ums_this \<sigma>)"
  "requests (with_this f \<sigma>) = requests \<sigma>"
  "tasks (core (with_this f \<sigma>)) = tasks (core \<sigma>)"
  "outcomes (core (with_this f \<sigma>)) = outcomes (core \<sigma>)"
  by (simp_all add: with_this_def)

lemma settle_length [simp]: "length (settle k st rs) = length rs"
  by (simp add: settle_def)

lemma settle_nth:
  "j < length rs \<Longrightarrow> settle k st rs ! j =
     (if j = k \<and> rq_state (rs ! j) = Racing then (rs ! j)\<lparr>rq_state := st\<rparr> else rs ! j)"
  by (auto simp: settle_def nth_list_update)

lemma fold_settle_length [simp]: "length (fold (\<lambda>k. settle k st) ks rs) = length rs"
  by (induction ks arbitrary: rs) auto

section \<open>The life cycle and the emitters\<close>

text \<open>The only thing a life-cycle step does to the emitters is to empty both.\<close>

definition same_emitters :: "('s, 'n) client \<Rightarrow> ('s, 'n) client \<Rightarrow> bool" where
  "same_emitters s s' \<longleftrightarrow>
     (umsResponseHandler s' = umsResponseHandler s \<and> umsNotificationHandler s' = umsNotificationHandler s) \<or>
     (umsResponseHandler s' = [] \<and> umsNotificationHandler s' = [])"

lemma same_emitters_trans: "same_emitters s s' \<Longrightarrow> same_emitters s' s'' \<Longrightarrow> same_emitters s s''"
  by (auto simp: same_emitters_def)

lemma exec_instr_emitters: "same_emitters s (fst (exec_instr J i s))"
  by (cases i) (auto simp: same_emitters_def statement_defs removeAllListeners_def)

lemma run_emitters: "run J is s = (s', p) \<Longrightarrow> same_emitters s s'"
proof (induction J "is" s arbitrary: s' rule: run.induct)
  case (2 J i "is" s)
  obtain s1 out where e: "exec_instr J i s = (s1, out)" by fastforce
  then have "same_emitters s s1" using exec_instr_emitters [of s J i] by simp
  then show ?case using 2 e by (cases out) (auto intro: same_emitters_trans)
qed (simp add: same_emitters_def)

lemma answer_emitters: "answer J c r s = Some (s', out) \<Longrightarrow> same_emitters s s'"
  by (cases c; cases r) (auto simp: same_emitters_def)

lemma resume_emitters: "resume J c r is s = Some (s', p) \<Longrightarrow> same_emitters s s'"
  by (auto simp: resume_def dest!: run_emitters answer_emitters intro: same_emitters_trans
      split: option.splits outcome.splits)

lemma sys_step_emitters:
  assumes "sys_step J cls e \<sigma> = Some \<sigma>'" and "jsm_documented J"
  shows "same_emitters (this \<sigma>) (this \<sigma>')"
  using assms
proof (cases rule: sys_step_cases)
  case refused
  then show ?thesis by (simp add: same_emitters_def)
next
  case (called t m)
  obtain s' p where "run J (code_of cls (ByUser t)) ((this \<sigma>)\<lparr>machine := m\<rparr>) = (s', p)" by fastforce
  then show ?thesis using run_emitters called(3) by (fastforce simp: same_emitters_def)
next
  case (answered k r org c "is" pre suf y)
  then show ?thesis by (cases y) (auto dest: resume_emitters)
next
  case (refreshed h m)
  obtain s' p where "run J (code_of cls ByTimer) ((this \<sigma>)\<lparr>armed := removeAll h (armed (this \<sigma>)), machine := m\<rparr>)
      = (s', p)" by fastforce
  then show ?thesis using run_emitters refreshed(4) by (fastforce simp: same_emitters_def)
next
  case (requeued h)
  then show ?thesis by (simp add: same_emitters_def queueRefreshTask_def)
qed

section \<open>The invariant\<close>

fun live :: "rq_state \<Rightarrow> bool" where
  "live Racing = True"
| "live (Rejecting e) = True"
| "live _ = False"

text \<open>An id has no listener or the one-shot listener of one request, which is still in progress.\<close>

definition table_ok :: "nat emitter \<Rightarrow> ums_request list \<Rightarrow> bool" where
  "table_ok em rs \<longleftrightarrow> emitter_ok em \<and>
     (\<forall>ev. handlers em ev = [] \<or>
        (\<exists>k < length rs. handlers em ev = [(True, k)] \<and> rq_id (rs ! k) = ev \<and> live (rq_state (rs ! k))))"

text \<open>A response belongs to the request it fulfils, and a pending request still has its timer.\<close>

definition request_ok :: "ums_request \<Rightarrow> bool" where
  "request_ok r \<longleftrightarrow>
     (case rq_state r of
        Racing \<Rightarrow> rq_timer r
      | Fulfilled v \<Rightarrow> prop_of v ''reqId'' = Some (JStr (rq_id r))
      | _ \<Rightarrow> True)"

text \<open>Notification callbacks are permanent.\<close>

definition notifications_ok :: "'n emitter \<Rightarrow> bool" where
  "notifications_ok em \<longleftrightarrow> emitter_ok em \<and> (\<forall>ev. \<forall>h \<in> set (handlers em ev). \<not> fst h)"

definition ums_inv :: "('s, 'n) ums \<Rightarrow> bool" where
  "ums_inv \<sigma> \<longleftrightarrow>
     table_ok (umsResponseHandler (ums_this \<sigma>)) (requests \<sigma>) \<and>
     notifications_ok (umsNotificationHandler (ums_this \<sigma>)) \<and>
     list_all request_ok (requests \<sigma>)"

lemma table_ok_handlers:
  assumes "table_ok em rs" and "handlers em ev \<noteq> []"
  obtains k where "k < length rs" "handlers em ev = [(True, k)]" "rq_id (rs ! k) = ev" "live (rq_state (rs ! k))"
  using assms by (auto simp: table_ok_def)

lemma table_ok_Nil: "table_ok [] rs"
  by (simp add: table_ok_def)

lemma table_ok_clear: "table_ok em rs \<Longrightarrow> table_ok (removeAllListeners e em) rs"
  by (auto simp: table_ok_def ee.ok_clear removeAllListeners_def split: option.splits)

text \<open>A change of requests that keeps the ids and the liveness of those with a listener.\<close>

lemma table_ok_mono:
  assumes "table_ok em rs" and "length rs \<le> length rs'"
    and "\<And>k. k < length rs \<Longrightarrow> handlers em (rq_id (rs ! k)) = [(True, k)] \<Longrightarrow>
      rq_id (rs' ! k) = rq_id (rs ! k) \<and> (live (rq_state (rs ! k)) \<longrightarrow> live (rq_state (rs' ! k)))"
  shows "table_ok em rs'"
  unfolding table_ok_def
proof (intro conjI allI)
  show "emitter_ok em" using assms(1) by (simp add: table_ok_def)
  fix ev
  show "handlers em ev = [] \<or> (\<exists>k < length rs'. handlers em ev = [(True, k)] \<and> rq_id (rs' ! k) = ev
      \<and> live (rq_state (rs' ! k)))"
  proof (cases "handlers em ev = []")
    case False
    then obtain k where "k < length rs" "handlers em ev = [(True, k)]" "rq_id (rs ! k) = ev"
        "live (rq_state (rs ! k))"
      using table_ok_handlers [OF assms(1)] by blast
    then show ?thesis using assms(2) assms(3) [of k] by (intro disjI2 exI [of _ k]) simp
  qed simp
qed

lemma notifications_ok_Nil: "notifications_ok []"
  by (simp add: notifications_ok_def)

lemma notifications_ok_on: "notifications_ok em \<Longrightarrow> notifications_ok (on t cb em)"
  by (auto simp: notifications_ok_def ee.ok_on ee.hs_on)

lemma notifications_ok_emit: "notifications_ok em \<Longrightarrow> notifications_ok (snd (emit t em))"
  by (auto simp: notifications_ok_def ee.ok_fire ee.hs_fire)

lemma ums_inv_new: "ums_inv new_ums"
  by (simp add: ums_inv_def new_ums_def new_sys_def new_client_def table_ok_Nil notifications_ok_Nil)

lemma ums_inv_settle:
  assumes "ums_inv \<sigma>"
  shows "ums_inv (\<sigma>\<lparr>requests := settle k (Rejecting e) (requests \<sigma>)\<rparr>)"
proof -
  have "table_ok (umsResponseHandler (ums_this \<sigma>)) (settle k (Rejecting e) (requests \<sigma>))"
    using assms unfolding ums_inv_def by (elim conjE table_ok_mono) (auto simp: settle_nth)
  moreover have "list_all request_ok (settle k (Rejecting e) (requests \<sigma>))"
    using assms by (auto simp: ums_inv_def list_all_length settle_nth request_ok_def)
  ultimately show ?thesis using assms by (simp add: ums_inv_def)
qed

lemma ums_inv_send:
  assumes "ums_inv \<sigma>"
  shows "ums_inv (snd (ums_sendMessage i \<sigma>))"
proof (cases "handlers (umsResponseHandler (ums_this \<sigma>)) i = []")
  case False
  then show ?thesis using assms by (simp add: ums_sendMessage_def ee.hs_count)
next
  case True
  let ?em = "umsResponseHandler (ums_this \<sigma>)" and ?k = "length (requests \<sigma>)"
  define st where "st = (case checkStarted (ums_this \<sigma>) of Inl e \<Rightarrow> Rejecting e | Inr _ \<Rightarrow> Racing)"
  define rs' where "rs' = requests \<sigma> @ [\<lparr>rq_id = i, rq_state = st, rq_timer = True\<rparr>]"
  have \<sigma>': "snd (ums_sendMessage i \<sigma>) =
      (with_this (\<lambda>s. s\<lparr>umsResponseHandler := once i ?k (umsResponseHandler s)\<rparr>) \<sigma>)\<lparr>requests := rs'\<rparr>"
    using True by (simp add: ums_sendMessage_def umsRequest_def ee.hs_count st_def rs'_def Let_def)
  have old: "table_ok ?em rs'"
    using assms unfolding ums_inv_def rs'_def by (elim conjE table_ok_mono) (auto simp: nth_append)
  have "table_ok (once i ?k ?em) rs'"
    using old True by (auto simp: table_ok_def ee.hs_once ee.ok_once rs'_def st_def checkStarted_def)
  moreover have "list_all request_ok rs'"
    using assms by (auto simp: ums_inv_def rs'_def st_def request_ok_def checkStarted_def)
  ultimately show ?thesis using assms by (simp add: \<sigma>' ums_inv_def)
qed

lemma ums_inv_timeout:
  assumes "ums_inv \<sigma>" and "k < length (requests \<sigma>)"
  shows "ums_inv (fire_timeout timeout k \<sigma>)"
proof -
  let ?rs = "requests (fire_timeout timeout k \<sigma>)"
  have len: "length ?rs = length (requests \<sigma>)" by (simp add: fire_timeout_def Let_def)
  have same: "?rs ! j = requests \<sigma> ! j" if "j \<noteq> k" "j < length (requests \<sigma>)" for j
    using that by (simp add: fire_timeout_def Let_def settle_nth)
  have mine: "rq_id (?rs ! k) = rq_id (requests \<sigma> ! k)" "live (rq_state (requests \<sigma> ! k)) \<Longrightarrow> live (rq_state (?rs ! k))"
      "request_ok (requests \<sigma> ! k) \<Longrightarrow> request_ok (?rs ! k)"
    using assms(2) by (auto simp: fire_timeout_def Let_def settle_nth request_ok_def split: rq_state.splits)
  have "table_ok (umsResponseHandler (ums_this \<sigma>)) ?rs"
    using assms unfolding ums_inv_def by (elim conjE table_ok_mono) (use len same mine in \<open>metis order_refl\<close>)+
  moreover have "list_all request_ok ?rs"
    using assms same mine(3) len unfolding ums_inv_def list_all_length by metis
  ultimately show ?thesis using assms by (simp add: ums_inv_def fire_timeout_def Let_def)
qed

lemma ums_inv_catch:
  assumes "ums_inv \<sigma>" and "k < length (requests \<sigma>)"
  shows "ums_inv (catch_rejection k e \<sigma>)"
proof -
  let ?i = "rq_id (requests \<sigma> ! k)" and ?em = "umsResponseHandler (ums_this \<sigma>)"
  let ?rs = "(requests \<sigma>)[k := (requests \<sigma> ! k)\<lparr>rq_state := Failed e\<rparr>]"
  have "table_ok (removeAllListeners (Some ?i) ?em) (requests \<sigma>)"
    using assms by (auto simp: ums_inv_def intro: table_ok_clear)
  then have "table_ok (removeAllListeners (Some ?i) ?em) ?rs"
    by (rule table_ok_mono) (use assms(2) in \<open>auto simp: nth_list_update ee.hs_clear split: if_splits\<close>)
  moreover have "list_all request_ok ?rs"
    using assms by (auto simp: ums_inv_def list_all_length nth_list_update request_ok_def)
  ultimately show ?thesis using assms by (simp add: ums_inv_def catch_rejection_def)
qed

text \<open>A response: the emitter forgets the listener, and its request is fulfilled.\<close>

lemma isResponseType_reqId: "isResponseType v \<Longrightarrow> \<exists>i. prop_of v ''reqId'' = Some (JStr i)"
  by (cases "prop_of v ''reqId''" rule: js_typeof.cases) (auto simp: isResponseType_def)

lemma response_emitted:
  assumes "table_ok em rs" and "handlers em i = [(True, k)]" and "prop_of v ''reqId'' = Some (JStr i)"
    and "list_all request_ok rs"
  shows "table_ok (snd (emit i em)) (settle k (Fulfilled v) rs) \<and> list_all request_ok (settle k (Fulfilled v) rs)"
proof
  obtain k' where "k' < length rs" "handlers em i = [(True, k')]" "rq_id (rs ! k') = i"
    using table_ok_handlers [OF assms(1), of i] assms(2) by auto
  then have k: "k < length rs" "rq_id (rs ! k) = i" using assms(2) by simp_all
  have hs: "handlers (snd (emit i em)) = (handlers em)(i := [])"
    using assms(2) by (simp add: ee.hs_fire)
  then have "table_ok (snd (emit i em)) rs"
    using assms(1) by (auto simp: table_ok_def ee.ok_fire)
  then show "table_ok (snd (emit i em)) (settle k (Fulfilled v) rs)"
    by (rule table_ok_mono) (use hs k in \<open>auto simp: settle_nth split: if_splits\<close>)
  show "list_all request_ok (settle k (Fulfilled v) rs)"
    using assms(3,4) k by (auto simp: list_all_length settle_nth request_ok_def)
qed

text \<open>What the message callback does, by the kind of the message.\<close>

lemma on_message_response:
  assumes "ums_inv \<sigma>" and "truthy (Some v)" and "prop_of v ''reqId'' = Some (JStr i)"
    and "handlers (umsResponseHandler (ums_this \<sigma>)) i = [(True, k)]"
  shows "on_message None (Some v) \<sigma> =
    (Return [], (with_this (\<lambda>s. s\<lparr>umsResponseHandler := snd (emit i (umsResponseHandler (ums_this \<sigma>)))\<rparr>) \<sigma>)
       \<lparr>requests := settle k (Fulfilled v) (requests \<sigma>)\<rparr>)"
  using assms by (simp add: on_message_def isResponseType_def String_of_def emit_def Let_def)

lemma on_message_unknown:
  assumes "truthy (Some v)" and "prop_of v ''reqId'' = Some (JStr i)"
    and "handlers (umsResponseHandler (ums_this \<sigma>)) i = []"
  shows "snd (on_message None (Some v) \<sigma>) = \<sigma>"
    and "i \<noteq> ''error'' \<Longrightarrow> fst (on_message None (Some v) \<sigma>) = Return []"
  using assms by (simp_all add: on_message_def isResponseType_def String_of_def emit_def Let_def with_this_def)

lemma on_message_other:
  assumes "truthy (Some v)" and "\<not> isResponseType v"
  shows "requests (snd (on_message err (Some v) \<sigma>)) = requests \<sigma> \<and>
    umsResponseHandler (ums_this (snd (on_message err (Some v) \<sigma>))) = umsResponseHandler (ums_this \<sigma>) \<and>
    (notifications_ok (umsNotificationHandler (ums_this \<sigma>)) \<longrightarrow>
       notifications_ok (umsNotificationHandler (ums_this (snd (on_message err (Some v) \<sigma>)))))"
  using assms notifications_ok_emit [of "umsNotificationHandler (ums_this \<sigma>)" "String_of (prop_of v ''type'')"]
  by (auto simp: on_message_def split: option.splits prod.splits sum.splits)

lemma ums_inv_message:
  assumes "ums_inv \<sigma>"
  shows "ums_inv (snd (on_message err (Some v) \<sigma>))"
proof (cases "err = None \<and> truthy (Some v)")
  case False
  then have "snd (on_message err (Some v) \<sigma>) = \<sigma>"
    by (auto simp: on_message_def split: option.splits)
  then show ?thesis using assms by simp
next
  case msg: True
  show ?thesis
  proof (cases "isResponseType v")
    case False
    then show ?thesis
      using assms on_message_other [of v err \<sigma>] msg unfolding ums_inv_def by simp
  next
    case True
    then obtain i where i: "prop_of v ''reqId'' = Some (JStr i)" using isResponseType_reqId by blast
    show ?thesis
    proof (cases "handlers (umsResponseHandler (ums_this \<sigma>)) i = []")
      case True
      then show ?thesis using on_message_unknown(1) [OF _ i True] msg assms by simp
    next
      case False
      then obtain k where k: "handlers (umsResponseHandler (ums_this \<sigma>)) i = [(True, k)]"
        using assms table_ok_handlers unfolding ums_inv_def by metis
      have "snd (on_message err (Some v) \<sigma>) =
        (with_this (\<lambda>s. s\<lparr>umsResponseHandler := snd (emit i (umsResponseHandler (ums_this \<sigma>)))\<rparr>) \<sigma>)
           \<lparr>requests := settle k (Fulfilled v) (requests \<sigma>)\<rparr>"
        using on_message_response [OF assms _ i k] msg by simp
      then show ?thesis using response_emitted [OF _ k i] assms by (simp add: ums_inv_def)
    qed
  qed
qed

lemma ums_inv_deliver: "ums_inv \<sigma> \<Longrightarrow> ums_inv (snd (deliver n v \<sigma>))"
proof (induction n arbitrary: \<sigma>)
  case (Suc n)
  obtain r \<sigma>1 where m: "on_message None (Some v) \<sigma> = (r, \<sigma>1)" by fastforce
  then have "ums_inv \<sigma>1" using ums_inv_message [OF Suc.prems, of None v] by simp
  then show ?case using Suc.IH [of \<sigma>1] m by (auto split: sum.splits prod.splits)
qed simp

lemma ums_inv_step:
  assumes inv: "ums_inv \<sigma>" and J: "jsm_documented J" and step: "ums_step J timeout e \<sigma> = Some \<sigma>'"
  shows "ums_inv \<sigma>'"
proof (cases e)
  case (Life ev)
  then obtain c where c: "sys_step J UmsClient ev (core \<sigma>) = Some c" and \<sigma>': "\<sigma>' = \<sigma>\<lparr>core := c\<rparr>"
    using step by auto
  from sys_step_emitters [OF c J] show ?thesis
    using inv by (auto simp: \<sigma>' same_emitters_def ums_inv_def table_ok_Nil notifications_ok_Nil)
next
  case (Send i)
  then show ?thesis using ums_inv_send [OF inv] step by auto
next
  case (Send_failed k err)
  then show ?thesis using ums_inv_settle [OF inv] step by auto
next
  case (Timer k)
  then show ?thesis using ums_inv_timeout [OF inv] step by (auto split: if_splits)
next
  case (Catch k)
  then show ?thesis using ums_inv_catch [OF inv] step by (auto split: if_splits rq_state.splits)
next
  case (Incoming v)
  then show ?thesis using ums_inv_deliver [OF inv] step by auto
next
  case (Subscribe t cb)
  then show ?thesis
    using inv step by (auto simp: onNotification_def ums_inv_def notifications_ok_on split: sum.splits)
qed

lemma ums_reachable_inv: "ums_reachable J timeout \<sigma> \<Longrightarrow> jsm_documented J \<Longrightarrow> ums_inv \<sigma>"
  by (induction rule: ums_reachable.induct) (auto intro: ums_inv_new ums_inv_step)

end
