(* ===== verification/Ums_Properties.thy ===== *)
theory Ums_Properties
  imports Ums_Requests
begin

text \<open>
  What a caller of the UMS client's \<open>sendMessage\<close>, \<open>onNotification\<close> and \<open>pendingMessages\<close> can rely on,
  and the two ways in which a restart of the client breaks it.
\<close>

section \<open>Runs\<close>

lemma ums_exec_life:
  "ums_exec J timeout (map Life es) \<sigma> = map_option (\<lambda>c. \<sigma>\<lparr>core := c\<rparr>) (exec J UmsClient es (core \<sigma>))"
proof (induction es arbitrary: \<sigma>)
  case (Cons e es)
  then show ?case by (cases "sys_step J UmsClient e (core \<sigma>)") auto
qed simp

lemma ums_exec_append:
  "ums_exec J timeout (es @ es') \<sigma> =
     (case ums_exec J timeout es \<sigma> of None \<Rightarrow> None | Some \<sigma>' \<Rightarrow> ums_exec J timeout es' \<sigma>')"
  by (induction es arbitrary: \<sigma>) (auto split: option.splits)

text \<open>The request that listens for the response to an id.\<close>

definition listening :: "('s, 'n) ums \<Rightarrow> nat \<Rightarrow> bool" where
  "listening \<sigma> k \<longleftrightarrow> k < length (requests \<sigma>) \<and>
     (True, k) \<in> set (handlers (umsResponseHandler (ums_this \<sigma>)) (rq_id (requests \<sigma> ! k)))"

lemma listening_iff:
  assumes "ums_inv \<sigma>"
  shows "listening \<sigma> k \<longleftrightarrow> k < length (requests \<sigma>) \<and>
    handlers (umsResponseHandler (ums_this \<sigma>)) (rq_id (requests \<sigma> ! k)) = [(True, k)] \<and>
    live (rq_state (requests \<sigma> ! k))"
proof
  assume l: "listening \<sigma> k"
  have tab: "table_ok (umsResponseHandler (ums_this \<sigma>)) (requests \<sigma>)" using assms by (simp add: ums_inv_def)
  have ne: "handlers (umsResponseHandler (ums_this \<sigma>)) (rq_id (requests \<sigma> ! k)) \<noteq> []"
    using l by (auto simp: listening_def)
  obtain j where j: "handlers (umsResponseHandler (ums_this \<sigma>)) (rq_id (requests \<sigma> ! k)) = [(True, j)]"
      "live (rq_state (requests \<sigma> ! j))"
    by (rule table_ok_handlers [OF tab ne])
  then have "j = k" using l by (simp add: listening_def)
  then show "k < length (requests \<sigma>) \<and>
    handlers (umsResponseHandler (ums_this \<sigma>)) (rq_id (requests \<sigma> ! k)) = [(True, k)] \<and>
    live (rq_state (requests \<sigma> ! k))"
    using j l by (simp add: listening_def)
qed (simp add: listening_def)

lemma listeners_of_events:
  assumes "ums_inv \<sigma>"
  shows "bij_betw (\<lambda>k. rq_id (requests \<sigma> ! k)) {k. listening \<sigma> k}
    {ev. handlers (umsResponseHandler (ums_this \<sigma>)) ev \<noteq> []}"
proof (intro bij_betwI')
  fix j k
  assume "j \<in> {k. listening \<sigma> k}" and "k \<in> {k. listening \<sigma> k}"
  then have h: "handlers (umsResponseHandler (ums_this \<sigma>)) (rq_id (requests \<sigma> ! j)) = [(True, j)]"
    "handlers (umsResponseHandler (ums_this \<sigma>)) (rq_id (requests \<sigma> ! k)) = [(True, k)]"
    by (simp_all add: listening_iff [OF assms])
  show "rq_id (requests \<sigma> ! j) = rq_id (requests \<sigma> ! k) \<longleftrightarrow> j = k"
  proof
    assume "rq_id (requests \<sigma> ! j) = rq_id (requests \<sigma> ! k)"
    then have "[(True, j)] = [(True, k)]" using h by argo
    then show "j = k" by simp
  qed simp
next
  fix k
  assume "k \<in> {k. listening \<sigma> k}"
  then show "rq_id (requests \<sigma> ! k) \<in> {ev. handlers (umsResponseHandler (ums_this \<sigma>)) ev \<noteq> []}"
    using listening_iff [OF assms, of k] by simp
next
  fix ev
  assume "ev \<in> {ev. handlers (umsResponseHandler (ums_this \<sigma>)) ev \<noteq> []}"
  then have "handlers (umsResponseHandler (ums_this \<sigma>)) ev \<noteq> []" by simp
  moreover have "table_ok (umsResponseHandler (ums_this \<sigma>)) (requests \<sigma>)"
    using assms by (simp add: ums_inv_def)
  ultimately obtain k where "k < length (requests \<sigma>)"
      "handlers (umsResponseHandler (ums_this \<sigma>)) ev = [(True, k)]" "rq_id (requests \<sigma> ! k) = ev"
    using table_ok_handlers by blast
  then have "listening \<sigma> k" and "ev = rq_id (requests \<sigma> ! k)" by (auto simp: listening_def)
  then show "\<exists>k \<in> {k. listening \<sigma> k}. ev = rq_id (requests \<sigma> ! k)" by blast
qed

section \<open>Properties\<close>

text \<open>
  C3. Responses are routed by request id: in every reachable state each fulfilled request was
  fulfilled by a message whose \<open>reqId\<close> is its id, and no id ever has more than one listener (the
  expectation behind \<open>setMaxListeners(1)\<close>).
\<close>

theorem responses_match_requests:
  assumes "jsm_documented J" and "ums_reachable J timeout \<sigma>"
  shows "(\<forall>r \<in> set (requests \<sigma>). \<forall>v. rq_state r = Fulfilled v \<longrightarrow>
        get_prop ''reqId'' (Some v) = Return (Some (JStr (rq_id r))))
    \<and> (\<forall>i. listenerCount i (umsResponseHandler (ums_this \<sigma>)) \<le> 1)"
proof (intro conjI ballI allI impI)
  have inv: "ums_inv \<sigma>" using ums_reachable_inv assms by blast
  show "get_prop ''reqId'' (Some v) = Return (Some (JStr (rq_id r)))"
    if "r \<in> set (requests \<sigma>)" "rq_state r = Fulfilled v" for r v
  proof -
    have "prop_of v ''reqId'' = Some (JStr (rq_id r))"
      using inv that by (auto simp: ums_inv_def list_all_iff request_ok_def split: rq_state.splits)
    then show ?thesis by (auto simp: prop_of_def split: sum.splits)
  qed
  show "listenerCount i (umsResponseHandler (ums_this \<sigma>)) \<le> 1" for i
    using inv unfolding ums_inv_def table_ok_def ee.hs_count by (elim conjE allE [of _ i]) auto
qed

text \<open>A started client, with a request answered: the states of the witnesses.\<close>

definition running_ums :: "(nat, nat) ums" where
  "running_ums = \<lparr>core = started_ums, requests = []\<rparr>"

lemma running_ums_reachable: "ums_reachable reference_jsm 5000 running_ums"
proof (rule ums_exec_reachable [OF ums_reachable.init])
  show "ums_exec reference_jsm 5000 (map Life (Call START # start_replies [] 7 None)) new_ums = Some running_ums"
    using started_ums_run by (simp add: ums_exec_life new_ums_def running_ums_def del: exec.simps list.map)
qed

lemma running_ums_this [simp]:
  "umsResponseHandler (ums_this running_ums) = []" "umsNotificationHandler (ums_this running_ums) = []"
  "msg_listeners (ums_this running_ums) = 1" "checkStarted (ums_this running_ums) = Return ()"
  "requests running_ums = []"
  by (simp_all add: running_ums_def started_ums_def after_start_def new_sys_def new_client_def
      checkStarted_def started_def)

definition answer_to :: "string \<Rightarrow> json" where
  "answer_to i = JObj [(''reqId'', JStr i)]"

lemmas ums_run_simps =
  ums_sendMessage_def umsRequest_def listenerCount_def on_message_def isResponseType_def prop_of_def
  answer_to_def String_of_def emit_def Let_def once_def set_handlers_def handlers_def del_def
  settle_def with_this_def fire_timeout_def catch_rejection_def removeAllListeners_def

lemma answered_run:
  "\<exists>\<sigma>. ums_exec reference_jsm 5000 [Send ''a'', Incoming (answer_to ''a'')] running_ums = Some \<sigma>
     \<and> requests \<sigma> = [\<lparr>rq_id = ''a'', rq_state = Fulfilled (answer_to ''a''), rq_timer = True\<rparr>]"
  using running_ums_this by (simp add: ums_run_simps)

theorem responses_match_requests_witness:
  "\<exists>\<sigma> :: (nat, nat) ums. requests \<sigma> \<noteq> [] \<and> (\<forall>r \<in> set (requests \<sigma>). rq_state r = Fulfilled (answer_to ''a'')
     \<and> get_prop ''reqId'' (Some (answer_to ''a'')) = Return (Some (JStr (rq_id r))))"
proof -
  obtain \<sigma> where run: "ums_exec reference_jsm 5000 [Send ''a'', Incoming (answer_to ''a'')] running_ums = Some \<sigma>"
    and rs: "requests \<sigma> = [\<lparr>rq_id = ''a'', rq_state = Fulfilled (answer_to ''a''), rq_timer = True\<rparr>]"
    using answered_run by blast
  have "ums_reachable reference_jsm 5000 \<sigma>" by (rule ums_exec_reachable [OF running_ums_reachable run])
  from responses_match_requests [OF reference_jsm_documented this] rs show ?thesis
    by (intro exI [of _ \<sigma>]) simp
qed

text \<open>
  \<open>pendingMessages\<close> is the number of requests that wait for a response: it counts event names of
  the emitter, and in every reachable state these are, one to one, the requests with a listener, none
  of which has been fulfilled or has failed for its caller.
\<close>

theorem pending_counts_requests:
  assumes "jsm_documented J" and "ums_reachable J timeout \<sigma>"
  shows "pendingMessages \<sigma> = card {k. listening \<sigma> k}
    \<and> (\<forall>k. listening \<sigma> k \<longrightarrow> live (rq_state (requests \<sigma> ! k)))"
proof
  have inv: "ums_inv \<sigma>" using ums_reachable_inv assms by blast
  then have "emitter_ok (umsResponseHandler (ums_this \<sigma>))" by (simp add: ums_inv_def table_ok_def)
  then show "pendingMessages \<sigma> = card {k. listening \<sigma> k}"
    using bij_betw_same_card [OF listeners_of_events [OF inv]] ee.names_card
    by (simp add: pendingMessages_def)
  show "\<forall>k. listening \<sigma> k \<longrightarrow> live (rq_state (requests \<sigma> ! k))" using listening_iff [OF inv] by blast
qed

lemma pending_run:
  "\<exists>\<sigma>. ums_exec reference_jsm 5000 [Send ''a'', Send ''b'', Incoming (answer_to ''a'')] running_ums = Some \<sigma>
     \<and> pendingMessages \<sigma> = 1"
  using running_ums_this by (simp add: ums_run_simps pendingMessages_def eventNames_def)

theorem pending_counts_requests_witness:
  "\<exists>\<sigma> :: (nat, nat) ums. pendingMessages \<sigma> = 1 \<and> card {k. listening \<sigma> k} = 1"
proof -
  obtain \<sigma> where run: "ums_exec reference_jsm 5000 [Send ''a'', Send ''b'', Incoming (answer_to ''a'')] running_ums = Some \<sigma>"
    and p: "pendingMessages \<sigma> = 1"
    using pending_run by blast
  have "ums_reachable reference_jsm 5000 \<sigma>" by (rule ums_exec_reachable [OF running_ums_reachable run])
  from pending_counts_requests [OF reference_jsm_documented this] p show ?thesis
    by (intro exI [of _ \<sigma>]) simp
qed

text \<open>
  \<open>sendMessage\<close> refuses a request whose id is being waited for, and changes nothing then;
  otherwise it adds one waiting request, which is pending when the client is started and already
  rejected with the not-started error when it is not.
\<close>

theorem send_spec:
  assumes "jsm_documented J" and "ums_reachable J timeout \<sigma>"
  shows "if \<exists>k. listening \<sigma> k \<and> rq_id (requests \<sigma> ! k) = i
    then ums_sendMessage i \<sigma> = (Throw (in_progress i), \<sigma>)
    else \<exists>\<sigma>'. ums_sendMessage i \<sigma> = (Return (length (requests \<sigma>)), \<sigma>')
      \<and> requests \<sigma>' = requests \<sigma> @ [\<lparr>rq_id = i,
           rq_state = (if started (ums_this \<sigma>) then Racing else Rejecting not_started), rq_timer = True\<rparr>]
      \<and> listening \<sigma>' (length (requests \<sigma>)) \<and> pendingMessages \<sigma>' = Suc (pendingMessages \<sigma>)"
proof -
  have inv: "ums_inv \<sigma>" using ums_reachable_inv assms by blast
  then have tab: "table_ok (umsResponseHandler (ums_this \<sigma>)) (requests \<sigma>)" by (simp add: ums_inv_def)
  have iff: "(\<exists>k. listening \<sigma> k \<and> rq_id (requests \<sigma> ! k) = i)
      \<longleftrightarrow> handlers (umsResponseHandler (ums_this \<sigma>)) i \<noteq> []"
    using bij_betw_imp_surj_on [OF listeners_of_events [OF inv]]
    by (simp add: set_eq_iff image_iff) metis
  show ?thesis
  proof (cases "handlers (umsResponseHandler (ums_this \<sigma>)) i = []")
    case False
    then show ?thesis using iff by (simp add: ums_sendMessage_def ee.hs_count)
  next
    case True
    have ok: "emitter_ok (umsResponseHandler (ums_this \<sigma>))" using tab by (simp add: table_ok_def)
    show ?thesis
      unfolding iff using True ee.names_once [OF ok True]
      by (simp add: ums_sendMessage_def umsRequest_def ee.hs_count checkStarted_def pendingMessages_def
          listening_def ee.hs_once)
  qed
qed

theorem send_spec_witness:
  "ums_sendMessage ''a'' (running_ums \<lparr>requests := []\<rparr>) \<noteq> (Throw (in_progress ''a''), running_ums)"
  using send_spec [OF reference_jsm_documented running_ums_reachable, of "''a''"]
  by (auto simp: listening_def running_ums_def)

lemma deliver_unknown:
  assumes "truthy (Some v)" and "prop_of v ''reqId'' = Some (JStr i)"
    and "handlers (umsResponseHandler (ums_this \<sigma>)) i = []"
  shows "snd (deliver n v \<sigma>) = \<sigma>"
proof (induction n)
  case (Suc n)
  have "snd (on_message None (Some v) \<sigma>) = \<sigma>" by (rule on_message_unknown(1) [OF assms])
  then show ?case using Suc
    by (cases "on_message None (Some v) \<sigma>") (auto split: sum.splits prod.splits)
qed simp

lemma prop_of_truthy: "prop_of v k = Some x \<Longrightarrow> truthy (Some v)"
  by (cases v) (auto simp: prop_of_def)

text \<open>What a response does to the client, through however many registered callbacks.\<close>

definition answered :: "nat \<Rightarrow> json \<Rightarrow> ('s, 'n) ums \<Rightarrow> ('s, 'n) ums" where
  "answered k v \<sigma> =
     (with_this (\<lambda>s. s\<lparr>umsResponseHandler := snd (emit (rq_id (requests \<sigma> ! k)) (umsResponseHandler s))\<rparr>) \<sigma>)
       \<lparr>requests := settle k (Fulfilled v) (requests \<sigma>)\<rparr>"

lemma deliver_response:
  assumes inv: "ums_inv \<sigma>" and "listening \<sigma> k"
    and i: "prop_of v ''reqId'' = Some (JStr (rq_id (requests \<sigma> ! k)))"
  shows "snd (deliver (Suc n) v \<sigma>) = answered k v \<sigma>"
proof -
  have v: "truthy (Some v)" by (rule prop_of_truthy [OF i])
  have k: "handlers (umsResponseHandler (ums_this \<sigma>)) (rq_id (requests \<sigma> ! k)) = [(True, k)]"
    using assms(2) listening_iff [OF inv] by simp
  have first: "on_message None (Some v) \<sigma> = (Return [], answered k v \<sigma>)"
    using on_message_response [OF inv v i k] by (simp add: answered_def with_this_def)
  have "snd (deliver n v (answered k v \<sigma>)) = answered k v \<sigma>"
    by (rule deliver_unknown [OF v i]) (simp add: answered_def ee.hs_fire k)
  then show ?thesis using first by (auto split: sum.splits prod.splits)
qed

lemma answered_requests:
  assumes "listening \<sigma> k" and "rq_state (requests \<sigma> ! k) = Racing"
  shows "requests (answered k v \<sigma>) = (requests \<sigma>)[k := (requests \<sigma> ! k)\<lparr>rq_state := Fulfilled v\<rparr>]"
  using assms by (simp add: answered_def listening_def settle_def)

lemma answered_pending:
  assumes inv: "ums_inv \<sigma>" and l: "listening \<sigma> k"
  shows "pendingMessages \<sigma> = Suc (pendingMessages (answered k v \<sigma>))"
proof -
  let ?i = "rq_id (requests \<sigma> ! k)" and ?em = "umsResponseHandler (ums_this \<sigma>)"
  have ok: "emitter_ok ?em" using inv by (simp add: ums_inv_def table_ok_def)
  have k: "handlers ?em ?i = [(True, k)]" using l listening_iff [OF inv] by simp
  have hs: "handlers (umsResponseHandler (ums_this (answered k v \<sigma>))) = (handlers ?em)(?i := [])"
    using k by (simp add: answered_def ee.hs_fire)
  show ?thesis
    unfolding pendingMessages_def
    by (rule ee.names_drop [OF ok _ hs]) (use ok k in \<open>auto simp: answered_def ee.ok_fire\<close>)
qed

text \<open>
  C8. A response settles its request and nothing else: when the request \<open>k\<close> waits for a response and
  a message with its id arrives, through however many registered callbacks, \<open>k\<close> is fulfilled with
  that message, every other request is as before, and one message fewer is pending.
\<close>

theorem response_settles_request:
  assumes "jsm_documented J" and "ums_reachable J timeout \<sigma>"
    and "listening \<sigma> k" and "rq_state (requests \<sigma> ! k) = Racing"
    and "prop_of v ''reqId'' = Some (JStr (rq_id (requests \<sigma> ! k)))" and "msg_listeners (ums_this \<sigma>) \<noteq> 0"
  shows "\<exists>\<sigma>'. ums_step J timeout (Incoming v) \<sigma> = Some \<sigma>'
    \<and> requests \<sigma>' = (requests \<sigma>)[k := (requests \<sigma> ! k)\<lparr>rq_state := Fulfilled v\<rparr>]
    \<and> pendingMessages \<sigma> = Suc (pendingMessages \<sigma>')"
proof -
  have inv: "ums_inv \<sigma>" using ums_reachable_inv assms(1,2) by blast
  obtain n where "msg_listeners (ums_this \<sigma>) = Suc n" using assms(6) not0_implies_Suc by blast
  then show ?thesis
    using deliver_response [OF inv assms(3,5), of n] answered_requests [OF assms(3,4)] answered_pending [OF inv assms(3)]
    by (simp del: deliver.simps)
qed

theorem response_settles_request_witness:
  "\<exists>\<sigma> \<sigma>' :: (nat, nat) ums. ums_step reference_jsm 5000 (Incoming (answer_to ''a'')) \<sigma> = Some \<sigma>'
     \<and> pendingMessages \<sigma> = 1 \<and> pendingMessages \<sigma>' = 0"
proof -
  let ?\<sigma> = "snd (ums_sendMessage ''a'' running_ums)"
  have run: "ums_exec reference_jsm 5000 [Send ''a''] running_ums = Some ?\<sigma>" by simp
  have r: "ums_reachable reference_jsm 5000 ?\<sigma>" by (rule ums_exec_reachable [OF running_ums_reachable run])
  have c: "listening ?\<sigma> 0" "rq_state (requests ?\<sigma> ! 0) = Racing" "pendingMessages ?\<sigma> = 1"
      "prop_of (answer_to ''a'') ''reqId'' = Some (JStr (rq_id (requests ?\<sigma> ! 0)))"
      "msg_listeners (ums_this ?\<sigma>) \<noteq> 0"
    using running_ums_this by (simp_all add: ums_run_simps listening_def pendingMessages_def eventNames_def)
  from response_settles_request [OF reference_jsm_documented r c(1,2,4,5)] c(3) show ?thesis
    by (metis One_nat_def nat.inject)
qed

text \<open>
  C19. A pending request always settles: its timer is armed as long as it is pending, and when the
  timer fires before a response, the caller gets the timeout error, nobody listens for that id any
  more, and no other request has changed.
\<close>

theorem pending_request_times_out:
  assumes "jsm_documented J" and "ums_reachable J timeout \<sigma>"
    and "k < length (requests \<sigma>)" and "rq_state (requests \<sigma> ! k) = Racing"
  shows "\<exists>\<sigma>'. ums_exec J timeout [Timer k, Catch k] \<sigma> = Some \<sigma>'
    \<and> requests \<sigma>' = (requests \<sigma>)[k := (requests \<sigma> ! k)
         \<lparr>rq_timer := False, rq_state := Failed (timed_out (rq_id (requests \<sigma> ! k)) timeout)\<rparr>]
    \<and> listenerCount (rq_id (requests \<sigma> ! k)) (umsResponseHandler (ums_this \<sigma>')) = 0"
proof -
  have "ums_inv \<sigma>" using ums_reachable_inv assms by blast
  then have "request_ok (requests \<sigma> ! k)" using assms(3) by (simp add: ums_inv_def list_all_length)
  then have t: "rq_timer (requests \<sigma> ! k)" using assms(4) by (simp add: request_ok_def)
  show ?thesis
    using assms(3,4) t
    by (simp add: fire_timeout_def settle_def catch_rejection_def Let_def ee.hs_count ee.hs_clear)
qed

theorem pending_request_times_out_witness:
  "\<exists>\<sigma>'. ums_exec reference_jsm 5000 [Timer 0, Catch 0] (snd (ums_sendMessage ''a'' running_ums)) = Some \<sigma>'
     \<and> listenerCount ''a'' (umsResponseHandler (ums_this \<sigma>')) = 0"
proof -
  let ?\<sigma> = "snd (ums_sendMessage ''a'' running_ums)"
  have run: "ums_exec reference_jsm 5000 [Send ''a''] running_ums = Some ?\<sigma>" by simp
  have r: "ums_reachable reference_jsm 5000 ?\<sigma>" by (rule ums_exec_reachable [OF running_ums_reachable run])
  have c: "0 < length (requests ?\<sigma>)" "rq_state (requests ?\<sigma> ! 0) = Racing" "rq_id (requests ?\<sigma> ! 0) = ''a''"
    using running_ums_this by (simp_all add: ums_run_simps)
  from pending_request_times_out [OF reference_jsm_documented r c(1,2)] c(3) show ?thesis
    by (simp del: ums_exec.simps) blast
qed

text \<open>
  A request to a client that is not started fails cleanly: the promise is rejected with the
  not-started error and the listeners of all ids are as before.
\<close>

theorem send_not_started:
  assumes "\<not> started (ums_this \<sigma>)" and "listenerCount i (umsResponseHandler (ums_this \<sigma>)) = 0"
  shows "\<exists>\<sigma>'. ums_exec J timeout [Send i, Catch (length (requests \<sigma>))] \<sigma> = Some \<sigma>'
    \<and> requests \<sigma>' = requests \<sigma> @ [\<lparr>rq_id = i, rq_state = Failed not_started, rq_timer = True\<rparr>]
    \<and> (\<forall>j. listenerCount j (umsResponseHandler (ums_this \<sigma>')) = listenerCount j (umsResponseHandler (ums_this \<sigma>)))"
  using assms
  by (simp add: ums_sendMessage_def umsRequest_def checkStarted_def catch_rejection_def Let_def ee.hs_count
      ee.hs_clear ee.hs_once)

theorem send_not_started_witness:
  "\<exists>\<sigma>' :: (nat, nat) ums. ums_exec reference_jsm 5000 [Send ''a'', Catch 0] new_ums = Some \<sigma>'
     \<and> rq_state (requests \<sigma>' ! 0) = Failed not_started"
proof -
  have n: "\<not> started (ums_this (new_ums :: (nat, nat) ums))"
    "listenerCount ''a'' (umsResponseHandler (ums_this (new_ums :: (nat, nat) ums))) = 0" "requests new_ums = []"
    by (simp_all add: new_ums_def new_sys_def new_client_def started_def listenerCount_def)
  show ?thesis
    using send_not_started [OF n(1,2), of reference_jsm 5000]
    by (simp add: n(3) del: ums_exec.simps) force
qed

lemma notification_emitted:
  assumes "notifications_ok (umsNotificationHandler (ums_this \<sigma>))"
    and "\<not> isResponseType v" and "prop_of v ''type'' = Some (JStr t)" and "t \<noteq> []"
    and "listeners t (umsNotificationHandler (ums_this \<sigma>)) \<noteq> []"
  shows "on_message None (Some v) \<sigma> = (Return (listeners t (umsNotificationHandler (ums_this \<sigma>))), \<sigma>)"
proof -
  let ?em = "umsNotificationHandler (ums_this \<sigma>)"
  have "emit t ?em = (Return (True, listeners t ?em), ?em)"
    using assms(1,5) by (intro emit_permanent) (simp_all add: notifications_ok_def listeners_def)
  then show ?thesis
    using assms(2-4) prop_of_truthy [OF assms(3)]
    by (simp add: on_message_def String_of_def with_this_def)
qed

text \<open>
  C23. Notifications reach every subscriber of their type, in the order of subscription, once for each
  message callback the client has registered with the transport, and nothing else changes.
\<close>

theorem notifications_delivered:
  assumes "jsm_documented J" and "ums_reachable J timeout \<sigma>"
    and "\<not> isResponseType v" and "prop_of v ''type'' = Some (JStr t)" and "t \<noteq> []"
    and "listeners t (umsNotificationHandler (ums_this \<sigma>)) \<noteq> []"
  shows "deliver n v \<sigma> =
    (Return (concat (replicate n (listeners t (umsNotificationHandler (ums_this \<sigma>))))), \<sigma>)"
proof (induction n)
  case (Suc n)
  have "notifications_ok (umsNotificationHandler (ums_this \<sigma>))"
    using ums_reachable_inv [OF assms(2,1)] by (simp add: ums_inv_def)
  from notification_emitted [OF this assms(3-6)]
  show ?case using Suc by simp
qed simp

definition notice :: "string \<Rightarrow> json" where
  "notice t = JObj [(''type'', JStr t)]"

lemma notice_simps [simp]:
  "\<not> isResponseType (notice t)" "prop_of (notice t) ''type'' = Some (JStr t)"
  by (simp_all add: notice_def isResponseType_def prop_of_def)

theorem notifications_delivered_witness:
  "fst (deliver 1 (notice ''a'') (snd (onNotification ''a'' 3 running_ums))) = Return [3]"
proof -
  let ?\<sigma> = "snd (onNotification ''a'' 3 running_ums)"
  have run: "ums_exec reference_jsm 5000 [Subscribe ''a'' 3] running_ums = Some ?\<sigma>" by simp
  have r: "ums_reachable reference_jsm 5000 ?\<sigma>" by (rule ums_exec_reachable [OF running_ums_reachable run])
  have l: "listeners ''a'' (umsNotificationHandler (ums_this ?\<sigma>)) = [3]"
    using running_ums_this by (simp add: onNotification_def listeners_def ee.hs_on)
  from notifications_delivered [OF reference_jsm_documented r, of "notice ''a''" "''a''" 1] l
  show ?thesis by simp
qed

section \<open>Restarts\<close>

text \<open>A stop and a start of an idle started client, as events.\<close>

definition restart :: "csds_response \<Rightarrow> 's \<Rightarrow> ('s, 'n) ums_event list" where
  "restart d x = map Life (Call STOP # stop_replies @ Call START # start_replies d x None)"

lemma restart_run:
  assumes "jsm_documented J" and "idle STARTED (core \<sigma>)" and "leSession (ums_this \<sigma>) = Some y"
  shows "ums_exec J timeout (restart d x) \<sigma> = Some (\<sigma>\<lparr>core := after_start d x (after_stop (core \<sigma>))\<rparr>)"
proof -
  have "exec J UmsClient ((Call STOP # stop_replies) @ Call START # start_replies d x None) (core \<sigma>)
      = Some (after_start d x (after_stop (core \<sigma>)))"
    unfolding exec_append stop_run [OF assms] option.case
    by (rule start_run [OF assms(1) idle_after_stop])
       (simp add: after_stop_def removeUmsListeners_def)
  then show ?thesis by (simp add: restart_def ums_exec_life del: exec.simps list.map)
qed

lemma after_restart [simp]:
  "umsResponseHandler (this (after_start d x (after_stop c))) = []"
  "umsNotificationHandler (this (after_start d x (after_stop c))) = []"
  "started (this (after_start d x (after_stop c)))"
  "msg_listeners (this (after_start d x (after_stop c))) = Suc (msg_listeners (this c))"
  by (simp_all add: after_start_def after_stop_def removeUmsListeners_def removeAllListeners_def
      started_def clearRefreshTask_def)

text \<open>
  C26. A timeout outlives the session of its request: \<open>stop()\<close> forgets the listener of a pending
  request but neither settles it nor stops its timer. When the client is restarted and the id used
  again (ids need only be unique within one transport session), the old timer's cleanup removes the
  new request's listener: it stays pending, nothing is counted as pending, and its response is lost.
\<close>

theorem stale_timeout_drops_request:
  assumes "jsm_documented J" and "idle STARTED (core \<sigma>)" and "leSession (ums_this \<sigma>) = Some y"
    and "listenerCount i (umsResponseHandler (ums_this \<sigma>)) = 0" and "n = length (requests \<sigma>)"
  shows "\<exists>\<sigma>'. ums_exec J timeout (Send i # restart d x @ [Send i, Timer n, Catch n, Incoming (answer_to i)]) \<sigma>
      = Some \<sigma>'
    \<and> requests \<sigma>' = requests \<sigma> @
        [\<lparr>rq_id = i, rq_state = Failed (timed_out i timeout), rq_timer = False\<rparr>,
         \<lparr>rq_id = i, rq_state = Racing, rq_timer = True\<rparr>]
    \<and> pendingMessages \<sigma>' = 0"
proof -
  have st: "started (ums_this \<sigma>)" using assms(2) by (simp add: idle_def started_def)
  define \<sigma>1 where "\<sigma>1 = snd (ums_sendMessage i \<sigma>)"
  have s1: "requests \<sigma>1 = requests \<sigma> @ [\<lparr>rq_id = i, rq_state = Racing, rq_timer = True\<rparr>]"
    "idle STARTED (core \<sigma>1)" "leSession (ums_this \<sigma>1) = Some y"
    using assms(2-4) st
    by (simp_all add: \<sigma>1_def ums_sendMessage_def umsRequest_def checkStarted_def Let_def idle_def)
  define \<sigma>2 where "\<sigma>2 = \<sigma>1\<lparr>core := after_start d x (after_stop (core \<sigma>1))\<rparr>"
  have run: "ums_exec J timeout (restart d x) \<sigma>1 = Some \<sigma>2"
    unfolding \<sigma>2_def by (rule restart_run [OF assms(1) s1(2,3)])
  define \<sigma>3 where "\<sigma>3 = catch_rejection n (timed_out i timeout)
      (fire_timeout timeout n (snd (ums_sendMessage i \<sigma>2)))"
  have run3: "ums_exec J timeout [Send i, Timer n, Catch n] \<sigma>2 = Some \<sigma>3"
    using s1(1) assms(5)
    by (simp add: \<sigma>3_def \<sigma>2_def ums_sendMessage_def umsRequest_def ee.hs_count checkStarted_def
        Let_def fire_timeout_def settle_def nth_append)
  have s3: "requests \<sigma>3 = requests \<sigma> @
        [\<lparr>rq_id = i, rq_state = Failed (timed_out i timeout), rq_timer = False\<rparr>,
         \<lparr>rq_id = i, rq_state = Racing, rq_timer = True\<rparr>]"
      "umsResponseHandler (ums_this \<sigma>3) = []"
    using s1(1) assms(5)
    by (simp_all add: \<sigma>3_def \<sigma>2_def ums_sendMessage_def umsRequest_def ee.hs_count checkStarted_def
        Let_def fire_timeout_def settle_def nth_append catch_rejection_def removeAllListeners_def
        once_def set_handlers_def del_def list_update_append)
  have "snd (deliver m (answer_to i) \<sigma>3) = \<sigma>3" for m
    by (rule deliver_unknown [of _ i]) (simp_all add: answer_to_def prop_of_def s3)
  then have last: "ums_exec J timeout [Incoming (answer_to i)] \<sigma>3 = Some \<sigma>3" by simp
  have first: "ums_exec J timeout [Send i] \<sigma> = Some \<sigma>1" by (simp add: \<sigma>1_def)
  have "ums_exec J timeout ([Send i] @ restart d x @ [Send i, Timer n, Catch n] @ [Incoming (answer_to i)]) \<sigma>
      = Some \<sigma>3"
    by (simp only: ums_exec_append first run run3 last option.case)
  then show ?thesis
    using s3 by (intro exI [of _ \<sigma>3]) (simp add: pendingMessages_def eventNames_def del: ums_exec.simps)
qed

theorem stale_timeout_drops_request_witness:
  "\<exists>\<sigma>' :: (nat, nat) ums. ums_exec reference_jsm 5000
      (Send ''a'' # restart [] 8 @ [Send ''a'', Timer 0, Catch 0, Incoming (answer_to ''a'')]) running_ums = Some \<sigma>'
    \<and> length (requests \<sigma>') = 2 \<and> pendingMessages \<sigma>' = 0"
proof -
  have i: "idle STARTED (core running_ums)" "leSession (ums_this running_ums) = Some 7"
    "listenerCount ''a'' (umsResponseHandler (ums_this running_ums)) = 0" "0 = length (requests running_ums)"
    using running_ums_this
    by (simp_all add: running_ums_def started_ums_def idle_after_start ee.hs_count)
       (simp add: after_start_def)
  from stale_timeout_drops_request [OF reference_jsm_documented i, of 5000 "[]" 8]
  show ?thesis by (auto simp del: ums_exec.simps)
qed

text \<open>
  C25. A restart doubles the notifications: \<open>stop()\<close> does not take the message callback back from the
  transport and the next \<open>start()\<close> registers another one, so a notification that reached a subscriber
  once per message before the restart reaches it once more per message after it.
\<close>

theorem restart_doubles_notifications:
  assumes "jsm_documented J" and "idle STARTED (core \<sigma>)" and "leSession (ums_this \<sigma>) = Some y" and "t \<noteq> []"
  shows "\<exists>\<sigma>'. ums_exec J timeout (restart d x @ [Subscribe t cb]) \<sigma> = Some \<sigma>'
    \<and> listeners t (umsNotificationHandler (ums_this \<sigma>')) = [cb]
    \<and> deliver (msg_listeners (ums_this \<sigma>')) (notice t) \<sigma>' =
        (Return (replicate (Suc (msg_listeners (ums_this \<sigma>))) cb), \<sigma>')"
proof -
  define \<sigma>1 where "\<sigma>1 = \<sigma>\<lparr>core := after_start d x (after_stop (core \<sigma>))\<rparr>"
  define \<sigma>2 where "\<sigma>2 = snd (onNotification t cb \<sigma>1)"
  have first: "ums_exec J timeout (restart d x) \<sigma> = Some \<sigma>1"
    unfolding \<sigma>1_def by (rule restart_run [OF assms(1-3)])
  have last: "ums_exec J timeout [Subscribe t cb] \<sigma>1 = Some \<sigma>2" by (simp add: \<sigma>2_def)
  have s2: "umsNotificationHandler (ums_this \<sigma>2) = on t cb []"
    "msg_listeners (ums_this \<sigma>2) = Suc (msg_listeners (ums_this \<sigma>))"
    by (simp_all add: \<sigma>2_def \<sigma>1_def onNotification_def checkStarted_def)
  then have "emit t (umsNotificationHandler (ums_this \<sigma>2)) = (Return (True, [cb]), umsNotificationHandler (ums_this \<sigma>2))"
    using emit_permanent [of "on t cb []" t] by (simp add: ee.hs_on listeners_def)
  then have one: "on_message None (Some (notice t)) \<sigma>2 = (Return [cb], \<sigma>2)"
    using assms(4) by (simp add: on_message_def String_of_def with_this_def)
      (simp add: notice_def)
  have "deliver n (notice t) \<sigma>2 = (Return (replicate n cb), \<sigma>2)" for n
    by (induction n) (simp_all add: one)
  then have "deliver (msg_listeners (ums_this \<sigma>2)) (notice t) \<sigma>2 =
      (Return (replicate (Suc (msg_listeners (ums_this \<sigma>))) cb), \<sigma>2)"
    using s2(2) by metis
  moreover have "ums_exec J timeout (restart d x @ [Subscribe t cb]) \<sigma> = Some \<sigma>2"
    by (simp only: ums_exec_append first last option.case)
  ultimately show ?thesis using s2(1) by (simp add: listeners_def ee.hs_on del: deliver.simps)
qed

theorem restart_doubles_notifications_witness:
  "\<exists>\<sigma>' :: (nat, nat) ums. ums_exec reference_jsm 5000 (restart [] 8 @ [Subscribe ''a'' 3]) running_ums = Some \<sigma>'
    \<and> fst (deliver (msg_listeners (ums_this \<sigma>')) (notice ''a'') \<sigma>') = Return [3, 3]"
proof -
  have i: "idle STARTED (core running_ums)" "leSession (ums_this running_ums) = Some 7"
    by (simp_all add: running_ums_def started_ums_def idle_after_start) (simp add: after_start_def)
  have "Suc (msg_listeners (ums_this running_ums)) = 2" by simp
  then show ?thesis
    using restart_doubles_notifications [OF reference_jsm_documented i, of "''a''" 5000 "[]" 8 3]
    by (simp only: numeral_2_eq_2) auto
qed

end
