(* ===== verification/Ums_Generated.thy ===== *)
theory Ums_Generated
  imports Ums_Properties
begin

text \<open>
  \<open>packages/ums-generated/generated/index.ts\<close>: the event tables and the notification wrappers. The
  event interfaces of the generated file have no behaviour.
\<close>

section \<open>The generated tables\<close>

definition ConsumerRequestsEvent :: "(string \<times> string) list" where
  "ConsumerRequestsEvent =
     [(''InitConnection'', ''InitConnection''),
      (''UpdateConversationField'', ''cm.UpdateConversationField''),
      (''ConsumerRequestConversation'', ''cm.ConsumerRequestConversation''),
      (''PublishEvent'', ''ms.PublishEvent''),
      (''SubscribeMessagingEvents'', ''ms.SubscribeMessagingEvents''),
      (''SubscribeExConversations'', ''cqm.SubscribeExConversations''),
      (''UnsubscribeExConversations'', ''cqm.UnsubscribeExConversations'')]"

definition ConsumerRequestsEvents :: "string list" where
  "ConsumerRequestsEvents = [''InitConnection'', ''UpdateConversationField'', ''ConsumerRequestConversation'',
     ''PublishEvent'', ''SubscribeMessagingEvents'', ''SubscribeExConversations'', ''UnsubscribeExConversations'']"

definition ConsumerRequestsTypes :: "string list" where
  "ConsumerRequestsTypes = [''InitConnection'', ''cm.UpdateConversationField'', ''cm.ConsumerRequestConversation'',
     ''ms.PublishEvent'', ''ms.SubscribeMessagingEvents'', ''cqm.SubscribeExConversations'', ''cqm.UnsubscribeExConversations'']"

definition ConsumerResponsesEvent :: "(string \<times> string) list" where
  "ConsumerResponsesEvent =
     [(''RequestConversationResponse'', ''cm.RequestConversationResponse''),
      (''StringResp'', ''.ReqBody$StringResp''),
      (''PublishEventResponse'', ''ms.PublishEventResponse''),
      (''GenericSubscribeResponse'', ''GenericSubscribeResponse''),
      (''SubscribeExConversationsResponse'', ''cqm.SubscribeExConversationsResponse'')]"

definition ConsumerResponsesEvents :: "string list" where
  "ConsumerResponsesEvents = [''RequestConversationResponse'', ''StringResp'', ''PublishEventResponse'',
     ''GenericSubscribeResponse'', ''SubscribeExConversationsResponse'']"

definition ConsumerResponsesTypes :: "string list" where
  "ConsumerResponsesTypes = [''cm.RequestConversationResponse'', ''.ReqBody$StringResp'', ''ms.PublishEventResponse'',
     ''GenericSubscribeResponse'', ''cqm.SubscribeExConversationsResponse'']"

definition ConsumerNotificationsEvent :: "(string \<times> string) list" where
  "ConsumerNotificationsEvent =
     [(''MessagingEventNotification'', ''ms.MessagingEventNotification''),
      (''ExConversationChangeNotification'', ''cqm.ExConversationChangeNotification'')]"

definition ConsumerNotificationsEvents :: "string list" where
  "ConsumerNotificationsEvents = [''MessagingEventNotification'', ''ExConversationChangeNotification'']"

definition ConsumerNotificationsTypes :: "string list" where
  "ConsumerNotificationsTypes = [''ms.MessagingEventNotification'', ''cqm.ExConversationChangeNotification'']"

definition AgentResponsesEvent :: "(string \<times> string) list" where
  "AgentResponsesEvent =
     [(''RequestConversationResponse'', ''cm.RequestConversationResponse''),
      (''StringResp'', ''.ReqBody$StringResp''),
      (''PublishEventResponse'', ''ms.PublishEventResponse''),
      (''GenericSubscribeResponse'', ''GenericSubscribeResponse''),
      (''GetUserProfileResponse'', ''up.GetUserProfile$Response''),
      (''SubscribeExConversationsResponse'', ''cqm.SubscribeExConversationsResponse'')]"

definition AgentResponsesEvents :: "string list" where
  "AgentResponsesEvents = [''RequestConversationResponse'', ''StringResp'', ''PublishEventResponse'',
     ''GenericSubscribeResponse'', ''GetUserProfileResponse'', ''SubscribeExConversationsResponse'']"

definition AgentResponsesTypes :: "string list" where
  "AgentResponsesTypes = [''cm.RequestConversationResponse'', ''.ReqBody$StringResp'', ''ms.PublishEventResponse'',
     ''GenericSubscribeResponse'', ''up.GetUserProfile$Response'', ''cqm.SubscribeExConversationsResponse'']"

definition AgentNotificationsEvent :: "(string \<times> string) list" where
  "AgentNotificationsEvent =
     [(''MessagingEventNotification'', ''ms.MessagingEventNotification''),
      (''ExConversationChangeNotification'', ''cqm.ExConversationChangeNotification''),
      (''routingTaskNotification'', ''routing.routingTaskNotification''),
      (''agentStateNotification'', ''routing.agentStateNotification'')]"

definition AgentNotificationsEvents :: "string list" where
  "AgentNotificationsEvents = [''MessagingEventNotification'', ''ExConversationChangeNotification'',
     ''routingTaskNotification'', ''agentStateNotification'']"

definition AgentNotificationsTypes :: "string list" where
  "AgentNotificationsTypes = [''ms.MessagingEventNotification'', ''cqm.ExConversationChangeNotification'',
     ''routing.routingTaskNotification'', ''routing.agentStateNotification'']"

lemmas event_table_defs =
  ConsumerRequestsEvent_def ConsumerRequestsEvents_def ConsumerRequestsTypes_def
  ConsumerResponsesEvent_def ConsumerResponsesEvents_def ConsumerResponsesTypes_def
  ConsumerNotificationsEvent_def ConsumerNotificationsEvents_def ConsumerNotificationsTypes_def
  AgentResponsesEvent_def AgentResponsesEvents_def AgentResponsesTypes_def
  AgentNotificationsEvent_def AgentNotificationsEvents_def AgentNotificationsTypes_def

section \<open>The wrappers\<close>

definition consumer_onMessagingEventNotification ::
  "'n \<Rightarrow> ('s, 'n) ums \<Rightarrow> (js_error + unit) \<times> ('s, 'n) ums" where
  "consumer_onMessagingEventNotification cb \<sigma> =
     onNotification (the (map_of ConsumerNotificationsEvent ''MessagingEventNotification'')) cb \<sigma>"

definition consumer_onExConversationChangeNotification ::
  "'n \<Rightarrow> ('s, 'n) ums \<Rightarrow> (js_error + unit) \<times> ('s, 'n) ums" where
  "consumer_onExConversationChangeNotification cb \<sigma> =
     onNotification (the (map_of ConsumerNotificationsEvent ''ExConversationChangeNotification'')) cb \<sigma>"

definition agent_onMessagingEventNotification ::
  "'n \<Rightarrow> ('s, 'n) ums \<Rightarrow> (js_error + unit) \<times> ('s, 'n) ums" where
  "agent_onMessagingEventNotification cb \<sigma> =
     onNotification (the (map_of AgentNotificationsEvent ''MessagingEventNotification'')) cb \<sigma>"

definition agent_onExConversationChangeNotification ::
  "'n \<Rightarrow> ('s, 'n) ums \<Rightarrow> (js_error + unit) \<times> ('s, 'n) ums" where
  "agent_onExConversationChangeNotification cb \<sigma> =
     onNotification (the (map_of AgentNotificationsEvent ''ExConversationChangeNotification'')) cb \<sigma>"

definition agent_onRoutingTaskNotification ::
  "'n \<Rightarrow> ('s, 'n) ums \<Rightarrow> (js_error + unit) \<times> ('s, 'n) ums" where
  "agent_onRoutingTaskNotification cb \<sigma> =
     onNotification (the (map_of AgentNotificationsEvent ''routingTaskNotification'')) cb \<sigma>"

definition agent_onAgentStateNotification ::
  "'n \<Rightarrow> ('s, 'n) ums \<Rightarrow> (js_error + unit) \<times> ('s, 'n) ums" where
  "agent_onAgentStateNotification cb \<sigma> =
     onNotification (the (map_of AgentNotificationsEvent ''agentStateNotification'')) cb \<sigma>"

text \<open>The wrapper methods and the types their names stand for.\<close>

definition wrapper_methods :: "(('n \<Rightarrow> ('s, 'n) ums \<Rightarrow> (js_error + unit) \<times> ('s, 'n) ums) \<times> string) list" where
  "wrapper_methods =
     [(consumer_onMessagingEventNotification, ''ms.MessagingEventNotification''),
      (consumer_onExConversationChangeNotification, ''cqm.ExConversationChangeNotification''),
      (agent_onMessagingEventNotification, ''ms.MessagingEventNotification''),
      (agent_onExConversationChangeNotification, ''cqm.ExConversationChangeNotification''),
      (agent_onRoutingTaskNotification, ''routing.routingTaskNotification''),
      (agent_onAgentStateNotification, ''routing.agentStateNotification'')]"

lemma wrapper_is_subscription:
  assumes "(f, t) \<in> set wrapper_methods"
  shows "f cb \<sigma> = onNotification t cb \<sigma>" and "t \<noteq> []"
  using assms
  by (auto simp: wrapper_methods_def consumer_onMessagingEventNotification_def
      consumer_onExConversationChangeNotification_def agent_onMessagingEventNotification_def
      agent_onExConversationChangeNotification_def agent_onRoutingTaskNotification_def
      agent_onAgentStateNotification_def ConsumerNotificationsEvent_def AgentNotificationsEvent_def)

text \<open>What a wrapper method does to a started client.\<close>

lemma wrapper_subscribed:
  assumes "jsm_documented J" and "ums_reachable J timeout \<sigma>" and "started (ums_this \<sigma>)"
    and "(f, t) \<in> set wrapper_methods"
  shows "\<exists>\<sigma>'. f cb \<sigma> = (Return (), \<sigma>') \<and> notifications_ok (umsNotificationHandler (ums_this \<sigma>'))
    \<and> (\<forall>u. listeners u (umsNotificationHandler (ums_this \<sigma>')) =
        (if u = t then listeners u (umsNotificationHandler (ums_this \<sigma>)) @ [cb]
         else listeners u (umsNotificationHandler (ums_this \<sigma>))))"
proof -
  note w = wrapper_is_subscription(1) [OF assms(4), of cb \<sigma>]
  obtain \<sigma>' where \<sigma>': "f cb \<sigma> = (Return (), \<sigma>')"
    "umsNotificationHandler (ums_this \<sigma>') = on t cb (umsNotificationHandler (ums_this \<sigma>))"
    using assms(3) by (simp add: w onNotification_def checkStarted_def)
  have "ums_step J timeout (Subscribe t cb) \<sigma> = Some \<sigma>'" using \<sigma>'(1) w by simp
  then have "ums_reachable J timeout \<sigma>'" by (rule ums_reachable.step [OF assms(2)])
  then have "notifications_ok (umsNotificationHandler (ums_this \<sigma>'))"
    using ums_reachable_inv [of J timeout \<sigma>'] assms(1) by (simp add: ums_inv_def)
  then show ?thesis using \<sigma>' by (simp add: listeners_def ee.hs_on)
qed

text \<open>
  Each wrapper method subscribes to the notifications its name says: on a started client the
  callback is added after the earlier subscribers of that type, a notification of the type then
  reaches all of them, and the subscribers of every other type are as before.
\<close>

theorem wrappers_subscribe:
  assumes "jsm_documented J" and "ums_reachable J timeout \<sigma>" and "started (ums_this \<sigma>)"
    and "(f, t) \<in> set wrapper_methods"
  shows "\<exists>\<sigma>'. f cb \<sigma> = (Return (), \<sigma>')
    \<and> on_message None (Some (notice t)) \<sigma>' = (Return (listeners t (umsNotificationHandler (ums_this \<sigma>)) @ [cb]), \<sigma>')
    \<and> (\<forall>u. u \<noteq> t \<longrightarrow> listeners u (umsNotificationHandler (ums_this \<sigma>')) = listeners u (umsNotificationHandler (ums_this \<sigma>)))"
proof -
  from wrapper_subscribed [OF assms] obtain \<sigma>' where \<sigma>': "f cb \<sigma> = (Return (), \<sigma>')"
    and ok: "notifications_ok (umsNotificationHandler (ums_this \<sigma>'))"
    and ls: "\<And>u. listeners u (umsNotificationHandler (ums_this \<sigma>')) =
      (if u = t then listeners u (umsNotificationHandler (ums_this \<sigma>)) @ [cb]
       else listeners u (umsNotificationHandler (ums_this \<sigma>)))" by blast
  have "on_message None (Some (notice t)) \<sigma>' = (Return (listeners t (umsNotificationHandler (ums_this \<sigma>'))), \<sigma>')"
    by (rule notification_emitted [OF ok]) (simp_all add: wrapper_is_subscription(2) [OF assms(4)] ls)
  then show ?thesis using \<sigma>' ls by simp
qed

theorem wrappers_subscribe_witness:
  "\<exists>\<sigma>'. agent_onRoutingTaskNotification 3 running_ums = (Return (), \<sigma>')
    \<and> fst (on_message None (Some (notice ''routing.routingTaskNotification'')) \<sigma>') = Return [3]"
proof -
  have s: "started (ums_this running_ums)" by (simp add: running_ums_def started_ums_def after_start_def started_def)
  have m: "(agent_onRoutingTaskNotification, ''routing.routingTaskNotification'') \<in> set wrapper_methods"
    by (simp add: wrapper_methods_def)
  have e: "listeners u (umsNotificationHandler (ums_this running_ums)) = []" for u
    by (simp add: listeners_def)
  from wrappers_subscribe [OF reference_jsm_documented running_ums_reachable s m, of 3] e show ?thesis by auto
qed

end
