(* ===== verification/Interface_Generator.thy ===== *)
theory Interface_Generator
  imports Json
begin

text \<open>
  \<open>packages/ums-generated/build/generate_interfaces.ts\<close>: the generator of \<open>generated/index.ts\<close>.

  The source file of the \<open>ts-simple-ast\<close> package is what the generator has told it: the declarations
  it added, in order, as the structures of that package, and the heads of all interfaces, the compiled
  ones and the added ones, each with the interfaces it extends. Printing and formatting them is the
  package's. A schema is the list of the titles and type names of its alternatives, which is all the
  generator reads of it. Names of things (\<open>pascalCase\<close>), fetching, merging and compiling schemas are
  the packages' and parameters here.
\<close>

section \<open>Structures\<close>

record method_structure =
  method_name :: string
  method_typeParameters :: "(string \<times> string) list"
  method_parameters :: "(string \<times> string) list"
  bodyText :: "string option"
  returnType :: string

record interface_structure =
  interface_name :: string
  interface_extends :: "string list"
  interface_typeParameters :: "(string \<times> string) list"
  properties :: "(string \<times> string) list"
  interface_methods :: "method_structure list"
  interface_isExported :: bool

record type_alias_structure =
  alias_name :: string
  alias_typeParameters :: "(string \<times> string) list"
  alias_type :: string
  alias_isExported :: bool

record enum_structure =
  enum_name :: string
  enum_isConst :: bool
  enum_members :: "(string \<times> string) list"
  enum_isExported :: bool

text \<open>A constructor is its parameters, each with whether it is a rest parameter, and its body.\<close>

record class_structure =
  class_name :: string
  class_extends :: string
  class_implements :: "string list"
  class_ctor :: "(string \<times> bool) list \<times> string"
  class_methods :: "method_structure list"

text \<open>A function's body is the classes added to it, then its statements.\<close>

record function_structure =
  function_name :: string
  function_typeParameters :: "(string \<times> string) list"
  function_parameters :: "(string \<times> string) list"
  function_returnType :: string
  function_isExported :: bool
  function_classes :: "class_structure list"
  function_statements :: "string list"

text \<open>The one kind of variable statement the generator asks for.\<close>

datatype declaration_kind = Const

record variable_structure =
  variable_declarations :: "(string \<times> string) list"
  declarationKind :: declaration_kind
  variable_isExported :: bool

datatype file_declaration =
    ImportDeclaration string "string list"
  | InterfaceDeclaration interface_structure
  | TypeAliasDeclaration type_alias_structure
  | EnumDeclaration enum_structure
  | VariableStatement variable_structure
  | FunctionDeclaration function_structure

section \<open>The source file\<close>

record source_file =
  declarations :: "file_declaration list"
  heads :: "(string \<times> string list) list"

text \<open>What an \<open>OrThrow\<close> operation throws.\<close>

datatype missing =
    NoInterface string
  | NoTypeAlias string
  | NoEnum string
  | NoMember string

definition add_declaration :: "file_declaration \<Rightarrow> source_file \<Rightarrow> source_file" where
  "add_declaration d file = file\<lparr>declarations := declarations file @ [d]\<rparr>"

text \<open>An interface has signatures only: the bodies of its methods are not part of it.\<close>

definition signature :: "method_structure \<Rightarrow> method_structure" where
  "signature m = m\<lparr>bodyText := None\<rparr>"

definition addInterface :: "interface_structure \<Rightarrow> source_file \<Rightarrow> source_file" where
  "addInterface s file =
     file\<lparr>declarations := declarations file @ [InterfaceDeclaration (s\<lparr>interface_methods := map signature (interface_methods s)\<rparr>)],
          heads := heads file @ [(interface_name s, interface_extends s)]\<rparr>"

text \<open>\<open>getInterfaceOrThrow\<close>, with what the interface extends so far (\<open>getExtends\<close>).\<close>

definition getInterfaceOrThrow :: "string \<Rightarrow> source_file \<Rightarrow> missing + string list" where
  "getInterfaceOrThrow name file =
     (case map_of (heads file) name of None \<Rightarrow> Throw (NoInterface name) | Some parents \<Rightarrow> Return parents)"

definition addExtends :: "string \<Rightarrow> string list \<Rightarrow> source_file \<Rightarrow> source_file" where
  "addExtends name parents file =
     (case map_of (heads file) name of
        None \<Rightarrow> file
      | Some old \<Rightarrow> file\<lparr>heads := put name (old @ parents) (heads file)\<rparr>)"

definition is_alias :: "string \<Rightarrow> file_declaration \<Rightarrow> bool" where
  "is_alias name d = (case d of TypeAliasDeclaration a \<Rightarrow> alias_name a = name | _ \<Rightarrow> False)"

text \<open>\<open>getTypeAliasOrThrow(name).getName()\<close>.\<close>

definition getTypeAliasOrThrow :: "string \<Rightarrow> source_file \<Rightarrow> missing + string" where
  "getTypeAliasOrThrow name file =
     (if list_ex (is_alias name) (declarations file) then Return name else Throw (NoTypeAlias name))"

fun find_enum :: "string \<Rightarrow> file_declaration list \<Rightarrow> enum_structure option" where
  "find_enum name [] = None"
| "find_enum name (EnumDeclaration s # ds) = (if enum_name s = name then Some s else find_enum name ds)"
| "find_enum name (_ # ds) = find_enum name ds"

definition getEnumOrThrow :: "string \<Rightarrow> source_file \<Rightarrow> missing + enum_structure" where
  "getEnumOrThrow name file =
     (case find_enum name (declarations file) of None \<Rightarrow> Throw (NoEnum name) | Some s \<Rightarrow> Return s)"

text \<open>\<open>getMemberOrThrow(name).getName()\<close>.\<close>

definition getMemberOrThrow :: "enum_structure \<Rightarrow> string \<Rightarrow> missing + string" where
  "getMemberOrThrow s name =
     (if name \<in> set (map fst (enum_members s)) then Return name else Throw (NoMember name))"

section \<open>Texts\<close>

definition header :: string where
  "header = ''/* tslint:disable */'' @ [CHR 0x0A, CHR 0x0A]"

definition autogeneratedBanner :: string where
  "autogeneratedBanner = ''/** THIS FILE IS AUTOGENERATED FROM THE UMS JSON SCHEMA FILES. DO NOT EDIT MANUALLY. */''"

definition notificationTypeName :: string where "notificationTypeName = ''INotificationType''"
definition notificationTypesName :: string where "notificationTypesName = ''INotificationsType''"
definition notificationHandlerName :: string where "notificationHandlerName = ''INotificationHandler''"
definition onNotificationFnName :: string where "onNotificationFnName = ''onNotification''"
definition sendMessageHandlerName :: string where "sendMessageHandlerName = ''ISendHandler''"
definition sendMessageFnName :: string where "sendMessageFnName = ''sendMessage''"
definition iResponseTypeName :: string where "iResponseTypeName = ''IResponseType''"
definition iSendTypeName :: string where "iSendTypeName = ''ISendType''"

lemmas name_defs = notificationTypeName_def notificationTypesName_def notificationHandlerName_def
  onNotificationFnName_def sendMessageHandlerName_def sendMessageFnName_def iResponseTypeName_def iSendTypeName_def

definition quoted :: "string \<Rightarrow> string" where
  "quoted s = [CHR 0x22] @ s @ [CHR 0x22]"

definition initializer_of :: "string list \<Rightarrow> string" where
  "initializer_of xs = ''['' @ intercalate '', '' (map quoted xs) @ '']''"

section \<open>What every schema contributes\<close>

type_synonym schema = "(string \<times> string) list"

definition queryEvents :: "schema \<Rightarrow> string list" where
  "queryEvents schema = map fst schema"

definition queryEventName :: "schema \<Rightarrow> string \<Rightarrow> string" where
  "queryEventName schema event = the (map_of schema event)"

text \<open>The interface of each event comes to extend \<open>interfaceName\<close>, unless it extends something already.\<close>

fun extend_events :: "string \<Rightarrow> string list \<Rightarrow> source_file \<Rightarrow> missing + source_file" where
  "extend_events interfaceName [] file = Return file"
| "extend_events interfaceName (event # events) file =
     (case getInterfaceOrThrow event file of
        Throw e \<Rightarrow> Throw e
      | Return parents \<Rightarrow>
          extend_events interfaceName events
            (if parents = [] then addExtends event [interfaceName] file else file))"

text \<open>The declarations \<open>commonData\<close> adds: the union of the events, the enum, the map from type names to
  events, the union of the type names, and the two constants.\<close>

definition event_declarations ::
  "(string \<Rightarrow> string) \<Rightarrow> string \<Rightarrow> string list \<Rightarrow> (string \<times> string) list \<Rightarrow> source_file \<Rightarrow> source_file" where
  "event_declarations pascalCase base events mappings file =
     add_declaration (VariableStatement
       \<lparr>variable_declarations = [(base @ ''Events'', initializer_of events), (base @ ''Types'', initializer_of (map snd mappings))],
        declarationKind = Const, variable_isExported = True\<rparr>)
     (add_declaration (TypeAliasDeclaration
       \<lparr>alias_name = base @ ''Type'', alias_typeParameters = [],
        alias_type = intercalate '' | '' (map (\<lambda>(event, name). quoted name) mappings), alias_isExported = True\<rparr>)
     (addInterface
       \<lparr>interface_name = ''I'' @ base @ ''Type'', interface_extends = [], interface_typeParameters = [],
        properties = map (\<lambda>(event, name). (quoted name, pascalCase event)) mappings,
        interface_methods = [], interface_isExported = True\<rparr>
     (add_declaration (EnumDeclaration
       \<lparr>enum_name = base @ ''Event'', enum_isConst = True, enum_members = mappings, enum_isExported = True\<rparr>)
     (add_declaration (TypeAliasDeclaration
       \<lparr>alias_name = base, alias_typeParameters = [],
        alias_type = intercalate '' | '' (map pascalCase events), alias_isExported = True\<rparr>) file))))"

definition commonData ::
  "(string \<Rightarrow> string) \<Rightarrow> source_file \<Rightarrow> string \<Rightarrow> schema \<Rightarrow> string \<Rightarrow> missing + (string list \<times> source_file)" where
  "commonData pascalCase file baseName schema interfaceName =
     (let events = queryEvents schema;
          mappings = map (\<lambda>event. (event, queryEventName schema event)) events
      in case getInterfaceOrThrow interfaceName file of
           Throw e \<Rightarrow> Throw e
         | Return _ \<Rightarrow>
             (case extend_events interfaceName (map pascalCase events) file of
                Throw e \<Rightarrow> Throw e
              | Return file' \<Rightarrow>
                  Return (events, event_declarations pascalCase (pascalCase baseName) events mappings file')))"

section \<open>The wrapper of the notifications\<close>

definition wrapper_ctor :: "(string \<times> bool) list \<times> string" where
  "wrapper_ctor = ([(''args'', True)], ''super(...args);'')"

fun notification_methods ::
  "(string \<Rightarrow> string) \<Rightarrow> enum_structure \<Rightarrow> string list \<Rightarrow> missing + method_structure list" where
  "notification_methods pascalCase notificationEvent [] = Return []"
| "notification_methods pascalCase notificationEvent (event # events) =
     (case getMemberOrThrow notificationEvent event of
        Throw e \<Rightarrow> Throw e
      | Return member \<Rightarrow>
          (case notification_methods pascalCase notificationEvent events of
             Throw e \<Rightarrow> Throw e
           | Return methods \<Rightarrow>
               Return (\<lparr>method_name = ''on'' @ pascalCase event, method_typeParameters = [],
                        method_parameters = [(''cb'', ''(notification: '' @ pascalCase event @ '') => void'')],
                        bodyText = Some (''this.'' @ onNotificationFnName @ ''('' @ enum_name notificationEvent
                          @ ''.'' @ member @ '', cb);''),
                        returnType = ''void''\<rparr> # methods)))"

definition constructor_alias :: "string \<Rightarrow> string \<Rightarrow> type_alias_structure" where
  "constructor_alias baseName typeConstraint =
     \<lparr>alias_name = baseName @ ''Constructor'', alias_typeParameters = [(''T'', typeConstraint)],
      alias_type = ''new(...args: any[]) => T'', alias_isExported = True\<rparr>"

definition wrapper_constructor_alias :: "string \<Rightarrow> type_alias_structure" where
  "wrapper_constructor_alias baseName =
     \<lparr>alias_name = baseName @ ''WrapperConstructor'', alias_typeParameters = [],
      alias_type = ''new(...args: any[]) => I'' @ baseName @ ''Wrapper'', alias_isExported = True\<rparr>"

definition wrapper_interface :: "string \<Rightarrow> method_structure list \<Rightarrow> interface_structure" where
  "wrapper_interface baseName methods =
     \<lparr>interface_name = ''I'' @ baseName @ ''Wrapper'', interface_extends = [], interface_typeParameters = [],
      properties = [], interface_methods = methods, interface_isExported = True\<rparr>"

definition wrapper_function :: "string \<Rightarrow> string \<Rightarrow> method_structure list \<Rightarrow> function_structure" where
  "wrapper_function baseName typeConstraint methods =
     \<lparr>function_name = ''wrap'' @ baseName,
      function_typeParameters = [(''T'', baseName @ ''Constructor<'' @ typeConstraint @ ''>'')],
      function_parameters = [(''Base'', ''T'')],
      function_returnType = ''T & '' @ baseName @ ''WrapperConstructor'',
      function_isExported = True,
      function_classes =
        [\<lparr>class_name = baseName @ ''Wrapper'', class_extends = ''Base'',
          class_implements = [''I'' @ baseName @ ''Wrapper''], class_ctor = wrapper_ctor, class_methods = methods\<rparr>],
      function_statements = [''return '' @ baseName @ ''Wrapper;'']\<rparr>"

definition customNotificationData ::
  "(string \<Rightarrow> string) \<Rightarrow> source_file \<Rightarrow> string \<Rightarrow> schema \<Rightarrow> missing + source_file" where
  "customNotificationData pascalCase file baseName schema =
     (case commonData pascalCase file baseName schema notificationTypeName of
        Throw e \<Rightarrow> Throw e
      | Return (events, file1) \<Rightarrow>
     (case getTypeAliasOrThrow baseName file1 of
        Throw e \<Rightarrow> Throw e
      | Return notifications \<Rightarrow>
     (case getEnumOrThrow (baseName @ ''Event'') file1 of
        Throw e \<Rightarrow> Throw e
      | Return notificationEvent \<Rightarrow>
     (case getInterfaceOrThrow (''I'' @ baseName @ ''Type'') file1 of
        Throw e \<Rightarrow> Throw e
      | Return _ \<Rightarrow>
          (let notificationType = ''I'' @ baseName @ ''Type'';
               file2 = addExtends notificationType [notificationTypesName @ ''<'' @ notifications @ ''>''] file1;
               typeConstraint = notificationHandlerName @ ''<'' @ notificationType @ '', '' @ notifications @ ''>'';
               file3 = add_declaration (TypeAliasDeclaration (constructor_alias baseName typeConstraint)) file2;
               file4 = add_declaration (TypeAliasDeclaration (wrapper_constructor_alias baseName)) file3
           in case notification_methods pascalCase notificationEvent events of
                Throw e \<Rightarrow> Throw e
              | Return methods \<Rightarrow>
                  Return (add_declaration (FunctionDeclaration (wrapper_function baseName typeConstraint methods))
                    (addInterface (wrapper_interface baseName methods) file4)))))))"

section \<open>Requests and responses\<close>

definition customConsumerRequestData ::
  "(string \<Rightarrow> string) \<Rightarrow> source_file \<Rightarrow> string \<Rightarrow> schema \<Rightarrow> missing + source_file" where
  "customConsumerRequestData pascalCase file baseName schema =
     (case commonData pascalCase file baseName schema iSendTypeName of
        Throw e \<Rightarrow> Throw e
      | Return (_, file') \<Rightarrow> Return file')"

text \<open>Which response answers which request.\<close>

definition response_mapping :: "(string \<times> string) list" where
  "response_mapping =
     [(''InitConnection'', ''StringResp''),
      (''UpdateConversationField'', ''StringResp''),
      (''ConsumerRequestConversation'', ''RequestConversationResponse''),
      (''PublishEvent'', ''PublishEventResponse''),
      (''SubscribeMessagingEvents'', ''GenericSubscribeResponse''),
      (''SubscribeExConversations'', ''SubscribeExConversationsResponse''),
      (''UnsubscribeExConversations'', ''StringResp'')]"

definition request_method :: "(string \<Rightarrow> string) \<Rightarrow> string \<times> string \<Rightarrow> method_structure" where
  "request_method pascalCase entry =
     (let (req, res) = entry
      in \<lparr>method_name = ''do'' @ pascalCase req, method_typeParameters = [],
          method_parameters = [(''data'', ''Omit<'' @ req @ '', '' @ quoted ''type'' @ ''>'')],
          bodyText = Some (''return this.'' @ sendMessageFnName @ ''(Object.assign(data, { type: ConsumerRequestsEvent.''
            @ req @ '' }) as '' @ req @ '');''),
          returnType = ''Promise<'' @ res @ ''>''\<rparr>)"

text \<open>The wrapping function of the requests is prepared and not added.\<close>

definition customConsumerResponseData ::
  "(string \<Rightarrow> string) \<Rightarrow> source_file \<Rightarrow> string \<Rightarrow> schema \<Rightarrow> missing + source_file" where
  "customConsumerResponseData pascalCase file baseName schema =
     (case commonData pascalCase file baseName schema iResponseTypeName of
        Throw e \<Rightarrow> Throw e
      | Return (_, file1) \<Rightarrow>
          (let methods = map (request_method pascalCase) response_mapping;
               file2 = addInterface (wrapper_interface baseName methods) file1;
               typeConstraint = sendMessageHandlerName @ ''<ConsumerRequests, '' @ baseName @ ''>'';
               file3 = add_declaration (TypeAliasDeclaration (constructor_alias baseName typeConstraint)) file2
           in Return (add_declaration (TypeAliasDeclaration (wrapper_constructor_alias baseName)) file3)))"

definition customAgentResponseData ::
  "(string \<Rightarrow> string) \<Rightarrow> source_file \<Rightarrow> string \<Rightarrow> schema \<Rightarrow> missing + source_file" where
  "customAgentResponseData pascalCase file baseName schema =
     (case commonData pascalCase file baseName schema iResponseTypeName of
        Throw e \<Rightarrow> Throw e
      | Return (_, file') \<Rightarrow> Return file')"

section \<open>The generic typings\<close>

definition plain_interface :: "string \<Rightarrow> string list \<Rightarrow> (string \<times> string) list \<Rightarrow> interface_structure" where
  "plain_interface name parents props =
     \<lparr>interface_name = name, interface_extends = parents, interface_typeParameters = [],
      properties = props, interface_methods = [], interface_isExported = True\<rparr>"

definition notification_handler_interface :: interface_structure where
  "notification_handler_interface =
     \<lparr>interface_name = notificationHandlerName, interface_extends = [],
      interface_typeParameters =
        [(''NotificationTypes'', notificationTypesName @ ''<NotificationType>''), (''NotificationType'', notificationTypeName)],
      properties = [],
      interface_methods =
        [\<lparr>method_name = onNotificationFnName,
          method_typeParameters = [(''K'', ''keyof NotificationTypes'')],
          method_parameters =
            [(''notificationType'', ''K''), (''cb'', ''(notification: NotificationTypes[K]) => void'')],
          bodyText = None, returnType = ''void''\<rparr>],
      interface_isExported = True\<rparr>"

definition send_handler_interface :: interface_structure where
  "send_handler_interface =
     \<lparr>interface_name = sendMessageHandlerName, interface_extends = [],
      interface_typeParameters = [(''SendType'', iSendTypeName), (''ResponseType'', iResponseTypeName)],
      properties = [],
      interface_methods =
        [\<lparr>method_name = sendMessageFnName, method_typeParameters = [],
          method_parameters = [(''req'', ''SendType'')], bodyText = None, returnType = ''Promise<ResponseType>''\<rparr>],
      interface_isExported = True\<rparr>"

definition generateGenericTypings :: "source_file \<Rightarrow> source_file" where
  "generateGenericTypings file =
     addInterface send_handler_interface
     (addInterface notification_handler_interface
     (add_declaration (TypeAliasDeclaration
       \<lparr>alias_name = notificationTypesName, alias_typeParameters = [(''NotificationType'', notificationTypeName)],
        alias_type = ''{ [key: string]: NotificationType }'', alias_isExported = True\<rparr>)
     (addInterface (plain_interface notificationTypeName [''ITyped''] [])
     (addInterface (plain_interface iResponseTypeName [''ITyped''] [(''reqId'', ''string'')])
     (addInterface (plain_interface iSendTypeName [''ITyped''] [(''id'', ''string'')])
     (addInterface (plain_interface ''ITyped'' [] [(''type'', ''string'')])
     (add_declaration (ImportDeclaration ''type-zoo'' [''Omit'']) file)))))))"

section \<open>The whole run\<close>

datatype generator_fn =
    RequestData
  | ResponseData
  | NotificationData
  | AgentResponseData

fun apply_generator ::
  "generator_fn \<Rightarrow> (string \<Rightarrow> string) \<Rightarrow> source_file \<Rightarrow> string \<Rightarrow> schema \<Rightarrow> missing + source_file" where
  "apply_generator RequestData = customConsumerRequestData"
| "apply_generator ResponseData = customConsumerResponseData"
| "apply_generator NotificationData = customNotificationData"
| "apply_generator AgentResponseData = customAgentResponseData"

definition jsonSchemaUrls :: "(string \<times> generator_fn) list" where
  "jsonSchemaUrls =
     [(''https://developers.liveperson.com/assets/schema/ws/consumerRequests.json'', RequestData),
      (''https://developers.liveperson.com/assets/schema/ws/consumerResponses.json'', ResponseData),
      (''https://developers.liveperson.com/assets/schema/ws/consumerNotifications.json'', NotificationData),
      (''https://developers.liveperson.com/assets/schema/ws/agentResponses.json'', AgentResponseData),
      (''https://developers.liveperson.com/assets/schema/ws/agentNotifications.json'', NotificationData)]"

text \<open>\<open>basename(url, extname(url))\<close>: the last segment, without its extension, which starts at the last
  dot unless that is the segment's first character.\<close>

definition url_basename :: "string \<Rightarrow> string" where
  "url_basename url =
     (let segment = rev (takeWhile (\<lambda>c. c \<noteq> CHR ''/'') (rev url))
      in if CHR ''.'' \<in> set (tl segment)
         then rev (tl (dropWhile (\<lambda>c. c \<noteq> CHR ''.'') (rev segment)))
         else segment)"

fun run_generators ::
  "(string \<Rightarrow> string) \<Rightarrow> ((string \<times> generator_fn) \<times> schema) list \<Rightarrow> source_file \<Rightarrow> missing + source_file" where
  "run_generators pascalCase [] file = Return file"
| "run_generators pascalCase (((url, fn), schema) # schemaTypes) file =
     (case apply_generator fn pascalCase file (pascalCase (url_basename url)) schema of
        Throw e \<Rightarrow> Throw e
      | Return file' \<Rightarrow> run_generators pascalCase schemaTypes file')"

text \<open>
  The immediately invoked function at the end of the script. \<open>fetch\<close> dereferences a schema, \<open>merge\<close>
  merges the alternatives of all of them and \<open>compile\<close> makes the interfaces of the merged schema; each
  may fail. Where several fetches fail, the error is the one of the first in the list. The disk has the merged schema and the generated file. A failure is caught, so
  what the function returns is the error, if there was one.
\<close>

record 'm disk =
  ums_schema :: "'m option"
  index_file :: "(string \<times> source_file) option"

datatype 'e failure = Package 'e | Missing missing

fun fetch_all :: "(string \<Rightarrow> 'e + schema) \<Rightarrow> (string \<times> generator_fn) list \<Rightarrow> 'e + ((string \<times> generator_fn) \<times> schema) list" where
  "fetch_all fetch [] = Return []"
| "fetch_all fetch ((url, fn) # schemaTypes) =
     (case fetch url of
        Throw e \<Rightarrow> Throw e
      | Return schema \<Rightarrow>
          (case fetch_all fetch schemaTypes of
             Throw e \<Rightarrow> Throw e
           | Return rest \<Rightarrow> Return (((url, fn), schema) # rest)))"

definition generate_interfaces ::
  "(string \<Rightarrow> string) \<Rightarrow> (string \<Rightarrow> 'e + schema) \<Rightarrow> (schema \<Rightarrow> 'e + 'm) \<Rightarrow> ('m \<Rightarrow> 'e + (string \<times> string list) list)
    \<Rightarrow> 'm disk \<Rightarrow> 'e failure option \<times> 'm disk" where
  "generate_interfaces pascalCase fetch merge compile d =
     (case fetch_all fetch jsonSchemaUrls of
        Throw e \<Rightarrow> (Some (Package e), d)
      | Return schemaTypes \<Rightarrow>
     (case merge (foldl (\<lambda>previous schema. schema @ previous) [] (map snd schemaTypes)) of
        Throw e \<Rightarrow> (Some (Package e), d)
      | Return merged \<Rightarrow>
          (let d1 = d\<lparr>ums_schema := Some merged\<rparr>
           in case compile merged of
                Throw e \<Rightarrow> (Some (Package e), d1)
              | Return typings \<Rightarrow>
                  (let d2 = d1\<lparr>index_file := None\<rparr>;
                       file = generateGenericTypings \<lparr>declarations = [], heads = typings\<rparr>
                   in case run_generators pascalCase schemaTypes file of
                        Throw e \<Rightarrow> (Some (Missing e), d2)
                      | Return file' \<Rightarrow>
                          (None, d2\<lparr>index_file := Some (header @ autogeneratedBanner @ [CHR 0x0A, CHR 0x0A], file')\<rparr>)))))"

section \<open>Facts\<close>

lemma getInterface_Return [simp]:
  "getInterfaceOrThrow name file = Return parents \<longleftrightarrow> map_of (heads file) name = Some parents"
  by (simp add: getInterfaceOrThrow_def split: option.splits)

lemma getInterface_Throw [simp]:
  "getInterfaceOrThrow name file = Throw e \<longleftrightarrow> map_of (heads file) name = None \<and> e = NoInterface name"
  by (auto simp: getInterfaceOrThrow_def split: option.splits)

lemma declarations_simps [simp]:
  "declarations (add_declaration d file) = declarations file @ [d]"
  "heads (add_declaration d file) = heads file"
  "declarations (addInterface s file) = declarations file @ [InterfaceDeclaration (s\<lparr>interface_methods := map signature (interface_methods s)\<rparr>)]"
  "heads (addInterface s file) = heads file @ [(interface_name s, interface_extends s)]"
  "declarations (addExtends name parents file) = declarations file"
  by (simp_all add: add_declaration_def addInterface_def addExtends_def split: option.splits)

lemma heads_addExtends:
  "map_of (heads (addExtends name parents file)) n =
     (if n = name then map_option (\<lambda>old. old @ parents) (map_of (heads file) n) else map_of (heads file) n)"
  by (simp add: addExtends_def split: option.splits)

text \<open>What becomes of the head of an interface: it comes to extend the given one if it is among the
  events and extended nothing.\<close>

definition extended :: "string \<Rightarrow> string list \<Rightarrow> string \<Rightarrow> string list \<Rightarrow> string list" where
  "extended interfaceName events n parents =
     (if n \<in> set events \<and> parents = [] then [interfaceName] else parents)"

lemma extend_events_spec:
  "(extend_events i es file = Throw e \<longrightarrow> (\<exists>x \<in> set es. map_of (heads file) x = None \<and> e = NoInterface x))
   \<and> (extend_events i es file = Return file' \<longrightarrow>
        declarations file' = declarations file \<and> (\<forall>x \<in> set es. map_of (heads file) x \<noteq> None)
        \<and> (\<forall>n. map_of (heads file') n = map_option (extended i es n) (map_of (heads file) n)))"
proof (induction es arbitrary: "file")
  case Nil
  then show ?case by (simp add: extended_def option.map_ident)
next
  case (Cons x es)
  show ?case
  proof (cases "map_of (heads file) x")
    case None
    then show ?thesis by (simp add: getInterfaceOrThrow_def)
  next
    case (Some parents)
    let ?file = "if parents = [] then addExtends x [i] file else file"
    have h: "map_of (heads ?file) n = map_option (extended i [x] n) (map_of (heads file) n)" for n
      using Some by (cases "map_of (heads file) n") (auto simp: heads_addExtends extended_def)
    have c: "map_option (extended i es n) (map_option (extended i [x] n) p) = map_option (extended i (x # es) n) p" for n p
      by (cases p) (auto simp: extended_def)
    have g: "getInterfaceOrThrow x file = Return parents" using Some by simp
    from Cons.IH [of ?file] show ?thesis by (simp add: h c g) (auto simp: Some)
  qed
qed

text \<open>The five declarations of \<open>commonData\<close>, by themselves.\<close>

definition common_declarations :: "(string \<Rightarrow> string) \<Rightarrow> string \<Rightarrow> schema \<Rightarrow> file_declaration list" where
  "common_declarations pascalCase base schema =
     declarations (event_declarations pascalCase base (map fst schema) schema \<lparr>declarations = [], heads = []\<rparr>)"

lemma event_declarations_simps [simp]:
  "declarations (event_declarations pascalCase base (map fst schema) schema file) =
     declarations file @ common_declarations pascalCase base schema"
  "heads (event_declarations pascalCase base events mappings file) = heads file @ [(''I'' @ base @ ''Type'', [])]"
  by (simp_all add: event_declarations_def common_declarations_def)

lemma mappings_distinct:
  assumes "distinct (map fst schema)"
  shows "map (\<lambda>event. (event, queryEventName schema event)) (queryEvents schema) = schema"
proof -
  have "map (\<lambda>p. (fst p, queryEventName schema (fst p))) schema = map (\<lambda>p. p) schema"
    by (rule map_cong [OF refl]) (use assms in \<open>auto simp: queryEventName_def map_of_eq_Some_iff\<close>)
  then show ?thesis by (simp add: queryEvents_def comp_def)
qed

lemma commonData_fails_iff:
  "(\<exists>e. commonData pascalCase file baseName schema i = Throw e) \<longleftrightarrow>
     (\<exists>x \<in> insert i (pascalCase ` fst ` set schema). map_of (heads file) x = None)"
  (is "?l \<longleftrightarrow> ?r")
proof (cases "map_of (heads file) i")
  case None
  then show ?thesis by (simp add: commonData_def Let_def getInterfaceOrThrow_def)
next
  case (Some parents)
  then have g: "getInterfaceOrThrow i file = Return parents" by simp
  show ?thesis
  proof (cases "extend_events i (map pascalCase (map fst schema)) file")
    case (Inl e)
    then have "?l" by (simp add: commonData_def Let_def queryEvents_def g)
    moreover have "?r" using extend_events_spec [of i "map pascalCase (map fst schema)" "file" e] Inl by auto
    ultimately show ?thesis by simp
  next
    case (Inr file')
    then have "\<not> ?l" by (simp add: commonData_def Let_def queryEvents_def g)
    moreover have "\<not> ?r" using extend_events_spec [of i "map pascalCase (map fst schema)" "file" undefined file'] Inr Some by auto
    ultimately show ?thesis by simp
  qed
qed

text \<open>What \<open>commonData\<close> leaves behind when it succeeds.\<close>

lemma commonData_result:
  assumes "commonData pascalCase file baseName schema i = Return (events, file')" and "distinct (map fst schema)"
  shows "events = map fst schema"
    and "declarations file' = declarations file @ common_declarations pascalCase (pascalCase baseName) schema"
    and "map_of (heads file') n =
      (case map_of (heads file) n of
         Some parents \<Rightarrow> Some (extended i (map (pascalCase \<circ> fst) schema) n parents)
       | None \<Rightarrow> if n = ''I'' @ pascalCase baseName @ ''Type'' then Some [] else None)"
proof -
  obtain file'' where e: "extend_events i (map pascalCase (map fst schema)) file = Return file''"
    and r: "events = map fst schema" "file' = event_declarations pascalCase (pascalCase baseName) (map fst schema) schema file''"
    using assms(1) mappings_distinct [OF assms(2)]
    by (auto simp: commonData_def Let_def queryEvents_def split: sum.splits)
  from extend_events_spec [of i "map pascalCase (map fst schema)" "file" undefined file''] e
  have s: "declarations file'' = declarations file"
    "map_of (heads file'') n = map_option (extended i (map (pascalCase \<circ> fst) schema) n) (map_of (heads file) n)" for n
    by simp_all
  show "events = map fst schema" by (rule r)
  show "declarations file' = declarations file @ common_declarations pascalCase (pascalCase baseName) schema"
    by (simp add: r s)
  show "map_of (heads file') n =
      (case map_of (heads file) n of
         Some parents \<Rightarrow> Some (extended i (map (pascalCase \<circ> fst) schema) n parents)
       | None \<Rightarrow> if n = ''I'' @ pascalCase baseName @ ''Type'' then Some [] else None)"
    by (simp add: r s map_add_def split: option.splits)
qed

text \<open>The head of an interface after \<open>commonData\<close>, from the head before.\<close>

definition head_after :: "string \<Rightarrow> string list \<Rightarrow> string \<Rightarrow> string \<Rightarrow> string list option \<Rightarrow> string list option" where
  "head_after i events base n p =
     (case p of
        Some parents \<Rightarrow> Some (extended i events n parents)
      | None \<Rightarrow> if n = ''I'' @ base @ ''Type'' then Some [] else None)"

lemma head_after_type: "head_after i events base (''I'' @ base @ ''Type'') p \<noteq> None"
  by (simp add: head_after_def split: option.splits)

lemma commonData_ok:
  assumes "map_of (heads file) i \<noteq> None" and "\<forall>x \<in> set schema. map_of (heads file) (pascalCase (fst x)) \<noteq> None"
    and "distinct (map fst schema)"
  shows "\<exists>file'. commonData pascalCase file baseName schema i = Return (map fst schema, file')
    \<and> declarations file' = declarations file @ common_declarations pascalCase (pascalCase baseName) schema
    \<and> (\<forall>n. map_of (heads file') n =
          head_after i (map (pascalCase \<circ> fst) schema) (pascalCase baseName) n (map_of (heads file) n))"
proof -
  have "\<not> (\<exists>e. commonData pascalCase file baseName schema i = Throw e)"
    unfolding commonData_fails_iff using assms(1,2) by auto
  then obtain r where "commonData pascalCase file baseName schema i = Return r"
    by (cases "commonData pascalCase file baseName schema i") auto
  then obtain events file' where r: "commonData pascalCase file baseName schema i = Return (events, file')"
    by (cases r) auto
  from r commonData_result(1) [OF r assms(3)] commonData_result(2,3) [OF r assms(3)] show ?thesis
    by (simp add: head_after_def)
qed

lemma notification_methods_ok:
  assumes "set events \<subseteq> set (map fst (enum_members s))"
  shows "notification_methods pascalCase s events = Return (map (\<lambda>event.
    \<lparr>method_name = ''on'' @ pascalCase event, method_typeParameters = [],
     method_parameters = [(''cb'', ''(notification: '' @ pascalCase event @ '') => void'')],
     bodyText = Some (''this.'' @ onNotificationFnName @ ''('' @ enum_name s @ ''.'' @ event @ '', cb);''),
     returnType = ''void''\<rparr>) events)"
  using assms by (induction events) (auto simp: getMemberOrThrow_def)

text \<open>What each kind of schema adds, besides the common declarations.\<close>

definition notification_declarations :: "(string \<Rightarrow> string) \<Rightarrow> string \<Rightarrow> string list \<Rightarrow> file_declaration list" where
  "notification_declarations pascalCase baseName events =
     (let constraint = notificationHandlerName @ ''<I'' @ baseName @ ''Type, '' @ baseName @ ''>'';
          methods = map (\<lambda>event.
            \<lparr>method_name = ''on'' @ pascalCase event, method_typeParameters = [],
             method_parameters = [(''cb'', ''(notification: '' @ pascalCase event @ '') => void'')],
             bodyText = Some (''this.'' @ onNotificationFnName @ ''('' @ baseName @ ''Event.'' @ event @ '', cb);''),
             returnType = ''void''\<rparr>) events
      in [TypeAliasDeclaration (constructor_alias baseName constraint),
          TypeAliasDeclaration (wrapper_constructor_alias baseName),
          InterfaceDeclaration (wrapper_interface baseName (map signature methods)),
          FunctionDeclaration (wrapper_function baseName constraint methods)])"

definition response_declarations :: "(string \<Rightarrow> string) \<Rightarrow> string \<Rightarrow> file_declaration list" where
  "response_declarations pascalCase baseName =
     [InterfaceDeclaration (wrapper_interface baseName (map (signature \<circ> request_method pascalCase) response_mapping)),
      TypeAliasDeclaration (constructor_alias baseName (sendMessageHandlerName @ ''<ConsumerRequests, '' @ baseName @ ''>'')),
      TypeAliasDeclaration (wrapper_constructor_alias baseName)]"

lemma find_enum_append:
  "find_enum name (ds @ ds') = (case find_enum name ds of Some s \<Rightarrow> Some s | None \<Rightarrow> find_enum name ds')"
  by (induction name ds rule: find_enum.induct) auto

lemma find_enum_None: "find_enum name ds = None \<longleftrightarrow> (\<forall>s. EnumDeclaration s \<in> set ds \<longrightarrow> enum_name s \<noteq> name)"
  by (induction name ds rule: find_enum.induct) auto

lemma common_declarations_simps:
  "list_ex (is_alias base) (common_declarations pascalCase base schema)"
  "find_enum (base @ ''Event'') (common_declarations pascalCase base schema) =
     Some \<lparr>enum_name = base @ ''Event'', enum_isConst = True, enum_members = schema, enum_isExported = True\<rparr>"
  by (simp_all add: common_declarations_def event_declarations_def is_alias_def)

lemma customNotificationData_ok:
  assumes "map_of (heads file) notificationTypeName \<noteq> None"
    and "\<forall>x \<in> set schema. map_of (heads file) (pascalCase (fst x)) \<noteq> None"
    and "distinct (map fst schema)" and "pascalCase baseName = baseName"
    and "\<forall>s. EnumDeclaration s \<in> set (declarations file) \<longrightarrow> enum_name s \<noteq> baseName @ ''Event''"
  shows "\<exists>file'. customNotificationData pascalCase file baseName schema = Return file'
    \<and> declarations file' = declarations file @ common_declarations pascalCase baseName schema
        @ notification_declarations pascalCase baseName (map fst schema)
    \<and> (\<forall>n. map_of (heads file') n =
          (let p = head_after notificationTypeName (map (pascalCase \<circ> fst) schema) baseName n (map_of (heads file) n)
           in if n = ''I'' @ baseName @ ''Type''
              then map_option (\<lambda>old. old @ [notificationTypesName @ ''<'' @ baseName @ ''>'']) p
              else if n = ''I'' @ baseName @ ''Wrapper'' then (case p of None \<Rightarrow> Some [] | Some ps \<Rightarrow> Some ps) else p))"
proof -
  from commonData_ok [OF assms(1-3), of baseName] assms(4) obtain file1 where
    c: "commonData pascalCase file baseName schema notificationTypeName = Return (map fst schema, file1)"
    and d: "declarations file1 = declarations file @ common_declarations pascalCase baseName schema"
    and h: "\<And>n. map_of (heads file1) n =
      head_after notificationTypeName (map (pascalCase \<circ> fst) schema) baseName n (map_of (heads file) n)"
    by auto
  have a: "getTypeAliasOrThrow baseName file1 = Return baseName"
    by (simp add: getTypeAliasOrThrow_def d common_declarations_simps)
  have e: "getEnumOrThrow (baseName @ ''Event'') file1 =
      Return \<lparr>enum_name = baseName @ ''Event'', enum_isConst = True, enum_members = schema, enum_isExported = True\<rparr>"
  proof -
    have "find_enum (baseName @ ''Event'') (declarations file) = None" using assms(5) by (simp add: find_enum_None)
    then show ?thesis by (simp add: getEnumOrThrow_def d find_enum_append common_declarations_simps)
  qed
  obtain ps where ps: "map_of (heads file1) (''I'' @ baseName @ ''Type'') = Some ps"
    using head_after_type h by (metis option.exhaust)
  let ?T = "''I'' @ baseName @ ''Type''"
  let ?c = "notificationHandlerName @ ''<'' @ ?T @ '', '' @ baseName @ ''>''"
  let ?m = "map (\<lambda>event.
    \<lparr>method_name = ''on'' @ pascalCase event, method_typeParameters = [],
     method_parameters = [(''cb'', ''(notification: '' @ pascalCase event @ '') => void'')],
     bodyText = Some (''this.'' @ onNotificationFnName @ ''('' @ (baseName @ ''Event'') @ ''.'' @ event @ '', cb);''),
     returnType = ''void''\<rparr>) (map fst schema)"
  let ?file2 = "addExtends ?T [notificationTypesName @ ''<'' @ baseName @ ''>''] file1"
  let ?file' = "add_declaration (FunctionDeclaration (wrapper_function baseName ?c ?m))
    (addInterface (wrapper_interface baseName ?m)
    (add_declaration (TypeAliasDeclaration (wrapper_constructor_alias baseName))
    (add_declaration (TypeAliasDeclaration (constructor_alias baseName ?c)) ?file2)))"
  have m: "notification_methods pascalCase
      \<lparr>enum_name = baseName @ ''Event'', enum_isConst = True, enum_members = schema, enum_isExported = True\<rparr> (map fst schema) = Return ?m"
    by (subst notification_methods_ok) simp_all
  have g: "getInterfaceOrThrow ?T file1 = Return ps" using ps by simp
  have "customNotificationData pascalCase file baseName schema = Return ?file'"
    unfolding customNotificationData_def c sum.case prod.case a e g m Let_def by (rule refl)
  moreover have "declarations ?file' = declarations file @ common_declarations pascalCase baseName schema
      @ notification_declarations pascalCase baseName (map fst schema)"
    by (simp add: d notification_declarations_def Let_def wrapper_interface_def)
  moreover have "map_of (heads ?file') n =
      (if n = ?T then map_option (\<lambda>old. old @ [notificationTypesName @ ''<'' @ baseName @ ''>'']) (map_of (heads file1) n)
       else if n = ''I'' @ baseName @ ''Wrapper''
       then (case map_of (heads file1) n of None \<Rightarrow> Some [] | Some ps \<Rightarrow> Some ps) else map_of (heads file1) n)" for n
    using ps by (simp add: wrapper_interface_def map_add_def heads_addExtends split: option.splits)
  ultimately show ?thesis unfolding Let_def h [symmetric] by blast
qed

lemma customConsumerResponseData_ok:
  assumes "map_of (heads file) iResponseTypeName \<noteq> None"
    and "\<forall>x \<in> set schema. map_of (heads file) (pascalCase (fst x)) \<noteq> None"
    and "distinct (map fst schema)" and "pascalCase baseName = baseName"
  shows "\<exists>file'. customConsumerResponseData pascalCase file baseName schema = Return file'
    \<and> declarations file' = declarations file @ common_declarations pascalCase baseName schema
        @ response_declarations pascalCase baseName
    \<and> (\<forall>n. map_of (heads file') n =
          (let p = head_after iResponseTypeName (map (pascalCase \<circ> fst) schema) baseName n (map_of (heads file) n)
           in if n = ''I'' @ baseName @ ''Wrapper'' then (case p of None \<Rightarrow> Some [] | Some ps \<Rightarrow> Some ps) else p))"
proof -
  from commonData_ok [OF assms(1-3), of baseName] assms(4) obtain file1 where
    c: "commonData pascalCase file baseName schema iResponseTypeName = Return (map fst schema, file1)"
    and d: "declarations file1 = declarations file @ common_declarations pascalCase baseName schema"
    and h: "\<And>n. map_of (heads file1) n =
      head_after iResponseTypeName (map (pascalCase \<circ> fst) schema) baseName n (map_of (heads file) n)"
    by auto
  let ?m = "map (request_method pascalCase) response_mapping"
  let ?c = "sendMessageHandlerName @ ''<ConsumerRequests, '' @ baseName @ ''>''"
  let ?file' = "add_declaration (TypeAliasDeclaration (wrapper_constructor_alias baseName))
    (add_declaration (TypeAliasDeclaration (constructor_alias baseName ?c)) (addInterface (wrapper_interface baseName ?m) file1))"
  have "customConsumerResponseData pascalCase file baseName schema = Return ?file'"
    unfolding customConsumerResponseData_def c sum.case prod.case Let_def by (rule refl)
  moreover have "declarations ?file' = declarations file @ common_declarations pascalCase baseName schema
      @ response_declarations pascalCase baseName"
    by (simp add: d response_declarations_def wrapper_interface_def)
  moreover have "map_of (heads ?file') n =
      (if n = ''I'' @ baseName @ ''Wrapper''
       then (case map_of (heads file1) n of None \<Rightarrow> Some [] | Some ps \<Rightarrow> Some ps) else map_of (heads file1) n)" for n
    by (simp add: wrapper_interface_def map_add_def split: option.splits)
  ultimately show ?thesis unfolding Let_def h [symmetric] by blast
qed

text \<open>Requests and the responses of an agent: the common declarations only.\<close>

lemma plain_data_ok:
  assumes "map_of (heads file) (if fn = RequestData then iSendTypeName else iResponseTypeName) \<noteq> None"
    and "fn = RequestData \<or> fn = AgentResponseData"
    and "\<forall>x \<in> set schema. map_of (heads file) (pascalCase (fst x)) \<noteq> None"
    and "distinct (map fst schema)" and "pascalCase baseName = baseName"
  shows "\<exists>file'. apply_generator fn pascalCase file baseName schema = Return file'
    \<and> declarations file' = declarations file @ common_declarations pascalCase baseName schema
    \<and> (\<forall>n. map_of (heads file') n =
          head_after (if fn = RequestData then iSendTypeName else iResponseTypeName)
            (map (pascalCase \<circ> fst) schema) baseName n (map_of (heads file) n))"
  using commonData_ok [OF assms(1,3,4), of baseName] assms(2,5)
  by (auto simp: customConsumerRequestData_def customAgentResponseData_def split: sum.splits)

text \<open>
  C38. What every schema contributes: \<open>commonData\<close> fails exactly when the base interface or the interface
  of one of the events is not in the file. Otherwise it returns the events, adds exactly its five
  declarations after those of the file, and of the interfaces changes only those of the events that
  extended nothing, which now extend the base interface; no interface loses what it extends.
\<close>

theorem commonData_contract:
  assumes "distinct (map fst schema)"
  shows "case commonData pascalCase source baseName schema i of
      Throw e \<Rightarrow> \<exists>x \<in> insert i (pascalCase ` fst ` set schema). map_of (heads source) x = None
    | Return (events, result) \<Rightarrow>
        (\<forall>x \<in> insert i (pascalCase ` fst ` set schema). map_of (heads source) x \<noteq> None)
        \<and> events = map fst schema
        \<and> declarations result = declarations source @ common_declarations pascalCase (pascalCase baseName) schema
        \<and> length (declarations result) = length (declarations source) + 5
        \<and> (\<forall>n parents. map_of (heads source) n = Some parents \<longrightarrow>
             map_of (heads result) n = Some (if n \<in> pascalCase ` fst ` set schema \<and> parents = [] then [i] else parents))"
proof (cases "commonData pascalCase source baseName schema i")
  case (Inl e)
  then show ?thesis using commonData_fails_iff [of pascalCase source baseName schema i] by auto
next
  case (Inr r)
  obtain events result where r: "r = (events, result)" by (cases r)
  have l: "length (common_declarations pascalCase (pascalCase baseName) schema) = 5"
    by (simp add: common_declarations_def event_declarations_def)
  from Inr have "\<forall>x \<in> insert i (pascalCase ` fst ` set schema). map_of (heads source) x \<noteq> None"
    using commonData_fails_iff [of pascalCase source baseName schema i] by auto
  with Inr r l commonData_result [OF _ assms, of pascalCase source baseName i events result] show ?thesis
    by (auto simp: extended_def image_image comp_def)
qed

theorem commonData_contract_witness:
  "fst (projr (commonData (\<lambda>s. s) \<lparr>declarations = [], heads = [(''ISendType'', []), (''PublishEvent'', [])]\<rparr> ''Requests''
      [(''PublishEvent'', ''ms.PublishEvent'')] ''ISendType'')) = [''PublishEvent'']"
proof -
  let ?f = "\<lparr>declarations = [], heads = [(''ISendType'', []), (''PublishEvent'', [])]\<rparr>"
  let ?s = "[(''PublishEvent'', ''ms.PublishEvent'')]"
  have "distinct (map fst ?s)" by simp
  from commonData_contract [OF this, where pascalCase = "\<lambda>s. s" and source = ?f and baseName = "''Requests''" and i = "''ISendType''"] show ?thesis
    by (auto split: sum.splits)
qed

end
