(* ===== verification/Generated_Index.thy ===== *)
theory Generated_Index
  imports Ums_Generated Interface_Generator
begin

text \<open>
  The declarations of \<open>packages/ums-generated/generated/index.ts\<close> after the compiled interfaces (lines 1342
  to 1547), in the order of the file, and the proof that \<open>build/generate_interfaces.ts\<close> makes exactly
  these from schemas with the events and type names of the file: the checked-in file and its generator
  agree. The compiled interfaces (lines 7 to 1340) are the output of the \<open>json-schema-to-typescript\<close>
  package; what they say of the messages is in \<open>Ums_Types\<close>, and here only what they extend appears.
\<close>

section \<open>The declarations of the generated file\<close>

definition index_generic :: "file_declaration list" where
  "index_generic =
     [ImportDeclaration ''type-zoo'' [''Omit''],
      InterfaceDeclaration
       \<lparr>interface_name = ''ITyped'', interface_extends = [], interface_typeParameters = [],
        properties = [(''type'', ''string'')], interface_methods = [], interface_isExported = True\<rparr>,
      InterfaceDeclaration
       \<lparr>interface_name = ''ISendType'', interface_extends = [''ITyped''], interface_typeParameters = [],
        properties = [(''id'', ''string'')], interface_methods = [], interface_isExported = True\<rparr>,
      InterfaceDeclaration
       \<lparr>interface_name = ''IResponseType'', interface_extends = [''ITyped''], interface_typeParameters = [],
        properties = [(''reqId'', ''string'')], interface_methods = [], interface_isExported = True\<rparr>,
      InterfaceDeclaration
       \<lparr>interface_name = ''INotificationType'', interface_extends = [''ITyped''], interface_typeParameters = [],
        properties = [], interface_methods = [], interface_isExported = True\<rparr>,
      TypeAliasDeclaration
       \<lparr>alias_name = ''INotificationsType'', alias_typeParameters = [(''NotificationType'', ''INotificationType'')],
        alias_type = ''{ [key: string]: NotificationType }'', alias_isExported = True\<rparr>,
      InterfaceDeclaration
       \<lparr>interface_name = ''INotificationHandler'', interface_extends = [],
        interface_typeParameters =
          [(''NotificationTypes'', ''INotificationsType<NotificationType>''), (''NotificationType'', ''INotificationType'')],
        properties = [],
        interface_methods =
          [\<lparr>method_name = ''onNotification'', method_typeParameters = [(''K'', ''keyof NotificationTypes'')],
            method_parameters = [(''notificationType'', ''K''), (''cb'', ''(notification: NotificationTypes[K]) => void'')],
            bodyText = None, returnType = ''void''\<rparr>],
        interface_isExported = True\<rparr>,
      InterfaceDeclaration
       \<lparr>interface_name = ''ISendHandler'', interface_extends = [],
        interface_typeParameters = [(''SendType'', ''ISendType''), (''ResponseType'', ''IResponseType'')],
        properties = [],
        interface_methods =
          [\<lparr>method_name = ''sendMessage'', method_typeParameters = [], method_parameters = [(''req'', ''SendType'')],
            bodyText = None, returnType = ''Promise<ResponseType>''\<rparr>],
        interface_isExported = True\<rparr>]"

text \<open>The abbreviation of an interface or alias declaration the file writes on one line.\<close>

definition properties_interface :: "string \<Rightarrow> (string \<times> string) list \<Rightarrow> file_declaration" where
  "properties_interface name props =
     InterfaceDeclaration
       \<lparr>interface_name = name, interface_extends = [], interface_typeParameters = [],
        properties = map (\<lambda>(k, v). (quoted k, v)) props, interface_methods = [], interface_isExported = True\<rparr>"

definition plain_alias :: "string \<Rightarrow> (string \<times> string) list \<Rightarrow> string \<Rightarrow> file_declaration" where
  "plain_alias name params body =
     TypeAliasDeclaration
       \<lparr>alias_name = name, alias_typeParameters = params, alias_type = body, alias_isExported = True\<rparr>"

definition const_enum :: "string \<Rightarrow> (string \<times> string) list \<Rightarrow> file_declaration" where
  "const_enum name members =
     EnumDeclaration \<lparr>enum_name = name, enum_isConst = True, enum_members = members, enum_isExported = True\<rparr>"

text \<open>The text of an array of string literals, and of a union of string literal types.\<close>

definition array_text :: "string list \<Rightarrow> string" where
  "array_text xs = ''['' @ intercalate '', '' (map quoted xs) @ '']''"

definition union_text :: "string list \<Rightarrow> string" where
  "union_text xs = intercalate '' | '' (map quoted xs)"

definition two_constants :: "string \<Rightarrow> string list \<Rightarrow> string \<Rightarrow> string list \<Rightarrow> file_declaration" where
  "two_constants name1 values1 name2 values2 =
     VariableStatement
       \<lparr>variable_declarations = [(name1, array_text values1), (name2, array_text values2)],
        declarationKind = Const, variable_isExported = True\<rparr>"

definition index_consumer_requests :: "file_declaration list" where
  "index_consumer_requests =
     [plain_alias ''ConsumerRequests'' []
        ''InitConnection | UpdateConversationField | ConsumerRequestConversation | PublishEvent | SubscribeMessagingEvents | SubscribeExConversations | UnsubscribeExConversations'',
      const_enum ''ConsumerRequestsEvent'' ConsumerRequestsEvent,
      properties_interface ''IConsumerRequestsType''
        [(''InitConnection'', ''InitConnection''),
         (''cm.UpdateConversationField'', ''UpdateConversationField''),
         (''cm.ConsumerRequestConversation'', ''ConsumerRequestConversation''),
         (''ms.PublishEvent'', ''PublishEvent''),
         (''ms.SubscribeMessagingEvents'', ''SubscribeMessagingEvents''),
         (''cqm.SubscribeExConversations'', ''SubscribeExConversations''),
         (''cqm.UnsubscribeExConversations'', ''UnsubscribeExConversations'')],
      plain_alias ''ConsumerRequestsType'' []
        (union_text [''InitConnection'', ''cm.UpdateConversationField'', ''cm.ConsumerRequestConversation'', ''ms.PublishEvent'',
           ''ms.SubscribeMessagingEvents'', ''cqm.SubscribeExConversations'', ''cqm.UnsubscribeExConversations'']),
      two_constants ''ConsumerRequestsEvents'' ConsumerRequestsEvents ''ConsumerRequestsTypes'' ConsumerRequestsTypes]"

definition do_signature :: "string \<Rightarrow> string \<Rightarrow> string \<Rightarrow> method_structure" where
  "do_signature name req res =
     \<lparr>method_name = name, method_typeParameters = [],
      method_parameters = [(''data'', ''Omit<'' @ req @ '', '' @ quoted ''type'' @ ''>'')],
      bodyText = None, returnType = ''Promise<'' @ res @ ''>''\<rparr>"

definition methods_interface :: "string \<Rightarrow> method_structure list \<Rightarrow> file_declaration" where
  "methods_interface name methods =
     InterfaceDeclaration
       \<lparr>interface_name = name, interface_extends = [], interface_typeParameters = [],
        properties = [], interface_methods = methods, interface_isExported = True\<rparr>"

definition index_consumer_responses :: "file_declaration list" where
  "index_consumer_responses =
     [plain_alias ''ConsumerResponses'' []
        ''RequestConversationResponse | StringResp | PublishEventResponse | GenericSubscribeResponse | SubscribeExConversationsResponse'',
      const_enum ''ConsumerResponsesEvent'' ConsumerResponsesEvent,
      properties_interface ''IConsumerResponsesType''
        [(''cm.RequestConversationResponse'', ''RequestConversationResponse''),
         (''.ReqBody$StringResp'', ''StringResp''),
         (''ms.PublishEventResponse'', ''PublishEventResponse''),
         (''GenericSubscribeResponse'', ''GenericSubscribeResponse''),
         (''cqm.SubscribeExConversationsResponse'', ''SubscribeExConversationsResponse'')],
      plain_alias ''ConsumerResponsesType'' []
        (union_text [''cm.RequestConversationResponse'', ''.ReqBody$StringResp'', ''ms.PublishEventResponse'',
           ''GenericSubscribeResponse'', ''cqm.SubscribeExConversationsResponse'']),
      two_constants ''ConsumerResponsesEvents'' ConsumerResponsesEvents ''ConsumerResponsesTypes'' ConsumerResponsesTypes,
      methods_interface ''IConsumerResponsesWrapper''
        [do_signature ''doInitConnection'' ''InitConnection'' ''StringResp'',
         do_signature ''doUpdateConversationField'' ''UpdateConversationField'' ''StringResp'',
         do_signature ''doConsumerRequestConversation'' ''ConsumerRequestConversation'' ''RequestConversationResponse'',
         do_signature ''doPublishEvent'' ''PublishEvent'' ''PublishEventResponse'',
         do_signature ''doSubscribeMessagingEvents'' ''SubscribeMessagingEvents'' ''GenericSubscribeResponse'',
         do_signature ''doSubscribeExConversations'' ''SubscribeExConversations'' ''SubscribeExConversationsResponse'',
         do_signature ''doUnsubscribeExConversations'' ''UnsubscribeExConversations'' ''StringResp''],
      plain_alias ''ConsumerResponsesConstructor'' [(''T'', ''ISendHandler<ConsumerRequests, ConsumerResponses>'')]
        ''new (...args: any[]) => T'',
      plain_alias ''ConsumerResponsesWrapperConstructor'' [] ''new (...args: any[]) => IConsumerResponsesWrapper'']"

text \<open>The signature of a wrapper method, and the method with its body.\<close>

definition on_signature :: "string \<Rightarrow> string \<Rightarrow> method_structure" where
  "on_signature name event =
     \<lparr>method_name = name, method_typeParameters = [],
      method_parameters = [(''cb'', ''(notification: '' @ event @ '') => void'')],
      bodyText = None, returnType = ''void''\<rparr>"

definition on_method :: "string \<Rightarrow> string \<Rightarrow> string \<Rightarrow> method_structure" where
  "on_method name event body = (on_signature name event)\<lparr>bodyText := Some body\<rparr>"

text \<open>The notifications of a consumer.\<close>

definition index_consumer_notifications_wrapper :: function_structure where
  "index_consumer_notifications_wrapper =
     \<lparr>function_name = ''wrapConsumerNotifications'',
      function_typeParameters =
        [(''T'', ''ConsumerNotificationsConstructor<INotificationHandler<IConsumerNotificationsType, ConsumerNotifications>>'')],
      function_parameters = [(''Base'', ''T'')],
      function_returnType = ''T & ConsumerNotificationsWrapperConstructor'',
      function_isExported = True,
      function_classes =
        [\<lparr>class_name = ''ConsumerNotificationsWrapper'', class_extends = ''Base'',
          class_implements = [''IConsumerNotificationsWrapper''],
          class_ctor = ([(''args'', True)], ''super(...args);''),
          class_methods =
            [on_method ''onMessagingEventNotification'' ''MessagingEventNotification''
               ''this.onNotification(ConsumerNotificationsEvent.MessagingEventNotification, cb);'',
             on_method ''onExConversationChangeNotification'' ''ExConversationChangeNotification''
               ''this.onNotification(ConsumerNotificationsEvent.ExConversationChangeNotification, cb);'']\<rparr>],
      function_statements = [''return ConsumerNotificationsWrapper;'']\<rparr>"

definition index_consumer_notifications :: "file_declaration list" where
  "index_consumer_notifications =
     [plain_alias ''ConsumerNotifications'' []
        ''MessagingEventNotification | ExConversationChangeNotification'',
      const_enum ''ConsumerNotificationsEvent'' ConsumerNotificationsEvent,
      properties_interface ''IConsumerNotificationsType''
        [(''ms.MessagingEventNotification'', ''MessagingEventNotification''),
         (''cqm.ExConversationChangeNotification'', ''ExConversationChangeNotification'')],
      plain_alias ''ConsumerNotificationsType'' []
        (union_text [''ms.MessagingEventNotification'',
           ''cqm.ExConversationChangeNotification'']),
      two_constants ''ConsumerNotificationsEvents'' ConsumerNotificationsEvents ''ConsumerNotificationsTypes'' ConsumerNotificationsTypes,
      plain_alias ''ConsumerNotificationsConstructor'' [(''T'', ''INotificationHandler<IConsumerNotificationsType, ConsumerNotifications>'')]
        ''new (...args: any[]) => T'',
      plain_alias ''ConsumerNotificationsWrapperConstructor'' [] ''new (...args: any[]) => IConsumerNotificationsWrapper'',
      methods_interface ''IConsumerNotificationsWrapper''
        [on_signature ''onMessagingEventNotification'' ''MessagingEventNotification'',
         on_signature ''onExConversationChangeNotification'' ''ExConversationChangeNotification''],
      FunctionDeclaration index_consumer_notifications_wrapper]"

definition index_agent_responses :: "file_declaration list" where
  "index_agent_responses =
     [plain_alias ''AgentResponses'' []
        ''RequestConversationResponse | StringResp | PublishEventResponse | GenericSubscribeResponse | GetUserProfileResponse | SubscribeExConversationsResponse'',
      const_enum ''AgentResponsesEvent'' AgentResponsesEvent,
      properties_interface ''IAgentResponsesType''
        [(''cm.RequestConversationResponse'', ''RequestConversationResponse''),
         (''.ReqBody$StringResp'', ''StringResp''),
         (''ms.PublishEventResponse'', ''PublishEventResponse''),
         (''GenericSubscribeResponse'', ''GenericSubscribeResponse''),
         (''up.GetUserProfile$Response'', ''GetUserProfileResponse''),
         (''cqm.SubscribeExConversationsResponse'', ''SubscribeExConversationsResponse'')],
      plain_alias ''AgentResponsesType'' []
        (union_text [''cm.RequestConversationResponse'', ''.ReqBody$StringResp'', ''ms.PublishEventResponse'',
           ''GenericSubscribeResponse'', ''up.GetUserProfile$Response'', ''cqm.SubscribeExConversationsResponse'']),
      two_constants ''AgentResponsesEvents'' AgentResponsesEvents ''AgentResponsesTypes'' AgentResponsesTypes]"

text \<open>The notifications of an agent.\<close>

definition index_agent_notifications_wrapper :: function_structure where
  "index_agent_notifications_wrapper =
     \<lparr>function_name = ''wrapAgentNotifications'',
      function_typeParameters =
        [(''T'', ''AgentNotificationsConstructor<INotificationHandler<IAgentNotificationsType, AgentNotifications>>'')],
      function_parameters = [(''Base'', ''T'')],
      function_returnType = ''T & AgentNotificationsWrapperConstructor'',
      function_isExported = True,
      function_classes =
        [\<lparr>class_name = ''AgentNotificationsWrapper'', class_extends = ''Base'',
          class_implements = [''IAgentNotificationsWrapper''],
          class_ctor = ([(''args'', True)], ''super(...args);''),
          class_methods =
            [on_method ''onMessagingEventNotification'' ''MessagingEventNotification''
               ''this.onNotification(AgentNotificationsEvent.MessagingEventNotification, cb);'',
             on_method ''onExConversationChangeNotification'' ''ExConversationChangeNotification''
               ''this.onNotification(AgentNotificationsEvent.ExConversationChangeNotification, cb);'',
             on_method ''onRoutingTaskNotification'' ''RoutingTaskNotification''
               ''this.onNotification(AgentNotificationsEvent.routingTaskNotification, cb);'',
             on_method ''onAgentStateNotification'' ''AgentStateNotification''
               ''this.onNotification(AgentNotificationsEvent.agentStateNotification, cb);'']\<rparr>],
      function_statements = [''return AgentNotificationsWrapper;'']\<rparr>"

definition index_agent_notifications :: "file_declaration list" where
  "index_agent_notifications =
     [plain_alias ''AgentNotifications'' []
        ''MessagingEventNotification | ExConversationChangeNotification | RoutingTaskNotification | AgentStateNotification'',
      const_enum ''AgentNotificationsEvent'' AgentNotificationsEvent,
      properties_interface ''IAgentNotificationsType''
        [(''ms.MessagingEventNotification'', ''MessagingEventNotification''),
         (''cqm.ExConversationChangeNotification'', ''ExConversationChangeNotification''),
         (''routing.routingTaskNotification'', ''RoutingTaskNotification''),
         (''routing.agentStateNotification'', ''AgentStateNotification'')],
      plain_alias ''AgentNotificationsType'' []
        (union_text [''ms.MessagingEventNotification'',
           ''cqm.ExConversationChangeNotification'',
           ''routing.routingTaskNotification'',
           ''routing.agentStateNotification'']),
      two_constants ''AgentNotificationsEvents'' AgentNotificationsEvents ''AgentNotificationsTypes'' AgentNotificationsTypes,
      plain_alias ''AgentNotificationsConstructor'' [(''T'', ''INotificationHandler<IAgentNotificationsType, AgentNotifications>'')]
        ''new (...args: any[]) => T'',
      plain_alias ''AgentNotificationsWrapperConstructor'' [] ''new (...args: any[]) => IAgentNotificationsWrapper'',
      methods_interface ''IAgentNotificationsWrapper''
        [on_signature ''onMessagingEventNotification'' ''MessagingEventNotification'',
         on_signature ''onExConversationChangeNotification'' ''ExConversationChangeNotification'',
         on_signature ''onRoutingTaskNotification'' ''RoutingTaskNotification'',
         on_signature ''onAgentStateNotification'' ''AgentStateNotification''],
      FunctionDeclaration index_agent_notifications_wrapper]"

definition index_declarations :: "file_declaration list" where
  "index_declarations =
     index_generic @ index_consumer_requests @ index_consumer_responses @ index_consumer_notifications
       @ index_agent_responses @ index_agent_notifications"

text \<open>
  The generator lets its package format the file before it saves it, which changes white space only. In
  the texts above this is the space the formatter puts after the \<open>new\<close> of a constructor type;
  \<open>unformatted\<close> is a declaration as the generator adds it to the file, without that space.
\<close>

fun unformatted :: "file_declaration \<Rightarrow> file_declaration" where
  "unformatted (TypeAliasDeclaration s) =
     TypeAliasDeclaration (if startsWith (alias_type s) ''new (''
       then s\<lparr>alias_type := ''new('' @ drop 5 (alias_type s)\<rparr> else s)"
| "unformatted d = d"

text \<open>What the event interfaces and the notification maps of the file extend.\<close>

definition index_extends :: "(string \<times> string list) list" where
  "index_extends =
     [(''MessagingEventNotification'', [''INotificationType'']),
      (''ExConversationChangeNotification'', [''INotificationType'']),
      (''RoutingTaskNotification'', [''INotificationType'']),
      (''AgentStateNotification'', [''INotificationType'']),
      (''RequestConversationResponse'', [''IResponseType'']),
      (''StringResp'', [''IResponseType'']),
      (''PublishEventResponse'', [''IResponseType'']),
      (''GenericSubscribeResponse'', [''IResponseType'']),
      (''GetUserProfileResponse'', [''IResponseType'']),
      (''SubscribeExConversationsResponse'', [''IResponseType'']),
      (''InitConnection'', [''ISendType'']),
      (''UpdateConversationField'', [''ISendType'']),
      (''ConsumerRequestConversation'', [''ISendType'']),
      (''PublishEvent'', [''ISendType'']),
      (''SubscribeMessagingEvents'', [''ISendType'']),
      (''SubscribeExConversations'', [''ISendType'']),
      (''UnsubscribeExConversations'', [''ISendType'']),
      (''IConsumerNotificationsType'', [''INotificationsType<ConsumerNotifications>'']),
      (''IAgentNotificationsType'', [''INotificationsType<AgentNotifications>''])]"

section \<open>The names the packages make\<close>

text \<open>
  The \<open>pascal-case\<close> package: a name in camel case (letters, no two capitals in a row) keeps its letters,
  the first one in upper case.
\<close>

definition upper :: "char \<Rightarrow> bool" where
  "upper c \<longleftrightarrow> (65 :: nat) \<le> of_char c \<and> (of_char c :: nat) \<le> 90"

definition lower :: "char \<Rightarrow> bool" where
  "lower c \<longleftrightarrow> (97 :: nat) \<le> of_char c \<and> (of_char c :: nat) \<le> 122"

fun camel_case :: "string \<Rightarrow> bool" where
  "camel_case [] \<longleftrightarrow> False"
| "camel_case [c] \<longleftrightarrow> upper c \<or> lower c"
| "camel_case (c # d # cs) \<longleftrightarrow> (upper c \<and> lower d \<or> lower c) \<and> camel_case (d # cs)"

fun capitalize :: "string \<Rightarrow> string" where
  "capitalize [] = []"
| "capitalize (c # cs) = (if lower c then char_of (of_char c - 32 :: nat) else c) # cs"

definition pascal_documented :: "(string \<Rightarrow> string) \<Rightarrow> bool" where
  "pascal_documented pascalCase \<longleftrightarrow> (\<forall>s. camel_case s \<longrightarrow> pascalCase s = capitalize s)"

lemma pascal_event:
  "pascal_documented pascalCase \<Longrightarrow> camel_case s \<Longrightarrow> pascalCase s = capitalize s"
  by (simp add: pascal_documented_def)

text \<open>The names the generator meets, with what becomes of them.\<close>

definition pascal_table :: "(string \<times> string) list" where
  "pascal_table =
     [(''InitConnection'', ''InitConnection''),
      (''UpdateConversationField'', ''UpdateConversationField''),
      (''ConsumerRequestConversation'', ''ConsumerRequestConversation''),
      (''PublishEvent'', ''PublishEvent''),
      (''SubscribeMessagingEvents'', ''SubscribeMessagingEvents''),
      (''SubscribeExConversations'', ''SubscribeExConversations''),
      (''UnsubscribeExConversations'', ''UnsubscribeExConversations''),
      (''RequestConversationResponse'', ''RequestConversationResponse''),
      (''StringResp'', ''StringResp''),
      (''PublishEventResponse'', ''PublishEventResponse''),
      (''GenericSubscribeResponse'', ''GenericSubscribeResponse''),
      (''SubscribeExConversationsResponse'', ''SubscribeExConversationsResponse''),
      (''GetUserProfileResponse'', ''GetUserProfileResponse''),
      (''MessagingEventNotification'', ''MessagingEventNotification''),
      (''ExConversationChangeNotification'', ''ExConversationChangeNotification''),
      (''routingTaskNotification'', ''RoutingTaskNotification''),
      (''agentStateNotification'', ''AgentStateNotification''),
      (''consumerRequests'', ''ConsumerRequests''),
      (''ConsumerRequests'', ''ConsumerRequests''),
      (''consumerResponses'', ''ConsumerResponses''),
      (''ConsumerResponses'', ''ConsumerResponses''),
      (''consumerNotifications'', ''ConsumerNotifications''),
      (''ConsumerNotifications'', ''ConsumerNotifications''),
      (''agentResponses'', ''AgentResponses''),
      (''AgentResponses'', ''AgentResponses''),
      (''agentNotifications'', ''AgentNotifications''),
      (''AgentNotifications'', ''AgentNotifications'')]"

lemma pascal_table_ok: "list_all (\<lambda>(s, t). camel_case s \<and> capitalize s = t) pascal_table"
  by code_simp

lemma pascal_names:
  assumes "pascal_documented pascalCase"
  shows "list_all (\<lambda>(s, t). pascalCase s = t) pascal_table"
  using pascal_table_ok by (rule list.pred_mono_strong) (auto simp: pascal_event [OF assms])

lemmas pascal_simps = pascal_names [unfolded pascal_table_def, simplified]

lemma url_basenames:
  "map (url_basename \<circ> fst) jsonSchemaUrls =
     [''consumerRequests'', ''consumerResponses'', ''consumerNotifications'', ''agentResponses'', ''agentNotifications'']"
  by code_simp

lemmas basenames = url_basenames [unfolded jsonSchemaUrls_def, simplified]

lemmas index_shapes = properties_interface_def plain_alias_def const_enum_def array_text_def union_text_def two_constants_def
  do_signature_def methods_interface_def on_signature_def on_method_def

lemmas generator_shapes = constructor_alias_def wrapper_constructor_alias_def wrapper_interface_def wrapper_function_def
  wrapper_ctor_def plain_interface_def notification_handler_interface_def send_handler_interface_def

lemma starts_simps:
  "startsWith (c # s) (d # p) \<longleftrightarrow> c = d \<and> startsWith s p" "startsWith s []" "\<not> startsWith [] (d # p)"
  "startsWith (quoted s) (d # p) \<longleftrightarrow> d = CHR 0x22 \<and> startsWith (s @ [CHR 0x22]) p"
  "startsWith (quoted s @ t) (d # p) \<longleftrightarrow> d = CHR 0x22 \<and> startsWith (s @ CHR 0x22 # t) p"
  by (auto simp: startsWith_def quoted_def)

lemma index_common:
  assumes "pascal_documented pascalCase"
  shows "common_declarations pascalCase ''ConsumerRequests'' ConsumerRequestsEvent = index_consumer_requests"
    and "common_declarations pascalCase ''AgentResponses'' AgentResponsesEvent = index_agent_responses"
    and "common_declarations pascalCase ''ConsumerResponses'' ConsumerResponsesEvent = take 5 (map unformatted index_consumer_responses)"
    and "common_declarations pascalCase ''ConsumerNotifications'' ConsumerNotificationsEvent = take 5 (map unformatted index_consumer_notifications)"
    and "common_declarations pascalCase ''AgentNotifications'' AgentNotificationsEvent = take 5 (map unformatted index_agent_notifications)"
  by (simp_all add: common_declarations_def event_declarations_def pascal_simps [OF assms] index_shapes initializer_of_def
      index_consumer_requests_def index_agent_responses_def index_consumer_responses_def index_consumer_notifications_def
      index_agent_notifications_def event_table_defs starts_simps)

text \<open>The other declarations, and the generic ones.\<close>

lemma index_special:
  assumes "pascal_documented pascalCase"
  shows "response_declarations pascalCase ''ConsumerResponses'' = drop 5 (map unformatted index_consumer_responses)"
    and "notification_declarations pascalCase ''ConsumerNotifications'' ConsumerNotificationsEvents
      = drop 5 (map unformatted index_consumer_notifications)"
    and "notification_declarations pascalCase ''AgentNotifications'' AgentNotificationsEvents
      = drop 5 (map unformatted index_agent_notifications)"
    and "declarations (generateGenericTypings \<lparr>declarations = [], heads = typings\<rparr>) = index_generic"
  by (simp_all add: response_declarations_def notification_declarations_def Let_def pascal_simps [OF assms] index_shapes
      generator_shapes signature_def request_method_def response_mapping_def name_defs generateGenericTypings_def
      index_generic_def index_consumer_responses_def index_consumer_notifications_def index_consumer_notifications_wrapper_def
      index_agent_notifications_def index_agent_notifications_wrapper_def
      ConsumerNotificationsEvents_def AgentNotificationsEvents_def starts_simps)

lemma unformatted_index:
  "map unformatted index_declarations =
     index_generic @ index_consumer_requests @ map unformatted index_consumer_responses @ map unformatted index_consumer_notifications
       @ index_agent_responses @ map unformatted index_agent_notifications"
  by (simp add: index_declarations_def index_generic_def index_consumer_requests_def index_agent_responses_def index_shapes
      event_table_defs starts_simps)

section \<open>The generator makes the file\<close>

text \<open>The schemas with the events and type names of the file, and the compiled interfaces: those of the
  events, which extend nothing yet, and none with the name of a map of notification types.\<close>

definition index_schemas :: "(string \<times> schema) list" where
  "index_schemas =
     zip (map fst jsonSchemaUrls)
       [ConsumerRequestsEvent, ConsumerResponsesEvent, ConsumerNotificationsEvent, AgentResponsesEvent, AgentNotificationsEvent]"

definition schemas_published :: "(string \<Rightarrow> 'e + schema) \<Rightarrow> bool" where
  "schemas_published fetch \<longleftrightarrow> list_all (\<lambda>(url, schema). case fetch url of Throw e \<Rightarrow> False | Return s \<Rightarrow> s = schema) index_schemas"

definition event_interfaces :: "string list" where
  "event_interfaces = map fst (take 17 index_extends)"

definition interfaces_compiled :: "(string \<times> string list) list \<Rightarrow> bool" where
  "interfaces_compiled typings \<longleftrightarrow>
     list_all (\<lambda>n. map_of typings n = Some []) event_interfaces
     \<and> map_of typings ''IConsumerNotificationsType'' = None \<and> map_of typings ''IAgentNotificationsType'' = None"

lemmas compiled_simps = interfaces_compiled_def event_interfaces_def index_extends_def

lemma head_after_simps [simp]:
  "head_after i events base n (Some parents) = Some (extended i events n parents)"
  "head_after i events base n None = (if n = ''I'' @ base @ ''Type'' then Some [] else None)"
  by (simp_all add: head_after_def)

lemma generic_heads:
  "map_of (heads (generateGenericTypings \<lparr>declarations = [], heads = typings\<rparr>)) n =
     (case map_of typings n of
        Some ps \<Rightarrow> Some ps
      | None \<Rightarrow> map_of [(''ITyped'', []), (''ISendType'', [''ITyped'']), (''IResponseType'', [''ITyped'']),
          (''INotificationType'', [''ITyped'']), (''INotificationHandler'', []), (''ISendHandler'', [])] n)"
  by (simp add: generateGenericTypings_def plain_interface_def notification_handler_interface_def
      send_handler_interface_def name_defs map_add_def split: option.splits)

text \<open>All interfaces the generator looks up are known, at every stage.\<close>

definition all_known :: "source_file \<Rightarrow> bool" where
  "all_known file \<longleftrightarrow>
     (\<forall>n \<in> set ([iSendTypeName, iResponseTypeName, notificationTypeName] @ event_interfaces). map_of (heads file) n \<noteq> None)"

lemma all_known_start: "interfaces_compiled typings \<Longrightarrow> all_known (generateGenericTypings \<lparr>declarations = [], heads = typings\<rparr>)"
  unfolding all_known_def generic_heads by (simp add: compiled_simps name_defs split: option.splits)

lemma all_known_mono:
  assumes "all_known file" and "\<And>n. map_of (heads file) n \<noteq> None \<Longrightarrow> map_of (heads file') n \<noteq> None"
  shows "all_known file'"
  using assms unfolding all_known_def by blast

lemma event_names:
  assumes "pascal_documented pascalCase"
  shows "map (pascalCase \<circ> fst) ConsumerRequestsEvent = ConsumerRequestsEvents"
    and "map (pascalCase \<circ> fst) ConsumerResponsesEvent = ConsumerResponsesEvents"
    and "map (pascalCase \<circ> fst) ConsumerNotificationsEvent = ConsumerNotificationsEvents"
    and "map (pascalCase \<circ> fst) AgentResponsesEvent = AgentResponsesEvents"
    and "map (pascalCase \<circ> fst) AgentNotificationsEvent = take 4 event_interfaces"
  by (simp_all add: pascal_simps [OF assms] event_table_defs event_interfaces_def index_extends_def)

lemma events_known:
  assumes "all_known file" and "pascal_documented pascalCase"
    and "schema \<in> {ConsumerRequestsEvent, ConsumerResponsesEvent, ConsumerNotificationsEvent, AgentResponsesEvent, AgentNotificationsEvent}"
  shows "\<forall>x \<in> set schema. map_of (heads file) (pascalCase (fst x)) \<noteq> None"
proof -
  have s: "set ConsumerRequestsEvents \<subseteq> set event_interfaces" "set ConsumerResponsesEvents \<subseteq> set event_interfaces"
    "set ConsumerNotificationsEvents \<subseteq> set event_interfaces" "set AgentResponsesEvents \<subseteq> set event_interfaces"
    "set (take 4 event_interfaces) \<subseteq> set event_interfaces"
    by (simp_all add: event_table_defs event_interfaces_def index_extends_def)
  have "set (map (pascalCase \<circ> fst) schema) \<subseteq> set event_interfaces"
    using assms(3) by (elim insertE emptyE) (simp_all only: event_names [OF assms(2)] s)
  then show ?thesis using assms(1) by (auto simp: all_known_def)
qed

lemma table_events:
  "map fst ConsumerNotificationsEvent = ConsumerNotificationsEvents" "map fst AgentNotificationsEvent = AgentNotificationsEvents"
  by (simp_all add: event_table_defs)

lemma index_enums:
  "\<forall>s. EnumDeclaration s \<in> set (index_generic @ index_consumer_requests @ map unformatted index_consumer_responses)
     \<longrightarrow> enum_name s \<noteq> ''ConsumerNotifications'' @ ''Event''"
  "\<forall>s. EnumDeclaration s \<in> set (index_generic @ index_consumer_requests @ map unformatted index_consumer_responses @ map unformatted index_consumer_notifications
       @ index_agent_responses) \<longrightarrow> enum_name s \<noteq> ''AgentNotifications'' @ ''Event''"
  by (auto simp: index_generic_def index_consumer_requests_def index_consumer_responses_def index_consumer_notifications_def
      index_agent_responses_def index_shapes starts_simps)

lemma tables_distinct:
  "distinct (map fst ConsumerRequestsEvent)" "distinct (map fst ConsumerResponsesEvent)"
  "distinct (map fst ConsumerNotificationsEvent)" "distinct (map fst AgentResponsesEvent)"
  "distinct (map fst AgentNotificationsEvent)"
  by (simp_all add: event_table_defs)

lemma known:
  assumes "all_known file"
  shows "map_of (heads file) iSendTypeName \<noteq> None" "map_of (heads file) iResponseTypeName \<noteq> None"
    "map_of (heads file) notificationTypeName \<noteq> None"
  using assms by (simp_all add: all_known_def)

definition notification_head :: "string list \<Rightarrow> string \<Rightarrow> string \<Rightarrow> string list option \<Rightarrow> string list option" where
  "notification_head events base n q =
     (let p = head_after notificationTypeName events base n q
      in if n = ''I'' @ base @ ''Type''
         then map_option (\<lambda>old. old @ [notificationTypesName @ ''<'' @ base @ ''>'']) p
         else if n = ''I'' @ base @ ''Wrapper'' then (case p of None \<Rightarrow> Some [] | Some ps \<Rightarrow> Some ps) else p)"

lemma notification_head_known: "q \<noteq> None \<Longrightarrow> notification_head events base n q \<noteq> None"
  by (auto simp: notification_head_def Let_def)

text \<open>The head of an interface of the file, from its head before the generators run.\<close>

definition compiled_head :: "string \<Rightarrow> string list option" where
  "compiled_head n = (if n \<in> set event_interfaces then Some [] else None)"

definition final_head :: "string \<Rightarrow> string list option \<Rightarrow> string list option" where
  "final_head n q0 =
     (let q1 = head_after iSendTypeName ConsumerRequestsEvents ''ConsumerRequests'' n q0;
          p2 = head_after iResponseTypeName ConsumerResponsesEvents ''ConsumerResponses'' n q1;
          q2 = (if n = ''IConsumerResponsesWrapper'' then (case p2 of None \<Rightarrow> Some [] | Some ps \<Rightarrow> Some ps) else p2);
          q3 = notification_head ConsumerNotificationsEvents ''ConsumerNotifications'' n q2;
          q4 = head_after iResponseTypeName AgentResponsesEvents ''AgentResponses'' n q3
      in notification_head (take 4 event_interfaces) ''AgentNotifications'' n q4)"

lemma final_heads: "list_all (\<lambda>(n, parents). final_head n (compiled_head n) = Some parents) index_extends"
  by code_simp

lemma compiled_heads:
  assumes "interfaces_compiled typings" and "(n, parents) \<in> set index_extends"
  shows "(case map_of typings n of
        Some ps \<Rightarrow> Some ps
      | None \<Rightarrow> map_of [(''ITyped'', []), (''ISendType'', [''ITyped'']), (''IResponseType'', [''ITyped'']),
          (''INotificationType'', [''ITyped'']), (''INotificationHandler'', []), (''ISendHandler'', [])] n) = compiled_head n"
proof -
  have "n \<in> set event_interfaces \<or> n = ''IConsumerNotificationsType'' \<or> n = ''IAgentNotificationsType''"
    using assms(2) by (auto simp: index_extends_def event_interfaces_def)
  then show ?thesis
  proof (elim disjE)
    assume "n \<in> set event_interfaces"
    then show ?thesis using assms(1) by (simp add: compiled_head_def interfaces_compiled_def list_all_iff)
  next
    assume n: "n = ''IConsumerNotificationsType''"
    have "n \<notin> set event_interfaces" unfolding n by code_simp
    then show ?thesis using assms(1) by (simp add: n compiled_head_def interfaces_compiled_def)
  next
    assume n: "n = ''IAgentNotificationsType''"
    have "n \<notin> set event_interfaces" unfolding n by code_simp
    then show ?thesis using assms(1) by (simp add: n compiled_head_def interfaces_compiled_def)
  qed
qed

lemma generators_run:
  assumes pd: "pascal_documented pascalCase" and "interfaces_compiled typings"
  shows "\<exists>file. run_generators pascalCase (zip jsonSchemaUrls (map snd index_schemas))
      (generateGenericTypings \<lparr>declarations = [], heads = typings\<rparr>) = Return file
    \<and> declarations file = map unformatted index_declarations
    \<and> (\<forall>(n, parents) \<in> set index_extends. map_of (heads file) n = Some parents)"
proof -
  note ps = pascal_simps [OF pd]
  note h0 = generic_heads [of typings]
  let ?f0 = "generateGenericTypings \<lparr>declarations = [], heads = typings\<rparr>"
  have k0: "all_known ?f0" using assms(2) by (rule all_known_start)
  obtain f1 where f1: "apply_generator RequestData pascalCase ?f0 ''ConsumerRequests'' ConsumerRequestsEvent = Return f1"
    and d1: "declarations f1 = index_generic @ index_consumer_requests"
    and h1: "\<And>n. map_of (heads f1) n = head_after iSendTypeName ConsumerRequestsEvents ''ConsumerRequests'' n (map_of (heads ?f0) n)"
    using plain_data_ok [of ?f0 RequestData ConsumerRequestsEvent pascalCase "''ConsumerRequests''"] k0 events_known [OF k0 pd, of ConsumerRequestsEvent] tables_distinct ps
    unfolding index_common [OF pd] index_special [OF pd] event_names [OF pd] by (auto simp: all_known_def)
  have k1: "all_known f1" by (rule all_known_mono [OF k0]) (auto simp: h1)
  obtain f2 where f2: "apply_generator ResponseData pascalCase f1 ''ConsumerResponses'' ConsumerResponsesEvent = Return f2"
    and d2: "declarations f2 = index_generic @ index_consumer_requests @ map unformatted index_consumer_responses"
    and h2: "\<And>n. map_of (heads f2) n =
      (let p = head_after iResponseTypeName ConsumerResponsesEvents ''ConsumerResponses'' n (map_of (heads f1) n)
       in if n = ''IConsumerResponsesWrapper'' then (case p of None \<Rightarrow> Some [] | Some ps \<Rightarrow> Some ps) else p)"
    using customConsumerResponseData_ok [of f1 ConsumerResponsesEvent pascalCase "''ConsumerResponses''"] k1
      events_known [OF k1 pd, of ConsumerResponsesEvent] tables_distinct ps
    unfolding index_common [OF pd] index_special [OF pd] event_names [OF pd] by (auto simp: all_known_def d1)
  have k2: "all_known f2" by (rule all_known_mono [OF k1]) (auto simp: h2 Let_def)
  have e2: "\<forall>s. EnumDeclaration s \<in> set (declarations f2) \<longrightarrow> enum_name s \<noteq> ''ConsumerNotifications'' @ ''Event''"
    unfolding d2 by (rule index_enums(1))
  have x2: "\<forall>x \<in> set ConsumerNotificationsEvent. map_of (heads f2) (pascalCase (fst x)) \<noteq> None"
    by (rule events_known [OF k2 pd]) simp
  have p2: "pascalCase ''ConsumerNotifications'' = ''ConsumerNotifications''" using ps by simp
  obtain f3 where r3: "customNotificationData pascalCase f2 ''ConsumerNotifications'' ConsumerNotificationsEvent = Return f3
    \<and> declarations f3 = declarations f2 @ common_declarations pascalCase ''ConsumerNotifications'' ConsumerNotificationsEvent
        @ notification_declarations pascalCase ''ConsumerNotifications'' (map fst ConsumerNotificationsEvent)
    \<and> (\<forall>n. map_of (heads f3) n = notification_head ConsumerNotificationsEvents ''ConsumerNotifications'' n (map_of (heads f2) n))"
    using customNotificationData_ok [OF known(3) [OF k2] x2 tables_distinct(3) p2 e2]
    unfolding event_names [OF pd] notification_head_def by auto
  have d3: "declarations f3 = index_generic @ index_consumer_requests @ map unformatted index_consumer_responses @ map unformatted index_consumer_notifications"
    using r3 unfolding index_common [OF pd] table_events index_special [OF pd] d2 by simp
  from r3 have h3: "\<And>n. map_of (heads f3) n =
      notification_head ConsumerNotificationsEvents ''ConsumerNotifications'' n (map_of (heads f2) n)" by simp
  have k3: "all_known f3" by (rule all_known_mono [OF k2]) (simp add: h3 notification_head_known)
  obtain f4 where f4: "apply_generator AgentResponseData pascalCase f3 ''AgentResponses'' AgentResponsesEvent = Return f4"
    and d4: "declarations f4 = index_generic @ index_consumer_requests @ map unformatted index_consumer_responses @ map unformatted index_consumer_notifications
      @ index_agent_responses"
    and h4: "\<And>n. map_of (heads f4) n = head_after iResponseTypeName AgentResponsesEvents ''AgentResponses'' n (map_of (heads f3) n)"
    using plain_data_ok [of f3 AgentResponseData AgentResponsesEvent pascalCase "''AgentResponses''"] k3
      events_known [OF k3 pd, of AgentResponsesEvent] tables_distinct ps
    unfolding index_common [OF pd] index_special [OF pd] event_names [OF pd] by (auto simp: all_known_def d3)
  have k4: "all_known f4" by (rule all_known_mono [OF k3]) (auto simp: h4)
  have e4: "\<forall>s. EnumDeclaration s \<in> set (declarations f4) \<longrightarrow> enum_name s \<noteq> ''AgentNotifications'' @ ''Event''"
    unfolding d4 by (rule index_enums(2))
  have x4: "\<forall>x \<in> set AgentNotificationsEvent. map_of (heads f4) (pascalCase (fst x)) \<noteq> None"
    by (rule events_known [OF k4 pd]) simp
  have p4: "pascalCase ''AgentNotifications'' = ''AgentNotifications''" using ps by simp
  obtain f5 where r5: "customNotificationData pascalCase f4 ''AgentNotifications'' AgentNotificationsEvent = Return f5
    \<and> declarations f5 = declarations f4 @ common_declarations pascalCase ''AgentNotifications'' AgentNotificationsEvent
        @ notification_declarations pascalCase ''AgentNotifications'' (map fst AgentNotificationsEvent)
    \<and> (\<forall>n. map_of (heads f5) n = notification_head (take 4 event_interfaces) ''AgentNotifications'' n (map_of (heads f4) n))"
    using customNotificationData_ok [OF known(3) [OF k4] x4 tables_distinct(5) p4 e4]
    unfolding event_names [OF pd] notification_head_def by auto
  have d5: "declarations f5 = map unformatted index_declarations"
    using r5 unfolding index_common [OF pd] table_events index_special [OF pd] d4 by (simp add: unformatted_index)
  from r5 have h5: "\<And>n. map_of (heads f5) n =
      notification_head (take 4 event_interfaces) ''AgentNotifications'' n (map_of (heads f4) n)" by simp
  note cs = assms(2) [unfolded compiled_simps, simplified]
  have "run_generators pascalCase (zip jsonSchemaUrls (map snd index_schemas)) ?f0 = Return f5"
    using f1 f2 r3 f4 r5 by (simp add: jsonSchemaUrls_def index_schemas_def basenames ps)
  moreover have "map_of (heads f5) n = Some parents" if "(n, parents) \<in> set index_extends" for n parents
  proof -
    have "map_of (heads ?f0) n = compiled_head n"
      using that assms(2) unfolding generic_heads by (rule compiled_heads [rotated])
    then have "map_of (heads f5) n = final_head n (compiled_head n)"
      unfolding h5 h4 h3 h2 h1 final_head_def Let_def by (simp only:)
    with that final_heads show ?thesis by (auto simp: list_all_iff)
  qed
  ultimately show ?thesis using d5 by blast
qed

lemma fetch_published:
  assumes "schemas_published fetch"
  shows "fetch_all fetch jsonSchemaUrls = Return (zip jsonSchemaUrls (map snd index_schemas))"
  using assms by (auto simp: schemas_published_def index_schemas_def jsonSchemaUrls_def split: sum.splits)

text \<open>The alternatives of all schemas, in the order the generator merges them.\<close>

definition all_alternatives :: schema where
  "all_alternatives = AgentNotificationsEvent @ AgentResponsesEvent @ ConsumerNotificationsEvent @ ConsumerResponsesEvent
     @ ConsumerRequestsEvent"

lemma merged_alternatives:
  "foldl (\<lambda>previous schema. schema @ previous) [] (map snd (zip jsonSchemaUrls (map snd index_schemas))) = all_alternatives"
  by (simp add: index_schemas_def jsonSchemaUrls_def all_alternatives_def)

text \<open>
  C37. The generator and the checked-in file agree: when the schemas have the events and type names of
  the file, and compiling them gives the interfaces of these events, a run makes the declarations of
  the file, in its order, with every signature, wrapper method and constant (as they are before the
  formatter puts a space after \<open>new\<close>), and the interfaces of the events extend what they extend in the
  file.
\<close>

theorem generator_reproduces_index:
  assumes "pascal_documented pascalCase" and "schemas_published fetch" and "interfaces_compiled typings"
    and "merge all_alternatives = Return merged" and "compile merged = Return typings"
  shows "\<exists>file. generate_interfaces pascalCase fetch merge compile d =
      (None, d\<lparr>ums_schema := Some merged, index_file := Some (header @ autogeneratedBanner @ [CHR 0x0A, CHR 0x0A], file)\<rparr>)
    \<and> declarations file = map unformatted index_declarations
    \<and> (\<forall>(n, parents) \<in> set index_extends. map_of (heads file) n = Some parents)"
proof -
  from generators_run [OF assms(1,3)] obtain f where
    run: "run_generators pascalCase (zip jsonSchemaUrls (map snd index_schemas))
      (generateGenericTypings \<lparr>declarations = [], heads = typings\<rparr>) = Return f"
    and f: "declarations f = map unformatted index_declarations" "\<forall>(n, parents) \<in> set index_extends. map_of (heads f) n = Some parents"
    by blast
  have "generate_interfaces pascalCase fetch merge compile d =
      (None, d\<lparr>ums_schema := Some merged, index_file := Some (header @ autogeneratedBanner @ [CHR 0x0A, CHR 0x0A], f)\<rparr>)"
    unfolding generate_interfaces_def fetch_published [OF assms(2)] sum.case merged_alternatives assms(4,5) Let_def run by simp
  with f show ?thesis by blast
qed

theorem generator_reproduces_index_witness:
  "\<exists>file. generate_interfaces capitalize
        (\<lambda>url. case map_of index_schemas url of Some s \<Rightarrow> Return s | None \<Rightarrow> Throw ())
        Return (\<lambda>_. Return (map (\<lambda>n. (n, [])) event_interfaces)) \<lparr>ums_schema = None, index_file = None\<rparr> =
      (None, \<lparr>ums_schema = Some all_alternatives, index_file = Some (header @ autogeneratedBanner @ [CHR 0x0A, CHR 0x0A], file)\<rparr>)
    \<and> declarations file = map unformatted index_declarations"
proof -
  have p: "pascal_documented capitalize" by (simp add: pascal_documented_def)
  have s: "schemas_published (\<lambda>url. case map_of index_schemas url of Some s \<Rightarrow> Return s | None \<Rightarrow> Throw ())"
    by (simp add: schemas_published_def index_schemas_def jsonSchemaUrls_def)
  have c: "interfaces_compiled (map (\<lambda>n. (n, [])) event_interfaces)" by code_simp
  from generator_reproduces_index [OF p s c, of Return all_alternatives "\<lambda>_. Return (map (\<lambda>n. (n, [])) event_interfaces)"
    "\<lparr>ums_schema = None, index_file = None\<rparr>"] show ?thesis by auto
qed

text \<open>
  A run that fails returns the error instead of rejecting. If a package failed, the generated file
  is as before; if the generator missed an interface, an alias, an enum or a member, the file is gone,
  because it is removed before the generators run.
\<close>

theorem generator_failure:
  assumes "generate_interfaces pascalCase fetch merge compile d = (Some e, d')"
  shows "case e of Package _ \<Rightarrow> index_file d' = index_file d | Missing _ \<Rightarrow> index_file d' = None"
  using assms by (auto simp: generate_interfaces_def Let_def split: sum.splits)

theorem generator_failure_witness:
  "index_file (snd (generate_interfaces (\<lambda>s. s) (\<lambda>_. Return [(''Missing'', ''missing'')]) (Return :: schema \<Rightarrow> unit + schema) (\<lambda>_. Return [])
    \<lparr>ums_schema = None, index_file = Some ([], \<lparr>declarations = [], heads = []\<rparr>)\<rparr>)) = None"
proof -
  let ?g = "generate_interfaces (\<lambda>s. s) (\<lambda>_. Return [(''Missing'', ''missing'')]) (Return :: schema \<Rightarrow> unit + schema) (\<lambda>_. Return [])
    \<lparr>ums_schema = None, index_file = Some ([], \<lparr>declarations = [], heads = []\<rparr>)\<rparr>"
  have "fst ?g = Some (Missing (NoInterface ''Missing''))" by code_simp
  then have "?g = (Some (Missing (NoInterface ''Missing'')), snd ?g)" by (simp add: prod_eq_iff)
  from generator_failure [OF this] show ?thesis by simp
qed

end
