(* ===== verification/Ums_Typing.thy ===== *)
theory Ums_Typing
  imports Ums_Types Generated_Index
begin

text \<open>
  The types of the messages and the code that handles them: the interfaces of the generated file extend
  what they say, the copies the schema compiler made of an interface are the same type, and the message
  callback of \<open>UmsClient\<close> routes a message as its type says.
\<close>

section \<open>The unions of the file\<close>

definition UmsSchema :: ts_type where
  "UmsSchema = TUnion [MessagingEventNotification, ExConversationChangeNotification, RoutingTaskNotification,
     AgentStateNotification, RequestConversationResponse, StringResp, PublishEventResponse, GenericSubscribeResponse,
     GetUserProfileResponse, SubscribeExConversationsResponse, MessagingEventNotification1, InitConnection,
     UpdateConversationField, ConsumerRequestConversation, PublishEvent, SubscribeMessagingEvents,
     SubscribeExConversations, UnsubscribeExConversations]"

definition ConsumerRequests :: ts_type where
  "ConsumerRequests = TUnion [InitConnection, UpdateConversationField, ConsumerRequestConversation, PublishEvent,
     SubscribeMessagingEvents, SubscribeExConversations, UnsubscribeExConversations]"

definition ConsumerResponses :: ts_type where
  "ConsumerResponses = TUnion [RequestConversationResponse, StringResp, PublishEventResponse, GenericSubscribeResponse,
     SubscribeExConversationsResponse]"

definition ConsumerNotifications :: ts_type where
  "ConsumerNotifications = TUnion [MessagingEventNotification, ExConversationChangeNotification]"

definition AgentResponses :: ts_type where
  "AgentResponses = TUnion [RequestConversationResponse, StringResp, PublishEventResponse, GenericSubscribeResponse,
     GetUserProfileResponse, SubscribeExConversationsResponse]"

definition AgentNotifications :: ts_type where
  "AgentNotifications = TUnion [MessagingEventNotification, ExConversationChangeNotification, RoutingTaskNotification,
     AgentStateNotification]"

text \<open>The generic interfaces, with the properties they inherit.\<close>

definition ITyped :: ts_type where
  "ITyped = TObject [(''type'', Required, TString)] False"

definition ISendType :: ts_type where
  "ISendType = TObject [(''type'', Required, TString), (''id'', Required, TString)] False"

definition IResponseType :: ts_type where
  "IResponseType = TObject [(''type'', Required, TString), (''reqId'', Required, TString)] False"

definition INotificationType :: ts_type where
  "INotificationType = TObject [(''type'', Required, TString)] False"

text \<open>The event interfaces, each with its type and with the name and the type of what it extends.\<close>

definition event_types :: "(string \<times> ts_type \<times> string \<times> ts_type) list" where
  "event_types =
     [(''MessagingEventNotification'', MessagingEventNotification, ''INotificationType'', INotificationType),
      (''ExConversationChangeNotification'', ExConversationChangeNotification, ''INotificationType'', INotificationType),
      (''RoutingTaskNotification'', RoutingTaskNotification, ''INotificationType'', INotificationType),
      (''AgentStateNotification'', AgentStateNotification, ''INotificationType'', INotificationType),
      (''RequestConversationResponse'', RequestConversationResponse, ''IResponseType'', IResponseType),
      (''StringResp'', StringResp, ''IResponseType'', IResponseType),
      (''PublishEventResponse'', PublishEventResponse, ''IResponseType'', IResponseType),
      (''GenericSubscribeResponse'', GenericSubscribeResponse, ''IResponseType'', IResponseType),
      (''GetUserProfileResponse'', GetUserProfileResponse, ''IResponseType'', IResponseType),
      (''SubscribeExConversationsResponse'', SubscribeExConversationsResponse, ''IResponseType'', IResponseType),
      (''InitConnection'', InitConnection, ''ISendType'', ISendType),
      (''UpdateConversationField'', UpdateConversationField, ''ISendType'', ISendType),
      (''ConsumerRequestConversation'', ConsumerRequestConversation, ''ISendType'', ISendType),
      (''PublishEvent'', PublishEvent, ''ISendType'', ISendType),
      (''SubscribeMessagingEvents'', SubscribeMessagingEvents, ''ISendType'', ISendType),
      (''SubscribeExConversations'', SubscribeExConversations, ''ISendType'', ISendType),
      (''UnsubscribeExConversations'', UnsubscribeExConversations, ''ISendType'', ISendType)]"

section \<open>What the interfaces extend\<close>

lemmas response_type_defs = RequestConversationResponse_def StringResp_def PublishEventResponse_def
  GenericSubscribeResponse_def GetUserProfileResponse_def SubscribeExConversationsResponse_def

lemmas notification_type_defs = MessagingEventNotification_def ExConversationChangeNotification_def
  RoutingTaskNotification_def AgentStateNotification_def

lemmas request_type_defs = InitConnection_def UpdateConversationField_def ConsumerRequestConversation_def
  PublishEvent_def SubscribeMessagingEvents_def SubscribeExConversations_def UnsubscribeExConversations_def

lemma responses_subtype:
  "subtype RequestConversationResponse IResponseType" "subtype StringResp IResponseType"
  "subtype PublishEventResponse IResponseType" "subtype GenericSubscribeResponse IResponseType"
  "subtype GetUserProfileResponse IResponseType" "subtype SubscribeExConversationsResponse IResponseType"
  by (simp_all add: IResponseType_def response_type_defs)

lemma notifications_subtype:
  "subtype MessagingEventNotification INotificationType" "subtype ExConversationChangeNotification INotificationType"
  "subtype RoutingTaskNotification INotificationType" "subtype AgentStateNotification INotificationType"
  by (simp_all add: INotificationType_def notification_type_defs)

lemma requests_subtype:
  "subtype InitConnection ISendType" "subtype UpdateConversationField ISendType"
  "subtype ConsumerRequestConversation ISendType" "subtype PublishEvent ISendType"
  "subtype SubscribeMessagingEvents ISendType" "subtype SubscribeExConversations ISendType"
  "subtype UnsubscribeExConversations ISendType"
  by (simp_all add: ISendType_def request_type_defs)

lemma extends_checked: "list_all (\<lambda>(n, t, p, u). subtype t u) event_types"
  by (simp add: event_types_def responses_subtype notifications_subtype requests_subtype)

lemma extends_names: "map (\<lambda>(n, t, p, u). (n, [p])) event_types = take 17 index_extends"
  by (simp add: event_types_def index_extends_def)

lemma extends_distinct: "distinct (map fst index_extends)"
  by code_simp

text \<open>
  The \<open>extends\<close> clauses the generator writes are right: every event interface of the file extends
  exactly one generic interface, and every value that has the interface's type has the generic one's.
\<close>

theorem event_interfaces_extend:
  assumes "(n, t, p, u) \<in> set event_types" and "conforms t v"
  shows "map_of index_extends n = Some [p] \<and> conforms u v"
proof
  have "(n, [p]) \<in> set (take 17 index_extends)"
    using assms(1) image_eqI [of "(n, [p])" "\<lambda>(n, t, p, u). (n, [p])" "(n, t, p, u)" "set event_types"]
    unfolding extends_names [symmetric] by simp
  then show "map_of index_extends n = Some [p]"
    using extends_distinct set_take_subset [of 17 index_extends] by (simp add: subset_iff)
  have "subtype t u" using extends_checked assms(1) by (auto simp: list_all_iff)
  then show "conforms u v" using assms(2) by (rule subtype_conforms)
qed

definition routing_task :: json where
  "routing_task = JObj [(''kind'', JStr ''notification''), (''type'', JStr ''routing.routingTaskNotification''),
     (''body'', JObj [(''subscriptionId'', JStr ''s1''), (''changes'', JArr [])])]"

lemma routing_task_typed: "conforms RoutingTaskNotification routing_task"
  by (simp add: RoutingTaskNotification_def routing_task_def)

theorem event_interfaces_extend_witness:
  "conforms INotificationType routing_task"
proof -
  have m: "(''RoutingTaskNotification'', RoutingTaskNotification, ''INotificationType'', INotificationType) \<in> set event_types"
    by (simp add: event_types_def)
  from event_interfaces_extend [OF m routing_task_typed] show ?thesis by (rule conjunct2)
qed

section \<open>Copies\<close>

text \<open>The schema compiler numbers the interfaces it meets again.\<close>

definition interface_copies :: "(ts_type \<times> ts_type list) list" where
  "interface_copies =
     [(ActionReason, [ActionReason1, ActionReason2, ActionReason3, ActionReason4, ActionReason5, ActionReason6, ActionReason7, ActionReason8]),
      (BotResponse, [BotResponse1, BotResponse2, BotResponse3, BotResponse4, BotResponse5, BotResponse6, BotResponse7, BotResponse8]),
      (IbmWatsonInfo, [IbmWatsonInfo1, IbmWatsonInfo2, IbmWatsonInfo3, IbmWatsonInfo4, IbmWatsonInfo5, IbmWatsonInfo6, IbmWatsonInfo7, IbmWatsonInfo8]),
      (ExternalId, [ExternalId1, ExternalId2, ExternalId3, ExternalId4, ExternalId5, ExternalId6, ExternalId7, ExternalId8]),
      (TextValue, [TextValue1, TextValue2]),
      (RichContentEvent, [RichContentEvent1, RichContentEvent2]),
      (Element, [Element1, Element2]),
      (HostedFile, [HostedFile1, HostedFile2]),
      (ChatStateEvent, [ChatStateEvent1, ChatStateEvent2]),
      (AcceptStatusEvent, [AcceptStatusEvent1, AcceptStatusEvent2])]"

lemmas copied_defs =
  ActionReason_def BotResponse_def IbmWatsonInfo_def ExternalId_def TextValue_def RichContentEvent_def
  Element_def HostedFile_def ChatStateEvent_def AcceptStatusEvent_def ActionReason1_def ActionReason2_def
  ActionReason3_def ActionReason4_def ActionReason5_def ActionReason6_def ActionReason7_def ActionReason8_def
  BotResponse1_def BotResponse2_def BotResponse3_def BotResponse4_def BotResponse5_def BotResponse6_def
  BotResponse7_def BotResponse8_def IbmWatsonInfo1_def IbmWatsonInfo2_def IbmWatsonInfo3_def IbmWatsonInfo4_def
  IbmWatsonInfo5_def IbmWatsonInfo6_def IbmWatsonInfo7_def IbmWatsonInfo8_def ExternalId1_def ExternalId2_def
  ExternalId3_def ExternalId4_def ExternalId5_def ExternalId6_def ExternalId7_def ExternalId8_def TextValue1_def
  TextValue2_def RichContentEvent1_def RichContentEvent2_def Element1_def Element2_def HostedFile1_def
  HostedFile2_def ChatStateEvent1_def ChatStateEvent2_def AcceptStatusEvent1_def AcceptStatusEvent2_def

lemma copies_equal: "list_all (\<lambda>(t, copies). list_all (\<lambda>c. c = t) copies) interface_copies"
  by (simp add: interface_copies_def copied_defs)

lemma second_notification_refines:
  "conforms MessagingEventNotification1 v \<Longrightarrow> conforms MessagingEventNotification v"
  "conforms MessagingEventNotification1 v \<Longrightarrow> (case v of JObj kvs \<Rightarrow> map_of kvs ''type'' = Some (JStr ''ms.MessagingEventNotification'') | _ \<Rightarrow> False)"
  by (auto simp: MessagingEventNotification1_def MessagingEventNotification_def copied_defs split: json.splits option.splits)

section \<open>Dispatch by type\<close>

lemma IResponseType_reqId: "conforms IResponseType v \<Longrightarrow> \<exists>i. prop_of v ''reqId'' = Some (JStr i)"
  by (auto simp: IResponseType_def prop_of_def get_prop.simps split: json.splits option.splits)

text \<open>
  C13. What has the type of a response is handled as one: every value of one of the response unions has a
  request id that is a string, the message callback does not take it for a notification, and when a
  request waits for that id it is the one request the callback fulfils, with this value.
\<close>

theorem typed_responses_settle:
  assumes "jsm_documented J" and "ums_reachable J timeout \<sigma>"
    and "conforms ConsumerResponses v \<or> conforms AgentResponses v"
  shows "\<exists>i. prop_of v ''reqId'' = Some (JStr i) \<and> isResponseType v
    \<and> (\<forall>k. handlers (umsResponseHandler (ums_this \<sigma>)) i = [(True, k)] \<longrightarrow>
         fst (on_message None (Some v) \<sigma>) = Return []
         \<and> requests (snd (on_message None (Some v) \<sigma>)) = settle k (Fulfilled v) (requests \<sigma>))
    \<and> (handlers (umsResponseHandler (ums_this \<sigma>)) i = [] \<longrightarrow> snd (on_message None (Some v) \<sigma>) = \<sigma>)"
proof -
  have "conforms IResponseType v"
    using assms(3) responses_subtype [THEN subtype_conforms]
    by (auto simp: ConsumerResponses_def AgentResponses_def)
  then obtain i where i: "prop_of v ''reqId'' = Some (JStr i)" using IResponseType_reqId by blast
  have t: "truthy (Some v)" by (rule prop_of_truthy [OF i])
  have inv: "ums_inv \<sigma>" using ums_reachable_inv assms(1,2) by blast
  have r: "isResponseType v" using i by (simp add: isResponseType_def)
  show ?thesis
    using i r on_message_response [OF inv t i] on_message_unknown(1) [OF t i] by auto
qed

definition typed_answer :: json where
  "typed_answer = JObj [(''kind'', JStr ''resp''), (''reqId'', JStr ''a''), (''type'', JStr ''cm.RequestConversationResponse''),
     (''code'', JNum 200), (''body'', JObj [(''conversationId'', JStr ''c1'')])]"

theorem typed_responses_settle_witness:
  "map rq_state (requests (snd (on_message None (Some typed_answer) (snd (ums_sendMessage ''a'' running_ums))))) =
     [Fulfilled typed_answer]"
proof -
  let ?\<sigma> = "snd (ums_sendMessage ''a'' running_ums)"
  have run: "ums_exec reference_jsm 5000 [Send ''a''] running_ums = Some ?\<sigma>" by simp
  have r: "ums_reachable reference_jsm 5000 ?\<sigma>" by (rule ums_exec_reachable [OF running_ums_reachable run])
  have "conforms RequestConversationResponse typed_answer"
    by (simp add: RequestConversationResponse_def typed_answer_def)
  then have c: "conforms ConsumerResponses typed_answer \<or> conforms AgentResponses typed_answer"
    by (simp add: ConsumerResponses_def)
  have p: "prop_of typed_answer ''reqId'' = Some (JStr ''a'')" by (simp add: typed_answer_def prop_of_def)
  have h: "handlers (umsResponseHandler (ums_this ?\<sigma>)) ''a'' = [(True, 0)]"
    "requests ?\<sigma> = [\<lparr>rq_id = ''a'', rq_state = Racing, rq_timer = True\<rparr>]"
    using running_ums_this by (simp_all add: ums_run_simps)
  from typed_responses_settle [OF reference_jsm_documented r c] p h show ?thesis
    by (simp add: settle_def)
qed

text \<open>The wrapper methods, each with the type of its callback's parameter and the type name it subscribes to.\<close>

definition typed_wrappers :: "(('n \<Rightarrow> ('s, 'n) ums \<Rightarrow> (js_error + unit) \<times> ('s, 'n) ums) \<times> ts_type \<times> string) list" where
  "typed_wrappers =
     [(consumer_onMessagingEventNotification, MessagingEventNotification, ''ms.MessagingEventNotification''),
      (consumer_onExConversationChangeNotification, ExConversationChangeNotification, ''cqm.ExConversationChangeNotification''),
      (agent_onMessagingEventNotification, MessagingEventNotification, ''ms.MessagingEventNotification''),
      (agent_onExConversationChangeNotification, ExConversationChangeNotification, ''cqm.ExConversationChangeNotification''),
      (agent_onRoutingTaskNotification, RoutingTaskNotification, ''routing.routingTaskNotification''),
      (agent_onAgentStateNotification, AgentStateNotification, ''routing.agentStateNotification'')]"

lemma typed_wrappers_all: "map (\<lambda>(f, ty, t). (f, t)) typed_wrappers = wrapper_methods"
  by (simp add: typed_wrappers_def wrapper_methods_def)

lemma notification_names:
  "conforms ExConversationChangeNotification v \<Longrightarrow> prop_of v ''type'' = Some (JStr ''cqm.ExConversationChangeNotification'')"
  "conforms RoutingTaskNotification v \<Longrightarrow> prop_of v ''type'' = Some (JStr ''routing.routingTaskNotification'')"
  "conforms AgentStateNotification v \<Longrightarrow> prop_of v ''type'' = Some (JStr ''routing.agentStateNotification'')"
  by (auto simp: notification_type_defs prop_of_def split: json.splits option.splits)

lemma typed_wrappers_type:
  assumes "(f, ty, t) \<in> set typed_wrappers" and "conforms ty v"
  shows "\<exists>u. prop_of v ''type'' = Some (JStr u) \<and> (ty = MessagingEventNotification \<or> u = t)"
proof -
  have "conforms INotificationType v"
    using assms notifications_subtype [THEN subtype_conforms] by (auto simp: typed_wrappers_def)
  then obtain u where u: "prop_of v ''type'' = Some (JStr u)"
    by (auto simp: INotificationType_def prop_of_def split: json.splits option.splits)
  have "u = t" if "ty \<noteq> MessagingEventNotification"
    using assms u that notification_names [of v] by (auto simp: typed_wrappers_def)
  with u show ?thesis by blast
qed

text \<open>Whatever the message callback passes to subscribers, it passes to those of the message's type.\<close>

lemma notification_callbacks:
  assumes ok: "notifications_ok (umsNotificationHandler (ums_this \<sigma>))"
    and "\<not> isResponseType v" and "prop_of v ''type'' = Some (JStr u)"
  shows "snd (on_message None (Some v) \<sigma>) = \<sigma>"
    and "fst (on_message None (Some v) \<sigma>) = Return cbs \<Longrightarrow>
      cbs = (if u = [] then [] else listeners u (umsNotificationHandler (ums_this \<sigma>)))"
proof -
  let ?ls = "listeners u (umsNotificationHandler (ums_this \<sigma>))"
  have "snd (on_message None (Some v) \<sigma>) = \<sigma> \<and> (fst (on_message None (Some v) \<sigma>) = Return cbs \<longrightarrow> cbs = (if u = [] then [] else ?ls))"
  proof (cases "u = [] \<or> ?ls = []")
    case True
    then show ?thesis
      using assms(2,3) prop_of_truthy [OF assms(3)]
      by (auto simp: on_message_def String_of_def emit_def listeners_def with_this_def Let_def)
  next
    case False
    then show ?thesis using notification_emitted [OF ok assms(2,3)] by auto
  qed
  then show "snd (on_message None (Some v) \<sigma>) = \<sigma>"
    and "fst (on_message None (Some v) \<sigma>) = Return cbs \<Longrightarrow> cbs = (if u = [] then [] else ?ls)" by blast+
qed

lemma response_callbacks: "isResponseType v \<Longrightarrow> fst (on_message None (Some v) \<sigma>) = Return cbs \<Longrightarrow> cbs = []"
  by (auto simp: on_message_def split: if_splits prod.splits sum.splits)

text \<open>
  C24. What becomes of a value that has the type of a notification once its wrapper method has
  subscribed a callback on a started client, for each of the six wrapper methods and every value of the
  type of its callback's parameter. The value has a type name, a string, which for all but
  \<open>MessagingEventNotification\<close> is the one the method subscribes to; that interface says any string. A value with
  a \<open>reqId\<close> that is a string, which the interfaces' index signature admits, is taken for a response and
  passed to no subscriber. Any other value of the method's type name is passed to the callback, after the
  earlier subscribers of that name; and a \<open>MessagingEventNotification\<close> of another type name is passed only to
  those who were subscribed to that name before, so not to the callback on account of this subscription.
\<close>

theorem typed_notification_delivered:
  assumes "jsm_documented J" and "ums_reachable J timeout \<sigma>" and "started (ums_this \<sigma>)"
    and "(f, ty, t) \<in> set typed_wrappers" and "conforms ty v"
  shows "\<exists>\<sigma>' u. f cb \<sigma> = (Return (), \<sigma>')
    \<and> prop_of v ''type'' = Some (JStr u) \<and> (ty = MessagingEventNotification \<or> u = t)
    \<and> (isResponseType v \<longrightarrow> (\<forall>cbs. fst (on_message None (Some v) \<sigma>') = Return cbs \<longrightarrow> cbs = []))
    \<and> (\<not> isResponseType v \<longrightarrow> u = t \<longrightarrow>
         on_message None (Some v) \<sigma>' = (Return (listeners t (umsNotificationHandler (ums_this \<sigma>)) @ [cb]), \<sigma>'))
    \<and> (\<not> isResponseType v \<longrightarrow> u \<noteq> t \<longrightarrow> snd (on_message None (Some v) \<sigma>') = \<sigma>'
         \<and> (\<forall>cbs. fst (on_message None (Some v) \<sigma>') = Return cbs \<longrightarrow>
              cbs = (if u = [] then [] else listeners u (umsNotificationHandler (ums_this \<sigma>)))))"
proof -
  have m: "(f, t) \<in> set wrapper_methods"
    using assms(4) unfolding typed_wrappers_all [symmetric] by force
  from typed_wrappers_type [OF assms(4,5)] obtain u where u: "prop_of v ''type'' = Some (JStr u)" "ty = MessagingEventNotification \<or> u = t"
    by blast
  from wrapper_subscribed [OF assms(1-3) m] obtain \<sigma>' where \<sigma>': "f cb \<sigma> = (Return (), \<sigma>')"
    and ok: "notifications_ok (umsNotificationHandler (ums_this \<sigma>'))"
    and ls: "\<And>u. listeners u (umsNotificationHandler (ums_this \<sigma>')) =
      (if u = t then listeners u (umsNotificationHandler (ums_this \<sigma>)) @ [cb]
       else listeners u (umsNotificationHandler (ums_this \<sigma>)))" by blast
  have mine: "on_message None (Some v) \<sigma>' = (Return (listeners t (umsNotificationHandler (ums_this \<sigma>)) @ [cb]), \<sigma>')"
    if "\<not> isResponseType v" "u = t"
  proof -
    have "on_message None (Some v) \<sigma>' = (Return (listeners t (umsNotificationHandler (ums_this \<sigma>'))), \<sigma>')"
      by (rule notification_emitted [OF ok that(1) _ wrapper_is_subscription(2) [OF m]]) (use u that ls in simp_all)
    then show ?thesis by (simp add: ls)
  qed
  have "snd (on_message None (Some v) \<sigma>') = \<sigma>'
      \<and> (\<forall>cbs. fst (on_message None (Some v) \<sigma>') = Return cbs \<longrightarrow>
           cbs = (if u = [] then [] else listeners u (umsNotificationHandler (ums_this \<sigma>))))"
    if "\<not> isResponseType v" "u \<noteq> t"
  proof -
    have "listeners u (umsNotificationHandler (ums_this \<sigma>')) = listeners u (umsNotificationHandler (ums_this \<sigma>))"
      using ls that(2) by simp
    then show ?thesis using notification_callbacks [OF ok that(1) u(1)] by metis
  qed
  with \<sigma>' u mine response_callbacks [of v \<sigma>'] show ?thesis by blast
qed

text \<open>A notification that reaches its callback, and one of the type of a callback that does not.\<close>

definition misnamed_event :: json where
  "misnamed_event = JObj [(''kind'', JStr ''notification''), (''type'', JStr ''other''), (''body'', JObj [(''changes'', JArr [])])]"

lemma misnamed_event_typed: "conforms MessagingEventNotification misnamed_event"
  by (simp add: MessagingEventNotification_def misnamed_event_def)

theorem typed_notification_delivered_witness:
  "(\<exists>\<sigma>'. agent_onRoutingTaskNotification 3 running_ums = (Return (), \<sigma>')
      \<and> fst (on_message None (Some routing_task) \<sigma>') = Return [3])
   \<and> (\<exists>\<sigma>'. agent_onMessagingEventNotification 3 running_ums = (Return (), \<sigma>')
      \<and> (\<forall>cbs. fst (on_message None (Some misnamed_event) \<sigma>') = Return cbs \<longrightarrow> cbs = []))"
proof
  have s: "started (ums_this running_ums)" by (simp add: running_ums_def started_ums_def after_start_def started_def)
  have m: "(agent_onRoutingTaskNotification, RoutingTaskNotification, ''routing.routingTaskNotification'') \<in> set typed_wrappers"
    "(agent_onMessagingEventNotification, MessagingEventNotification, ''ms.MessagingEventNotification'') \<in> set typed_wrappers"
    by (simp_all add: typed_wrappers_def)
  have n: "\<not> isResponseType routing_task" "\<not> isResponseType misnamed_event"
    "prop_of routing_task ''type'' = Some (JStr ''routing.routingTaskNotification'')"
    "prop_of misnamed_event ''type'' = Some (JStr ''other'')"
    by (simp_all add: routing_task_def misnamed_event_def prop_of_def isResponseType_def)
  have e: "listeners u (umsNotificationHandler (ums_this running_ums)) = []" for u
    by (simp add: listeners_def)
  note d = typed_notification_delivered [OF reference_jsm_documented running_ums_reachable s]
  from d [OF m(1) routing_task_typed, of 3] n e show "\<exists>\<sigma>'. agent_onRoutingTaskNotification 3 running_ums = (Return (), \<sigma>')
      \<and> fst (on_message None (Some routing_task) \<sigma>') = Return [3]" by auto
  from d [OF m(2) misnamed_event_typed, of 3] n e show "\<exists>\<sigma>'. agent_onMessagingEventNotification 3 running_ums = (Return (), \<sigma>')
      \<and> (\<forall>cbs. fst (on_message None (Some misnamed_event) \<sigma>') = Return cbs \<longrightarrow> cbs = [])" by auto
qed

end
