(* ===== verification/Ums_Refinement.thy ===== *)
theory Ums_Refinement
  imports Ums_Properties
begin

text \<open>
  The abstract specification of the requests of a UMS client, and the proof that the client implements
  it: what callers rely on is a partial map from the ids in use to requests and the list of all
  requests with where their promises are; listeners, emitters, timers, the life cycle and the
  subscriptions are details below it.
\<close>

section \<open>The specification\<close>

record board =
  waiting :: "string \<Rightarrow> nat option"
  book :: "(string \<times> rq_state) list"

text \<open>A request is refused while its id waits, and otherwise becomes the request that waits for the id.\<close>

definition board_send :: "string \<Rightarrow> rq_state \<Rightarrow> board \<Rightarrow> board" where
  "board_send i st b =
     (if waiting b i \<noteq> None then b
      else b\<lparr>waiting := (waiting b)(i \<mapsto> length (book b)), book := book b @ [(i, st)]\<rparr>)"

text \<open>Only a request whose promise is pending can be rejected.\<close>

definition board_fail :: "nat \<Rightarrow> js_error \<Rightarrow> board \<Rightarrow> board" where
  "board_fail k e b =
     (if k < length (book b) \<and> snd (book b ! k) = Racing
      then b\<lparr>book := (book b)[k := (fst (book b ! k), Rejecting e)]\<rparr> else b)"

text \<open>The rejection arrives at the caller, and the id is free again.\<close>

definition board_catch :: "nat \<Rightarrow> board \<Rightarrow> board" where
  "board_catch k b =
     (case snd (book b ! k) of
        Rejecting e \<Rightarrow>
          b\<lparr>waiting := (waiting b)(fst (book b ! k) := None), book := (book b)[k := (fst (book b ! k), Failed e)]\<rparr>
      | _ \<Rightarrow> b)"

text \<open>A message with a request id is the answer of the request that waits for the id, if there is one.\<close>

definition board_answer :: "json \<Rightarrow> board \<Rightarrow> board" where
  "board_answer v b =
     (case prop_of v ''reqId'' of
        Some (JStr i) \<Rightarrow>
          (case waiting b i of
             None \<Rightarrow> b
           | Some k \<Rightarrow>
               b\<lparr>waiting := (waiting b)(i := None),
                 book := (if snd (book b ! k) = Racing then (book b)[k := (i, Fulfilled v)] else book b)\<rparr>)
      | _ \<Rightarrow> b)"

text \<open>A stop forgets who waits.\<close>

definition board_clear :: "board \<Rightarrow> board" where
  "board_clear b = b\<lparr>waiting := Map.empty\<rparr>"

section \<open>The abstraction\<close>

definition abs_waiting :: "nat emitter \<Rightarrow> string \<Rightarrow> nat option" where
  "abs_waiting em i = (case handlers em i of [] \<Rightarrow> None | h # _ \<Rightarrow> Some (snd h))"

definition abs_book :: "ums_request list \<Rightarrow> (string \<times> rq_state) list" where
  "abs_book rs = map (\<lambda>r. (rq_id r, rq_state r)) rs"

definition abs_ums :: "('s, 'n) ums \<Rightarrow> board" where
  "abs_ums \<sigma> = \<lparr>waiting = abs_waiting (umsResponseHandler (ums_this \<sigma>)), book = abs_book (requests \<sigma>)\<rparr>"

lemma abs_ums_simps [simp]:
  "waiting (abs_ums \<sigma>) = abs_waiting (umsResponseHandler (ums_this \<sigma>))" "book (abs_ums \<sigma>) = abs_book (requests \<sigma>)"
  by (simp_all add: abs_ums_def)

lemma abs_book_simps [simp]:
  "length (abs_book rs) = length rs" "k < length rs \<Longrightarrow> abs_book rs ! k = (rq_id (rs ! k), rq_state (rs ! k))"
  "abs_book (rs @ rs') = abs_book rs @ abs_book rs'" "abs_book [] = []"
  "abs_book (r # rs) = (rq_id r, rq_state r) # abs_book rs"
  "abs_book (rs[k := r]) = (abs_book rs)[k := (rq_id r, rq_state r)]"
  by (simp_all add: abs_book_def map_update)

lemma abs_waiting_Nil [simp]: "abs_waiting [] = Map.empty"
  by (simp add: abs_waiting_def fun_eq_iff)

lemma abs_waiting_None: "abs_waiting em i = None \<longleftrightarrow> handlers em i = []"
  by (simp add: abs_waiting_def split: list.splits)

lemma abs_waiting_Some: "table_ok em rs \<Longrightarrow> abs_waiting em i = Some k \<longleftrightarrow> handlers em i = [(True, k)]"
  by (cases "handlers em i = []") (auto simp: abs_waiting_def elim: table_ok_handlers)

lemma abs_waiting_bound: "table_ok em rs \<Longrightarrow> abs_waiting em i = Some k \<Longrightarrow> k < length rs"
  by (cases "handlers em i = []") (auto simp: abs_waiting_def elim: table_ok_handlers)

lemma board_eqI: "waiting b = waiting b' \<Longrightarrow> book b = book b' \<Longrightarrow> b = (b' :: board)"
  by simp

section \<open>The operations\<close>

lemma abs_settle: "abs_book (settle k (Rejecting e) rs) = book (board_fail k e \<lparr>waiting = w, book = abs_book rs\<rparr>)"
  by (cases "k < length rs") (simp_all add: settle_def board_fail_def)

lemma refine_fail: "abs_ums (\<sigma>\<lparr>requests := settle k (Rejecting e) (requests \<sigma>)\<rparr>) = board_fail k e (abs_ums \<sigma>)"
  by (rule board_eqI) (simp_all add: abs_settle [where w = "abs_waiting (umsResponseHandler (ums_this \<sigma>))"] abs_ums_def,
      simp add: board_fail_def)

lemma refine_send:
  "abs_ums (snd (ums_sendMessage i \<sigma>)) =
     board_send i (case checkStarted (ums_this \<sigma>) of Inl e \<Rightarrow> Rejecting e | Inr _ \<Rightarrow> Racing) (abs_ums \<sigma>)"
proof (cases "handlers (umsResponseHandler (ums_this \<sigma>)) i = []")
  case True
  have "abs_waiting (once i k em) = (abs_waiting em)(i \<mapsto> k)" if "handlers em i = []" for k em
    using that by (auto simp: abs_waiting_def ee.hs_once fun_eq_iff)
  then show ?thesis
    using True by (intro board_eqI) (simp_all add: board_send_def abs_waiting_None ums_sendMessage_def umsRequest_def
        ee.hs_count Let_def)
next
  case False
  then show ?thesis by (simp add: board_send_def abs_waiting_None ums_sendMessage_def ee.hs_count)
qed

lemma refine_timer:
  assumes "k < length (requests \<sigma>)"
  shows "abs_ums (fire_timeout timeout k \<sigma>) = board_fail k (timed_out (rq_id (requests \<sigma> ! k)) timeout) (abs_ums \<sigma>)"
  using assms by (intro board_eqI) (auto simp: fire_timeout_def Let_def settle_def board_fail_def list_update_same_conv)

lemma refine_catch:
  assumes "k < length (requests \<sigma>)" and "rq_state (requests \<sigma> ! k) = Rejecting e"
  shows "abs_ums (catch_rejection k e \<sigma>) = board_catch k (abs_ums \<sigma>)"
  using assms by (intro board_eqI) (auto simp: catch_rejection_def board_catch_def abs_waiting_def ee.hs_clear fun_eq_iff)

lemma refine_message:
  assumes "ums_inv \<sigma>"
  shows "abs_ums (snd (on_message None (Some v) \<sigma>)) = board_answer v (abs_ums \<sigma>)"
proof (cases "\<exists>i. prop_of v ''reqId'' = Some (JStr i)")
  case False
  then have b: "board_answer v (abs_ums \<sigma>) = abs_ums \<sigma>" by (auto simp: board_answer_def split: option.splits json.splits)
  have "\<not> isResponseType v" using False isResponseType_reqId by blast
  then have "abs_ums (snd (on_message None (Some v) \<sigma>)) = abs_ums \<sigma>"
    using on_message_other [of v None \<sigma>] by (cases "truthy (Some v)") (simp_all add: abs_ums_def on_message_def)
  then show ?thesis using b by simp
next
  case True
  then obtain i where i: "prop_of v ''reqId'' = Some (JStr i)" by blast
  note t = prop_of_truthy [OF i]
  have tab: "table_ok (umsResponseHandler (ums_this \<sigma>)) (requests \<sigma>)" using assms by (simp add: ums_inv_def)
  show ?thesis
  proof (cases "handlers (umsResponseHandler (ums_this \<sigma>)) i = []")
    case True
    then have "abs_waiting (umsResponseHandler (ums_this \<sigma>)) i = None" by (simp add: abs_waiting_None)
    then show ?thesis using on_message_unknown(1) [OF t i True] i by (simp add: board_answer_def)
  next
    case False
    then obtain k where k: "k < length (requests \<sigma>)" "handlers (umsResponseHandler (ums_this \<sigma>)) i = [(True, k)]"
      "rq_id (requests \<sigma> ! k) = i"
      using table_ok_handlers [OF tab] by metis
    have w: "abs_waiting (umsResponseHandler (ums_this \<sigma>)) i = Some k" using k(2) abs_waiting_Some [OF tab] by blast
    have e: "abs_waiting (snd (emit i em)) = (abs_waiting em)(i := None)" if "handlers em i = [(True, k)]" for em
      using that by (auto simp: abs_waiting_def ee.hs_fire fun_eq_iff)
    show ?thesis
      unfolding on_message_response [OF assms t i k(2)]
      using k w by (intro board_eqI) (simp_all add: board_answer_def i e settle_def)
  qed
qed

lemma board_answer_again:
  "\<lbrakk>\<And>k i. waiting b i = Some k \<Longrightarrow> k < length (book b)\<rbrakk> \<Longrightarrow> board_answer v (board_answer v b) = board_answer v b"
  by (auto simp: board_answer_def split: option.splits json.splits)

lemma refine_deliver:
  assumes "ums_inv \<sigma>"
  shows "abs_ums (snd (deliver n v \<sigma>)) = (if n = 0 then abs_ums \<sigma> else board_answer v (abs_ums \<sigma>))"
  using assms
proof (induction n arbitrary: \<sigma>)
  case (Suc n)
  obtain r \<sigma>1 where m: "on_message None (Some v) \<sigma> = (r, \<sigma>1)" by fastforce
  have a: "abs_ums \<sigma>1 = board_answer v (abs_ums \<sigma>)" using refine_message [OF Suc.prems, of v] m by simp
  have inv: "ums_inv \<sigma>1" using ums_inv_message [OF Suc.prems, of None v] m by simp
  have tab: "table_ok (umsResponseHandler (ums_this \<sigma>)) (requests \<sigma>)" using Suc.prems by (simp add: ums_inv_def)
  have "board_answer v (board_answer v (abs_ums \<sigma>)) = board_answer v (abs_ums \<sigma>)"
    by (rule board_answer_again) (simp add: abs_waiting_bound [OF tab])
  then have "abs_ums (snd (deliver n v \<sigma>1)) = board_answer v (abs_ums \<sigma>)"
    using Suc.IH [OF inv] a by simp
  then show ?case using m a by (auto split: sum.splits prod.splits)
qed simp

section \<open>The refinement\<close>

text \<open>What an event of the client is at the level of the board.\<close>

definition refines :: "int \<Rightarrow> ('s, 'n) ums_event \<Rightarrow> ('s, 'n) ums \<Rightarrow> board \<Rightarrow> bool" where
  "refines timeout e \<sigma> b' \<longleftrightarrow>
     (case e of
        Life _ \<Rightarrow> b' = abs_ums \<sigma> \<or> b' = board_clear (abs_ums \<sigma>)
      | Send i \<Rightarrow> b' = board_send i (if started (ums_this \<sigma>) then Racing else Rejecting not_started) (abs_ums \<sigma>)
      | Send_failed k err \<Rightarrow> b' = board_fail k err (abs_ums \<sigma>)
      | Timer k \<Rightarrow> b' = board_fail k (timed_out (fst (book (abs_ums \<sigma>) ! k)) timeout) (abs_ums \<sigma>)
      | Catch k \<Rightarrow> b' = board_catch k (abs_ums \<sigma>)
      | Incoming v \<Rightarrow> b' = (if msg_listeners (ums_this \<sigma>) = 0 then abs_ums \<sigma> else board_answer v (abs_ums \<sigma>))
      | Subscribe _ _ \<Rightarrow> b' = abs_ums \<sigma>)"

lemma waiting_card:
  assumes "ums_inv \<sigma>"
  shows "pendingMessages \<sigma> = card (Map.dom (waiting (abs_ums \<sigma>)))"
proof -
  have ok: "emitter_ok (umsResponseHandler (ums_this \<sigma>))" using assms by (simp add: ums_inv_def table_ok_def)
  have "Map.dom (waiting (abs_ums \<sigma>)) = {ev. handlers (umsResponseHandler (ums_this \<sigma>)) ev \<noteq> []}"
    unfolding dom_def abs_ums_simps abs_waiting_None by (rule refl)
  then show ?thesis using ee.names_card [OF ok] by (simp add: pendingMessages_def)
qed

lemma refine_life:
  assumes "sys_step J UmsClient ev (core \<sigma>) = Some c" and "jsm_documented J"
  shows "abs_ums (\<sigma>\<lparr>core := c\<rparr>) = abs_ums \<sigma> \<or> abs_ums (\<sigma>\<lparr>core := c\<rparr>) = board_clear (abs_ums \<sigma>)"
  using sys_step_emitters [OF assms] by (auto simp: same_emitters_def abs_ums_def board_clear_def)

text \<open>
  C20. The client implements the board: in every reachable state, each event does to the abstract map of
  waiting ids and the list of requests exactly what the specification of that event says, a life-cycle
  step at most forgets who waits, \<open>sendMessage\<close> throws exactly when the id waits and otherwise returns
  the number of the new request, and \<open>pendingMessages\<close> is the number of ids that wait.
\<close>

theorem ums_refines_board:
  assumes "jsm_documented J" and "ums_reachable J timeout \<sigma>"
  shows "(\<forall>e \<sigma>'. ums_step J timeout e \<sigma> = Some \<sigma>' \<longrightarrow> refines timeout e \<sigma> (abs_ums \<sigma>'))
    \<and> (\<forall>i. fst (ums_sendMessage i \<sigma>) =
        (if waiting (abs_ums \<sigma>) i \<noteq> None then Throw (in_progress i) else Return (length (book (abs_ums \<sigma>)))))
    \<and> pendingMessages \<sigma> = card (Map.dom (waiting (abs_ums \<sigma>)))
    \<and> abs_ums new_ums = \<lparr>waiting = Map.empty, book = []\<rparr>"
proof (intro conjI allI impI)
  have inv: "ums_inv \<sigma>" using ums_reachable_inv assms by blast
  show "pendingMessages \<sigma> = card (Map.dom (waiting (abs_ums \<sigma>)))" by (rule waiting_card [OF inv])
  show "abs_ums new_ums = \<lparr>waiting = Map.empty, book = []\<rparr>"
    by (simp add: abs_ums_def new_ums_def new_sys_def new_client_def)
  show "fst (ums_sendMessage i \<sigma>) =
      (if waiting (abs_ums \<sigma>) i \<noteq> None then Throw (in_progress i) else Return (length (book (abs_ums \<sigma>))))" for i
    by (simp only: abs_ums_simps abs_waiting_None abs_book_simps) (simp add: ums_sendMessage_def ee.hs_count)
  fix e \<sigma>' assume step: "ums_step J timeout e \<sigma> = Some \<sigma>'"
  show "refines timeout e \<sigma> (abs_ums \<sigma>')"
  proof (cases e)
    case (Life ev)
    then obtain c where "sys_step J UmsClient ev (core \<sigma>) = Some c" "\<sigma>' = \<sigma>\<lparr>core := c\<rparr>" using step by auto
    then show ?thesis using refine_life [OF _ assms(1)] Life by (simp add: refines_def)
  next
    case (Send i)
    then show ?thesis using step refine_send [of i \<sigma>] by (auto simp: refines_def checkStarted_def)
  next
    case (Send_failed k err)
    then show ?thesis using step refine_fail [where \<sigma> = \<sigma> and k = k and e = err] by (simp add: refines_def)
  next
    case (Timer k)
    then show ?thesis using step refine_timer [of k \<sigma> timeout] by (auto simp: refines_def split: if_splits)
  next
    case (Catch k)
    then show ?thesis using step refine_catch [of k \<sigma>] by (auto simp: refines_def split: if_splits rq_state.splits)
  next
    case (Incoming v)
    then show ?thesis using step refine_deliver [OF inv, of "msg_listeners (ums_this \<sigma>)" v] by (auto simp: refines_def)
  next
    case (Subscribe t cb)
    then show ?thesis using step by (auto simp: refines_def onNotification_def abs_ums_def split: sum.splits)
  qed
qed

theorem ums_refines_board_witness:
  "waiting (abs_ums (snd (ums_sendMessage ''a'' running_ums))) = [''a'' \<mapsto> 0]
   \<and> pendingMessages (snd (ums_sendMessage ''a'' running_ums)) = 1"
proof -
  let ?\<sigma> = "snd (ums_sendMessage ''a'' running_ums)"
  have run: "ums_step reference_jsm 5000 (Send ''a'') running_ums = Some ?\<sigma>" by simp
  have r: "ums_reachable reference_jsm 5000 ?\<sigma>" by (rule ums_reachable.step [OF running_ums_reachable run])
  have empty: "abs_ums running_ums = \<lparr>waiting = Map.empty, book = []\<rparr>" by (simp add: abs_ums_def)
  have "refines 5000 (Send ''a'') running_ums (abs_ums ?\<sigma>)"
    using ums_refines_board [OF reference_jsm_documented running_ums_reachable] run by blast
  then have w: "waiting (abs_ums ?\<sigma>) = [''a'' \<mapsto> 0]" by (simp add: refines_def empty board_send_def)
  have "pendingMessages ?\<sigma> = card (Map.dom (waiting (abs_ums ?\<sigma>)))"
    using ums_refines_board [OF reference_jsm_documented r] by blast
  then show ?thesis using w by simp
qed

end
