(* ===== verification/Client_Termination.thy ===== *)
theory Client_Termination
  imports Client_Lifecycle "HOL-Library.Multiset"
begin

text \<open>
  Termination of \<open>start()\<close>, \<open>stop()\<close>, \<open>refresh()\<close> and the refresh timer's callback of every client class:
  each answer of an awaited call brings suspended code closer to its end, code in flight always has an
  answer it can take, and a call that has ended has exactly one outcome.
\<close>

section \<open>How many answers code still takes\<close>

text \<open>
  The answers a statement asks for at most. \<open>Connect\<close> awaits the service's domain and the connection;
  \<open>Settle\<close> counts for the step in which the state machine ends a transition whose handler has thrown.
\<close>

fun instr_answers :: "instr \<Rightarrow> nat" where
  "instr_answers Connect = 2"
| "instr_answers i =
     (if i \<in> {Resolve, Login, SessionRefresh, Logout, Disconnect, Tick, Settle} then 1 else 0)"

fun call_answers :: "'s call \<Rightarrow> nat" where
  "call_answers (C_resolveService _ _) = 2"
| "call_answers _ = 1"

definition code_answers :: "instr list \<Rightarrow> nat" where
  "code_answers is = (\<Sum>i\<leftarrow>is. instr_answers i)"

fun task_answers :: "'s task \<Rightarrow> nat" where
  "task_answers (org, c, is) = call_answers c + code_answers is"

fun progress_answers :: "'s progress \<Rightarrow> nat" where
  "progress_answers (Blocked c is) = call_answers c + code_answers is"
| "progress_answers _ = 0"

definition answers_due :: "('s, 'n) sys \<Rightarrow> nat" where
  "answers_due \<sigma> = (\<Sum>\<tau>\<leftarrow>tasks \<sigma>. task_answers \<tau>)"

lemma code_answers_simps [simp]:
  "code_answers [] = 0" "code_answers (i # is) = instr_answers i + code_answers is"
  "code_answers (is @ is') = code_answers is + code_answers is'"
  by (simp_all add: code_answers_def)

lemma call_answers_pos: "0 < call_answers c"
  by (cases c) simp_all

lemma waits_answers: "waits i c \<Longrightarrow> call_answers c \<le> instr_answers i"
  by (cases i; cases c; simp)

lemma Settle_answers: "Settle \<in> set is \<Longrightarrow> 1 \<le> code_answers is"
  by (induction "is") auto

lemma abort_answers: "progress_answers (abort e is) \<le> code_answers is"
  using Settle_answers [of "is"] by (auto simp: abort_def)

text \<open>Running code never asks for more than its statements do.\<close>

lemma run_answers: "progress_answers (snd (run J is s)) \<le> code_answers is"
proof (induction J "is" s rule: run.induct)
  case (2 J i "is" s)
  obtain s1 out where e: "exec_instr J i s = (s1, out)" by fastforce
  show ?case
  proof (cases out)
    case Continue
    with 2 e show ?thesis by (simp add: le_SucI add_increasing)
  next
    case (Wait c)
    with e exec_instr_Wait [of J i s s1 c] show ?thesis by (simp add: waits_answers)
  next
    case (Raise x)
    with e show ?thesis by (simp add: abort_answers le_SucI add_increasing)
  qed
qed simp

text \<open>An answer is used up: what suspended code still takes becomes less.\<close>

lemma answer_answers:
  "answer J c r s = Some (s', Wait c') \<Longrightarrow> call_answers c' < call_answers c"
  by (cases c; cases r; auto)

lemma resume_answers:
  assumes "resume J c r is s = Some (s', p)"
  shows "progress_answers p < call_answers c + code_answers is"
proof -
  obtain s1 out where a: "answer J c r s = Some (s1, out)"
    using assms by (auto simp: resume_def split: option.splits)
  show ?thesis
  proof (cases out)
    case Continue
    with a assms run_answers [of J "is" s1] call_answers_pos [of c] show ?thesis by (simp add: resume_def)
  next
    case (Wait c')
    with a assms answer_answers [of J c r s s1 c'] show ?thesis by (auto simp: resume_def)
  next
    case (Raise e)
    with a assms have "p = abort e is" by (simp add: resume_def)
    then show ?thesis using call_answers_pos [of c] by (simp add: abort_answers less_add_same_cancel2 add_pos_nonneg le_less_trans [OF abort_answers])
  qed
qed

text \<open>Each call has an answer.\<close>

fun some_reply :: "'s call \<Rightarrow> 's reply" where
  "some_reply C_resolve = R_domains []"
| "some_reply C_login = Rejected TypeError"
| "some_reply (C_resolveService _ _) = Rejected TypeError"
| "some_reply _ = R_done"

lemma some_reply_answers: "resume J c (some_reply c) is s \<noteq> None"
  by (cases c) (simp_all add: resume_def)

section \<open>The system\<close>

definition is_answer :: "'s event \<Rightarrow> bool" where
  "is_answer e \<longleftrightarrow> (\<exists>k r. e = Reply k r)"

text \<open>The origins of all code, in flight or ended, with multiplicity.\<close>

definition origins :: "('s, 'n) sys \<Rightarrow> origin multiset" where
  "origins \<sigma> = mset (map fst (tasks \<sigma>)) + mset (map fst (outcomes \<sigma>))"

lemma put_progress_origins [simp]:
  "origins (put_progress org pre suf outs y) =
     add_mset org (mset (map fst pre) + mset (map fst suf) + mset (map fst outs))"
  by (cases y; cases "snd y") (auto simp: origins_def)

lemma put_progress_answers [simp]:
  "answers_due (put_progress org pre suf outs y) =
     (\<Sum>\<tau>\<leftarrow>pre. task_answers \<tau>) + progress_answers (snd y) + (\<Sum>\<tau>\<leftarrow>suf. task_answers \<tau>)"
  by (cases y; cases "snd y") (auto simp: answers_due_def)

lemma reply_step:
  assumes "sys_step J cls e \<sigma> = Some \<sigma>'" and "is_answer e"
  shows "answers_due \<sigma>' < answers_due \<sigma> \<and> origins \<sigma>' = origins \<sigma>"
proof -
  obtain k r where e: "e = Reply k r" using assms(2) by (auto simp: is_answer_def)
  then have k: "k < length (tasks \<sigma>)" using assms(1) by (auto split: if_splits)
  obtain org c "is" where t: "tasks \<sigma> ! k = (org, c, is)" by (cases "tasks \<sigma> ! k") auto
  define pre suf where "pre = take k (tasks \<sigma>)" and "suf = drop (Suc k) (tasks \<sigma>)"
  have split: "tasks \<sigma> = pre @ (org, c, is) # suf"
    using id_take_nth_drop [OF k] t by (simp add: pre_def suf_def)
  obtain s' p where r: "resume J c r is (this \<sigma>) = Some (s', p)"
    and \<sigma>': "\<sigma>' = put_progress org pre suf (outcomes \<sigma>) (s', p)"
    using assms(1) e k t by (auto simp: pre_def suf_def)
  show ?thesis unfolding \<sigma>' put_progress_answers put_progress_origins using resume_answers [OF r]
    by (simp add: answers_due_def origins_def split)
qed

lemma reply_possible:
  assumes "tasks \<sigma> \<noteq> []"
  shows "\<exists>e \<sigma>'. is_answer e \<and> sys_step J cls e \<sigma> = Some \<sigma>'"
proof -
  obtain org c "is" suf where t: "tasks \<sigma> = (org, c, is) # suf" using assms by (cases "tasks \<sigma>") auto
  have "sys_step J cls (Reply 0 (some_reply c)) \<sigma> \<noteq> None" using some_reply_answers t by simp
  then show ?thesis unfolding is_answer_def by blast
qed

lemma replies_run:
  assumes "exec J cls es \<sigma> = Some \<sigma>'" and "list_all is_answer es"
  shows "length es + answers_due \<sigma>' \<le> answers_due \<sigma> \<and> origins \<sigma>' = origins \<sigma>"
  using assms
proof (induction es arbitrary: \<sigma>)
  case (Cons e es)
  then obtain \<sigma>1 where s: "sys_step J cls e \<sigma> = Some \<sigma>1" and x: "exec J cls es \<sigma>1 = Some \<sigma>'"
    by (auto split: option.splits)
  have "is_answer e" "list_all is_answer es" using Cons.prems(2) by simp_all
  with reply_step [OF s] Cons.IH [OF x] show ?case by simp
qed simp

lemma replies_complete:
  "\<exists>es \<sigma>'. list_all is_answer es \<and> exec J cls es \<sigma> = Some \<sigma>' \<and> tasks \<sigma>' = []"
proof (induction "answers_due \<sigma>" arbitrary: \<sigma> rule: less_induct)
  case less
  show ?case
  proof (cases "tasks \<sigma> = []")
    case True
    then show ?thesis by (intro exI [of _ "[]"]) simp
  next
    case False
    then obtain e \<sigma>1 where e: "is_answer e" "sys_step J cls e \<sigma> = Some \<sigma>1" using reply_possible by blast
    then obtain es \<sigma>' where "list_all is_answer es" "exec J cls es \<sigma>1 = Some \<sigma>'" "tasks \<sigma>' = []"
      using less reply_step by blast
    with e show ?thesis by (intro exI [of _ "e # es"]) auto
  qed
qed

section \<open>The bound\<close>

text \<open>The most answers any call takes: a start, which is the longest, twice connecting.\<close>

definition max_answers :: "client_class \<Rightarrow> nat" where
  "max_answers cls = code_answers (code_of cls (ByUser START))"

lemma max_answers_simps [simp]:
  "max_answers CsdsClient = 5" "max_answers LeClient = 9" "max_answers TransportClient = 12"
  "max_answers UmsClient = 13"
  by (simp_all add: max_answers_def transition_code_def csds_onStart_def le_onStart_def
      transport_onStart_def ums_onStart_def csds_onRefresh_def le_onRefresh_def)

lemma code_answers_bound: "code_answers (code_of cls org) \<le> max_answers cls"
proof (cases org)
  case (ByUser t)
  then show ?thesis
    by (cases cls; cases t; simp add: transition_code_def csds_onStop_def le_onStop_def transport_onStop_def
        ums_onStop_def csds_onStart_def le_onStart_def transport_onStart_def ums_onStart_def
        csds_onRefresh_def le_onRefresh_def)
next
  case ByTimer
  then show ?thesis
    by (cases cls; simp add: refresh_callback_def csds_onRefresh_def le_onRefresh_def)
qed

lemma task_answers_reachable:
  fixes \<sigma> :: "('s, 'n) sys"
  assumes "reachable J cls \<sigma>" and "jsm_documented J"
  shows "\<forall>\<tau> \<in> set (tasks \<sigma>). task_answers \<tau> \<le> max_answers cls"
proof -
  have new: "progress_answers (snd (run J (code_of cls org) s)) \<le> max_answers cls" for org and s :: "('s, 'n) client"
    using run_answers code_answers_bound by (rule order_trans)
  have put: "\<forall>\<tau> \<in> set (tasks (put_progress org pre suf outs y)). task_answers \<tau> \<le> max_answers cls"
    if "progress_answers (snd y) \<le> max_answers cls"
      and "\<forall>\<tau> \<in> set pre \<union> set suf. task_answers \<tau> \<le> max_answers cls"
    for org pre suf outs and y :: "('s, 'n) client \<times> 's progress"
    using that by (cases y; cases "snd y") auto
  show ?thesis using assms(1)
  proof (induction rule: reachable_if.induct)
    case init
    then show ?case by (simp add: new_sys_def)
  next
    case (step \<sigma> e \<sigma>')
    from step.hyps(3) assms(2) show ?case
    proof (cases rule: sys_step_cases)
      case (answered k r org c "is" pre suf y)
      then have "progress_answers (snd y) \<le> max_answers cls"
        using resume_answers [of J c r "is" "this \<sigma>" "fst y" "snd y"] step.IH by auto
      then show ?thesis unfolding answered(4) using step.IH answered(2) by (intro put) auto
    next
      case (called t m)
      show ?thesis unfolding called(3) by (rule put [OF new]) (use step.IH in simp)
    next
      case (refreshed h m)
      show ?thesis unfolding refreshed(4) by (rule put [OF new]) (use step.IH in simp)
    qed (use step.IH in simp_all)
  qed
qed

text \<open>
  C21. Calls settle: while only awaited calls are answered, the code in flight ends after at most 13 answers for
  each of them (the number depends on the class), whatever the answers are and in whatever order they
  come, and no answer is ever missing, so such a run can always be continued until nothing is in
  flight; every call keeps exactly one place, among the code in flight or among the outcomes, so in the
  end the promise of each call is settled, and settled once.
\<close>

theorem calls_settle:
  assumes "jsm_documented J" and "reachable J cls \<sigma>"
    and "exec J cls es \<sigma> = Some \<sigma>'" and "list_all is_answer es"
  shows "length es \<le> max_answers cls * length (tasks \<sigma>) \<and> max_answers cls \<le> 13
    \<and> origins \<sigma>' = origins \<sigma>
    \<and> (\<exists>es' \<sigma>''. list_all is_answer es' \<and> exec J cls es' \<sigma>' = Some \<sigma>'' \<and> tasks \<sigma>'' = []
        \<and> mset (map fst (outcomes \<sigma>'')) = origins \<sigma>)"
proof -
  have "length es \<le> answers_due \<sigma>" and o: "origins \<sigma>' = origins \<sigma>" using replies_run [OF assms(3,4)] by auto
  also have "answers_due \<sigma> \<le> max_answers cls * length (tasks \<sigma>)"
    using task_answers_reachable [OF assms(2,1)] unfolding answers_due_def
    by (induction "tasks \<sigma>" rule: rev_induct) (auto intro: order_trans [OF sum_list_mono] simp: sum_list_triv)
  moreover have "max_answers cls \<le> 13" by (cases cls) simp_all
  moreover obtain es' \<sigma>'' where e: "list_all is_answer es'" "exec J cls es' \<sigma>' = Some \<sigma>''" "tasks \<sigma>'' = []"
    using replies_complete by blast
  moreover have "origins \<sigma>'' = origins \<sigma>'" using replies_run [OF e(2,1)] by simp
  ultimately show ?thesis using o by (auto simp: origins_def)
qed

theorem calls_settle_witness:
  "\<exists>\<sigma> \<sigma>'. exec reference_jsm UmsClient [Call START] (new_sys :: (nat, nat) sys) = Some \<sigma>
    \<and> exec reference_jsm UmsClient (start_replies [] 7 None) \<sigma> = Some \<sigma>'
    \<and> length (start_replies [] (7 :: nat) None) \<le> 13 \<and> origins \<sigma>' = {#ByUser START#}"
proof -
  obtain \<sigma>' where run: "exec reference_jsm UmsClient (Call START # start_replies [] 7 None) (new_sys :: (nat, nat) sys) = Some \<sigma>'"
    using started_ums_run by blast
  then obtain \<sigma> where s: "exec reference_jsm UmsClient [Call START] (new_sys :: (nat, nat) sys) = Some \<sigma>"
    and x: "exec reference_jsm UmsClient (start_replies [] 7 None) \<sigma> = Some \<sigma>'"
    by (auto split: option.splits)
  have t: "origins \<sigma> = {#ByUser START#}" "length (tasks \<sigma>) = 1"
    using s reference_jsm_documented by (auto simp: origins_def run_simps new_sys_def new_client_def)
  have a: "list_all is_answer (start_replies [] (7 :: nat) None)"
    by (simp add: start_replies_def is_answer_def)
  from calls_settle [OF reference_jsm_documented run_from_new [OF s] x a] s x t show ?thesis by auto
qed

end
