(* ===== verification/Ums_Life.thy ===== *)
theory Ums_Life
  imports Ums_Requests
begin

text \<open>
  The life cycle of a UMS client does not depend on its requests: with the two event emitters left out,
  every run of a UMS client is a run of the life cycle alone, so what holds of the life cycle in all
  reachable states (\<open>Client_Lifecycle\<close>) holds of a client that is used.
\<close>

section \<open>Leaving out the emitters\<close>

definition bare :: "('s, 'n) client \<Rightarrow> ('s, 'n) client" where
  "bare s = s\<lparr>umsResponseHandler := [], umsNotificationHandler := []\<rparr>"

definition bare_sys :: "('s, 'n) sys \<Rightarrow> ('s, 'n) sys" where
  "bare_sys \<sigma> = \<sigma>\<lparr>this := bare (this \<sigma>)\<rparr>"

lemma bare_simps [simp]:
  "machine (bare s) = machine s" "csdsDomains (bare s) = csdsDomains s" "refreshTask (bare s) = refreshTask s"
  "armed (bare s) = armed s" "next_timer (bare s) = next_timer s" "leSession (bare s) = leSession s"
  "err_listeners (bare s) = err_listeners s" "msg_listeners (bare s) = msg_listeners s"
  "started (bare s) = started s" "checkStarted (bare s) = checkStarted s"
  "domains (bare s) = domains s" "credentials (bare s) = credentials s"
  by (simp_all add: bare_def started_def checkStarted_def domains_def credentials_def)

lemma bare_sys_simps [simp]:
  "this (bare_sys \<sigma>) = bare (this \<sigma>)" "tasks (bare_sys \<sigma>) = tasks \<sigma>" "outcomes (bare_sys \<sigma>) = outcomes \<sigma>"
  by (simp_all add: bare_sys_def)

lemma bare_updates:
  "(bare s)\<lparr>machine := m\<rparr> = bare (s\<lparr>machine := m\<rparr>)" "(bare s)\<lparr>csdsDomains := d\<rparr> = bare (s\<lparr>csdsDomains := d\<rparr>)"
  "(bare s)\<lparr>leSession := x\<rparr> = bare (s\<lparr>leSession := x\<rparr>)" "(bare s)\<lparr>armed := a\<rparr> = bare (s\<lparr>armed := a\<rparr>)"
  "queueRefreshTask (bare s) = bare (queueRefreshTask s)" "clearRefreshTask (bare s) = bare (clearRefreshTask s)"
  "removeUmsListeners (bare s) = bare (removeUmsListeners s)"
  "onError (bare s) = map_sum id bare (onError s)" "onMessage (bare s) = map_sum id bare (onMessage s)"
  by (simp_all add: bare_def statement_defs removeAllListeners_def started_def split: option.splits)

text \<open>The code runs the same way without them.\<close>

lemma exec_instr_bare: "exec_instr J i (bare s) = apfst bare (exec_instr J i s)"
  by (cases i) (auto simp: bare_updates split: option.splits sum.splits)

lemma answer_bare: "answer J c r (bare s) = map_option (apfst bare) (answer J c r s)"
  by (cases c; cases r) (simp_all add: bare_updates)

lemma run_bare: "run J is (bare s) = apfst bare (run J is s)"
proof (induction J "is" s rule: run.induct)
  case (2 J i "is" s)
  then show ?case by (cases "exec_instr J i s"; cases "snd (exec_instr J i s)") (auto simp: exec_instr_bare)
qed simp

lemma resume_bare: "resume J c r is (bare s) = map_option (apfst bare) (resume J c r is s)"
  by (auto simp: resume_def answer_bare run_bare split: option.splits outcome.splits)

lemma put_progress_bare: "put_progress org pre suf outs (apfst bare y) = bare_sys (put_progress org pre suf outs y)"
  by (cases y; cases "snd y") (auto simp: bare_sys_def)

lemma sys_step_bare: "sys_step J cls e (bare_sys \<sigma>) = map_option bare_sys (sys_step J cls e \<sigma>)"
proof (cases e)
  case (Call t)
  then show ?thesis
    by (simp add: transition_method_def bare_updates run_bare put_progress_bare split: sum.splits)
next
  case (Reply k r)
  then show ?thesis
    by (simp add: resume_bare option.map_comp comp_def put_progress_bare split: prod.splits)
next
  case (Fire h)
  have "timer_callback J cls (bare s) = apfst bare (timer_callback J cls s)" for s :: "('a, 'b) client"
    by (simp add: timer_callback_def bare_updates run_bare split: sum.splits)
  then show ?thesis using Fire by (simp add: bare_updates put_progress_bare)
qed

section \<open>The life cycle of a UMS client\<close>

lemma on_message_bare: "bare_sys (core (snd (on_message err res \<sigma>))) = bare_sys (core \<sigma>)"
  by (auto simp: on_message_def with_this_def bare_sys_def bare_def split: option.splits prod.splits sum.splits)

lemma deliver_bare: "bare_sys (core (snd (deliver n v \<sigma>))) = bare_sys (core \<sigma>)"
proof (induction n arbitrary: \<sigma>)
  case (Suc n)
  obtain r \<sigma>1 where m: "on_message None (Some v) \<sigma> = (r, \<sigma>1)" by fastforce
  then have "bare_sys (core \<sigma>1) = bare_sys (core \<sigma>)" using on_message_bare [of None "Some v" \<sigma>] by simp
  then show ?case using Suc.IH [of \<sigma>1] m by (auto split: sum.splits prod.splits)
qed simp

lemma ums_step_bare:
  assumes "ums_step J timeout e \<sigma> = Some \<sigma>'" and "\<And>ev. e \<noteq> Life ev"
  shows "bare_sys (core \<sigma>') = bare_sys (core \<sigma>)"
proof (cases e)
  case (Incoming v)
  then show ?thesis using assms(1) deliver_bare by auto
qed (use assms in \<open>auto simp: ums_sendMessage_def umsRequest_def Let_def fire_timeout_def catch_rejection_def
      onNotification_def with_this_def bare_sys_def bare_def split: if_splits rq_state.splits sum.splits\<close>)

lemma ums_life:
  fixes \<sigma> :: "('a, 'b) ums"
  shows "ums_reachable J timeout \<sigma> \<Longrightarrow> reachable J UmsClient (bare_sys (core \<sigma>))"
proof (induction rule: ums_reachable.induct)
  case init
  have "bare_sys (core new_ums) = (new_sys :: ('a, 'b) sys)"
    by (simp add: new_ums_def bare_sys_def bare_def new_sys_def new_client_def)
  then show ?case by (simp add: reachable_if.init)
next
  case (step \<sigma> e \<sigma>')
  show ?case
  proof (cases "\<exists>ev. e = Life ev")
    case True
    then obtain ev c where "sys_step J UmsClient ev (core \<sigma>) = Some c" "\<sigma>' = \<sigma>\<lparr>core := c\<rparr>"
      using step.hyps(2) by auto
    then have "sys_step J UmsClient ev (bare_sys (core \<sigma>)) = Some (bare_sys (core \<sigma>'))"
      by (simp add: sys_step_bare)
    then show ?thesis using step.IH by (auto intro: reachable_if.step)
  next
    case False
    then show ?thesis using step.IH ums_step_bare [OF step.hyps(2)] by simp
  qed
qed

lemma control_inv_bare [simp]: "control_inv cls (bare_sys \<sigma>) = control_inv cls \<sigma>"
  by (simp add: control_inv_def transitions_running_def)

lemma ums_control_inv: "ums_reachable J timeout \<sigma> \<Longrightarrow> jsm_documented J \<Longrightarrow> control_inv UmsClient (core \<sigma>)"
  using reachable_control_inv [OF ums_life] control_inv_bare by blast

end
