(* ===== verification/Ums_Listeners.thy ===== *)
theory Ums_Listeners
  imports Ums_Life
begin

text \<open>
  The message callbacks a client has registered, counted by its starts: \<open>onStart\<close> of \<open>UmsClient\<close> registers
  one with the transport, at its end, and nothing takes one away again.
\<close>

section \<open>What a step registers\<close>

text \<open>A step of the life cycle registers at most one message callback.\<close>

lemma run_listeners:
  "run J is s = (s', p) \<Longrightarrow> msg_listeners s' \<le> msg_listeners s + count_list is OnMessage
     \<and> msg_listeners s \<le> msg_listeners s'"
proof (induction J "is" s arbitrary: s' rule: run.induct)
  case (2 J i "is" s)
  obtain s1 out where e: "exec_instr J i s = (s1, out)" by fastforce
  then have "msg_listeners s1 \<le> msg_listeners s + (if i = OnMessage then 1 else 0) \<and> msg_listeners s \<le> msg_listeners s1"
    by (cases i) (auto simp: statement_defs split: sum.splits if_splits)
  then show ?case using 2 e by (cases out) fastforce+
qed simp

lemma answer_listeners: "answer J c r s = Some (s', out) \<Longrightarrow> msg_listeners s' = msg_listeners s"
  by (cases c; cases r) auto

lemma resume_listeners:
  assumes "resume J c r is s = Some (s', p)"
  shows "msg_listeners s' \<le> msg_listeners s + count_list is OnMessage \<and> msg_listeners s \<le> msg_listeners s'"
proof -
  obtain s1 out where a: "answer J c r s = Some (s1, out)"
    using assms by (auto simp: resume_def split: option.splits)
  then have l: "msg_listeners s1 = msg_listeners s" by (rule answer_listeners)
  show ?thesis
  proof (cases out)
    case Continue
    then have "run J is s1 = (s', p)" using a assms by (simp add: resume_def)
    from run_listeners [OF this] l show ?thesis by simp
  qed (use a assms l in \<open>auto simp: resume_def\<close>)
qed

lemma code_OnMessage: "count_list (code_of cls org) OnMessage \<le> 1"
proof (cases org)
  case (ByUser t)
  then show ?thesis by (cases cls; cases t; simp add: handler_code_defs)
next
  case ByTimer
  then show ?thesis by (cases cls; simp add: handler_code_defs)
qed

lemma code_point_OnMessage: "code_point (code_of cls org) c is \<Longrightarrow> count_list is OnMessage \<le> 1"
  using code_OnMessage [of cls org] by (auto simp: code_point_def split: if_splits)

lemma sys_step_listeners:
  assumes step: "sys_step J cls e \<sigma> = Some \<sigma>'" and J: "jsm_documented J" and inv: "control_inv cls \<sigma>"
  shows "msg_listeners (this \<sigma>') = msg_listeners (this \<sigma>) \<or> msg_listeners (this \<sigma>') = Suc (msg_listeners (this \<sigma>))"
  using step J
proof (cases rule: sys_step_cases)
  case (called t m)
  obtain s' p where r: "run J (code_of cls (ByUser t)) ((this \<sigma>)\<lparr>machine := m\<rparr>) = (s', p)" by fastforce
  from run_listeners [OF r] code_OnMessage [of cls "ByUser t"] show ?thesis unfolding called(3) r by auto
next
  case (answered k r org c "is" pre suf y)
  obtain s' p where y: "y = (s', p)" by fastforce
  have "code_point (code_of cls org) c is" using control_inv_task(1) [OF inv, of org c "is"] answered(2) by simp
  from code_point_OnMessage [OF this] resume_listeners [OF answered(3) [unfolded y]] show ?thesis
    unfolding answered(4) y by auto
next
  case (refreshed h m)
  obtain s' p where r: "run J (code_of cls ByTimer) ((this \<sigma>)\<lparr>armed := removeAll h (armed (this \<sigma>)), machine := m\<rparr>) = (s', p)"
    by fastforce
  from run_listeners [OF r] code_OnMessage [of cls ByTimer] show ?thesis unfolding refreshed(4) r by auto
qed (simp_all add: queueRefreshTask_def)

section \<open>Counting by starts\<close>

text \<open>A start has registered when it has finished, or is suspended past the statement that registers.\<close>

fun registered_by :: "'s progress \<Rightarrow> bool" where
  "registered_by Finished = True"
| "registered_by (Crashed e) = False"
| "registered_by (Blocked c is) = (\<not> is_unwind c \<and> OnMessage \<notin> set is)"

fun start_listens :: "'s task \<Rightarrow> bool" where
  "start_listens (org, c, is) \<longleftrightarrow> org = ByUser START \<and> registered_by (Blocked c is)"

text \<open>The starts that have registered: those that have resolved, and those about to.\<close>

definition listening_starts :: "('s, 'n) sys \<Rightarrow> nat" where
  "listening_starts \<sigma> = count_list (outcomes \<sigma>) (ByUser START, Return ()) + length (filter start_listens (tasks \<sigma>))"

lemma abort_not_registered [simp]: "\<not> registered_by (abort e is)"
  by (simp add: abort_def)

lemma listening_starts_progress:
  "listening_starts (put_progress org pre suf outs (s, p)) =
     count_list outs (ByUser START, Return ()) + length (filter start_listens (pre @ suf))
       + (if org = ByUser START \<and> registered_by p then 1 else 0)"
  by (cases p) (simp_all add: listening_starts_def)

text \<open>The code of a start, up to the statement and from there on.\<close>

lemma start_code: "\<exists>pre. code_of UmsClient (ByUser START) = pre @ [OnMessage, Tick, Settle] \<and> OnMessage \<notin> set pre"
proof (intro exI conjI)
  let ?pre = "transport_onStart le_onRefresh @ [Tick]"
  show "code_of UmsClient (ByUser START) = ?pre @ [OnMessage, Tick, Settle]"
    by (simp add: transition_code_def ums_onStart_def)
  show "OnMessage \<notin> set ?pre" by (simp add: handler_code_defs)
qed

lemma other_code: "org \<noteq> ByUser START \<Longrightarrow> count_list (code_of cls org) OnMessage = 0"
proof (cases org)
  case (ByUser t)
  then show "org \<noteq> ByUser START \<Longrightarrow> ?thesis" by (cases cls; cases t; simp add: handler_code_defs)
next
  case ByTimer
  then show ?thesis by (cases cls; simp add: handler_code_defs)
qed

lemma start_point:
  assumes "code_point (code_of UmsClient (ByUser START)) c is" and "\<not> is_unwind c"
  shows "(\<exists>pre. is = pre @ [OnMessage, Tick, Settle] \<and> OnMessage \<notin> set pre) \<or> c = C_tick \<and> is = [Settle]"
proof -
  obtain pre where code: "code_of UmsClient (ByUser START) = pre @ [OnMessage, Tick, Settle]" "OnMessage \<notin> set pre"
    using start_code by blast
  obtain before i where at: "pre @ [OnMessage, Tick, Settle] = before @ i # is" "waits i c"
    using assms unfolding code_point_def code(1) by blast
  then have "i \<noteq> OnMessage" "i \<noteq> Settle" by auto
  with at code(2) show ?thesis
    by (auto simp: append_eq_append_conv2 append_eq_Cons_conv Cons_eq_append_conv split: call.splits)
qed

lemma exec_keeps_listeners:
  "i \<noteq> OnMessage \<Longrightarrow> exec_instr J i s = (s', out) \<Longrightarrow> msg_listeners s' = msg_listeners s"
  by (cases i) (auto simp: statement_defs split: sum.splits if_splits)

lemma start_run_listeners:
  "OnMessage \<notin> set pre \<Longrightarrow> run J (pre @ [OnMessage, Tick, Settle]) s = (s', p) \<Longrightarrow>
     msg_listeners s' = msg_listeners s + (if registered_by p then 1 else 0)"
proof (induction pre arbitrary: s)
  case Nil
  then show ?case by (auto simp: onMessage_def checkStarted_def split: sum.splits if_splits)
next
  case (Cons i pre)
  obtain s1 out where e: "exec_instr J i s = (s1, out)" by fastforce
  then have "msg_listeners s1 = msg_listeners s" using exec_keeps_listeners [OF _ e] Cons.prems(1) by auto
  then show ?case using Cons e by (cases out) auto
qed

lemma start_resume_listeners:
  assumes cp: "code_point (code_of UmsClient (ByUser START)) c is" and res: "resume J c r is s = Some (s', p)"
  shows "msg_listeners s' + (if registered_by (Blocked c is) then 1 else 0) = msg_listeners s + (if registered_by p then 1 else 0)"
proof (cases "is_unwind c")
  case True
  then have "\<exists>e. p = Crashed e" "is = []" using resume_unwound [OF res True cp] unwind_rest [OF cp True] by simp_all
  then show ?thesis using resume_listeners [OF res] True by auto
next
  case False
  obtain s1 out where a: "answer J c r s = Some (s1, out)"
    using res by (auto simp: resume_def split: option.splits)
  then have same: "msg_listeners s1 = msg_listeners s" by (rule answer_listeners)
  from start_point [OF cp False] show ?thesis
  proof (elim disjE exE conjE)
    fix pre assume i: "is = pre @ [OnMessage, Tick, Settle]" and pre: "OnMessage \<notin> set pre"
    show ?thesis
    proof (cases out)
      case Continue
      then have "run J (pre @ [OnMessage, Tick, Settle]) s1 = (s', p)" using a res i by (simp add: resume_def)
      from start_run_listeners [OF pre this] show ?thesis using same i by simp
    qed (use a res i same in \<open>auto simp: resume_def\<close>)
  next
    assume "c = C_tick" "is = [Settle]"
    then show ?thesis using a res by (cases r) (auto simp: resume_def)
  qed
qed

lemma other_run_listeners:
  assumes "org \<noteq> ByUser START" and "run J (code_of cls org) s = (s', p)"
  shows "msg_listeners s' = msg_listeners s"
  using run_listeners [OF assms(2)] other_code [OF assms(1), of cls] by simp

lemma listening_starts_new: "listening_starts new_sys = 0"
  by (simp add: listening_starts_def new_sys_def)

text \<open>The client's count of its callbacks is the count by starts.\<close>

lemma listening_starts_step:
  assumes step: "sys_step J UmsClient e \<sigma> = Some \<sigma>'" and J: "jsm_documented J" and inv: "control_inv UmsClient \<sigma>"
    and count: "msg_listeners (this \<sigma>) = listening_starts \<sigma>"
  shows "msg_listeners (this \<sigma>') = listening_starts \<sigma>'"
  using step J
proof (cases rule: sys_step_cases)
  case (called t m)
  obtain s' p where r: "run J (code_of UmsClient (ByUser t)) ((this \<sigma>)\<lparr>machine := m\<rparr>) = (s', p)" by fastforce
  have "msg_listeners s' = msg_listeners (this \<sigma>) + (if ByUser t = ByUser START \<and> registered_by p then 1 else 0)"
  proof (cases "t = START")
    case True
    obtain pre where "code_of UmsClient (ByUser START) = pre @ [OnMessage, Tick, Settle]" "OnMessage \<notin> set pre"
      using start_code by blast
    with start_run_listeners [of pre J "(this \<sigma>)\<lparr>machine := m\<rparr>" s' p] r True show ?thesis by simp
  next
    case False
    then show ?thesis using other_run_listeners [OF _ r] by simp
  qed
  then show ?thesis unfolding called(3) r listening_starts_progress using count by (simp add: listening_starts_def)
next
  case (answered k r org c "is" pre suf y)
  obtain s' p where y: "y = (s', p)" by fastforce
  note res = answered(3) [unfolded y]
  have cp: "code_point (code_of UmsClient org) c is" using control_inv_task(1) [OF inv, of org c "is"] answered(2) by simp
  have "msg_listeners s' + (if org = ByUser START \<and> registered_by (Blocked c is) then 1 else 0)
      = msg_listeners (this \<sigma>) + (if org = ByUser START \<and> registered_by p then 1 else 0)"
  proof (cases "org = ByUser START")
    case True
    then show ?thesis using start_resume_listeners [OF _ res] cp by simp
  next
    case False
    have "count_list is OnMessage \<le> count_list (code_of UmsClient org) OnMessage"
      using cp by (auto simp: code_point_def)
    then have "count_list is OnMessage = 0" using other_code [OF False, of UmsClient] by simp
    then show ?thesis using resume_listeners [OF res] False by simp
  qed
  then show ?thesis
    unfolding answered(4) y listening_starts_progress using count answered(2) by (auto simp: listening_starts_def split: if_splits)
next
  case (refreshed h m)
  obtain s' p where r: "run J (code_of UmsClient ByTimer) ((this \<sigma>)\<lparr>armed := removeAll h (armed (this \<sigma>)), machine := m\<rparr>) = (s', p)"
    by fastforce
  then have "msg_listeners s' = msg_listeners (this \<sigma>)" using other_run_listeners [OF _ r] by simp
  then show ?thesis unfolding refreshed(4) r listening_starts_progress using count by (simp add: listening_starts_def)
qed (use count in \<open>simp_all add: queueRefreshTask_def listening_starts_def\<close>)

lemma reachable_listening_starts:
  "reachable_if guard J UmsClient \<sigma> \<Longrightarrow> jsm_documented J \<Longrightarrow> msg_listeners (this \<sigma>) = listening_starts \<sigma>"
proof (induction rule: reachable_if.induct)
  case init
  show ?case by (simp add: listening_starts_new) (simp add: new_sys_def new_client_def)
next
  case (step \<sigma> e \<sigma>')
  then show ?case using listening_starts_step reachable_control_inv [OF step.hyps(1)] by blast
qed

lemma ums_listening_starts:
  assumes "ums_reachable J timeout \<sigma>" and "jsm_documented J"
  shows "msg_listeners (ums_this \<sigma>) = listening_starts (core \<sigma>)"
  using reachable_listening_starts [OF ums_life [OF assms(1)] assms(2)] by (simp add: listening_starts_def)

end
