(* ===== verification/Connection_Factory.thy ===== *)
theory Connection_Factory
  imports Json
begin

text \<open>
  \<open>packages/transport/src/connection.ts\<close> and \<open>packages/ums-connection/src/connection.ts\<close>: where a
  transport connects to and which headers it sends. A session is given by the two properties of
  \<open>IUserSession\<close> the factories read.
\<close>

record user_session =
  sess_accountId :: string
  sess_token :: string

record connection_opts =
  opts_domain :: string
  opts_session :: user_session

record connection_factory =
  endpoint :: "connection_opts \<Rightarrow> string"
  headers :: "connection_opts \<Rightarrow> (string \<times> string) list"

text \<open>\<open>BaseWsConnectionFactory\<close>: the token goes into a header of every connection.\<close>

definition base_headers :: "connection_opts \<Rightarrow> (string \<times> string) list" where
  "base_headers opts = [(''Authorization'', ''jwt '' @ sess_token (opts_session opts))]"

definition ConsumerWsConnectionFactory :: connection_factory where
  "ConsumerWsConnectionFactory =
     \<lparr>endpoint = (\<lambda>opts. ''wss://'' @ opts_domain opts @ ''/ws_api/account/''
        @ sess_accountId (opts_session opts) @ ''/messaging/consumer?v=3''),
      headers = base_headers\<rparr>"

definition AgentWsConnectionFactory :: connection_factory where
  "AgentWsConnectionFactory =
     \<lparr>endpoint = (\<lambda>opts. ''wss://'' @ opts_domain opts @ ''/ws_api/account/''
        @ sess_accountId (opts_session opts) @ ''/messaging/brand?v=2''),
      headers = base_headers\<rparr>"

section \<open>The interface\<close>

text \<open>
  What a transport and its users rely on: an encrypted connection to the given domain, the token
  in the authorization header, and nothing secret in the URL, which depends on the domain and the
  account only.
\<close>

locale ws_connection =
  fixes url :: "connection_opts \<Rightarrow> string"
    and hdrs :: "connection_opts \<Rightarrow> (string \<times> string) list"
  assumes url_prefix: "startsWith (url opts) (''wss://'' @ opts_domain opts @ ''/'')"
    and url_public: "opts_domain o1 = opts_domain o2 \<Longrightarrow>
      sess_accountId (opts_session o1) = sess_accountId (opts_session o2) \<Longrightarrow> url o1 = url o2"
    and token_sent: "map_of (hdrs opts) ''Authorization'' = Some (''jwt '' @ sess_token (opts_session opts))"
begin

lemma url_hides_token:
  "url (opts\<lparr>opts_session := (opts_session opts)\<lparr>sess_token := t\<rparr>\<rparr>) = url opts"
  by (rule url_public) simp_all

lemma tokens_told_apart:
  "hdrs o1 = hdrs o2 \<Longrightarrow> sess_token (opts_session o1) = sess_token (opts_session o2)"
  using token_sent [of o1] token_sent [of o2] by simp

end

interpretation consumer_ws: ws_connection "endpoint ConsumerWsConnectionFactory" "headers ConsumerWsConnectionFactory"
  by unfold_locales (simp_all add: ConsumerWsConnectionFactory_def base_headers_def startsWith_def)

interpretation agent_ws: ws_connection "endpoint AgentWsConnectionFactory" "headers AgentWsConnectionFactory"
  by unfold_locales (simp_all add: AgentWsConnectionFactory_def base_headers_def startsWith_def)

text \<open>
  Credentials stay out of connection URLs: for agents and consumers the endpoint is the same
  whatever the token, it is an encrypted one on the given domain, and the token is sent in the
  authorization header.
\<close>

theorem token_only_in_header:
  "\<forall>f \<in> {ConsumerWsConnectionFactory, AgentWsConnectionFactory}.
     endpoint f (opts\<lparr>opts_session := (opts_session opts)\<lparr>sess_token := t\<rparr>\<rparr>) = endpoint f opts
     \<and> startsWith (endpoint f opts) (''wss://'' @ opts_domain opts @ ''/'')
     \<and> map_of (headers f opts) ''Authorization'' = Some (''jwt '' @ sess_token (opts_session opts))"
  using consumer_ws.url_hides_token consumer_ws.url_prefix consumer_ws.token_sent
    agent_ws.url_hides_token agent_ws.url_prefix agent_ws.token_sent
  by simp

theorem token_only_in_header_witness:
  "endpoint AgentWsConnectionFactory \<lparr>opts_domain = ''d'', opts_session = \<lparr>sess_accountId = ''1'', sess_token = ''t''\<rparr>\<rparr>
     = endpoint AgentWsConnectionFactory \<lparr>opts_domain = ''d'', opts_session = \<lparr>sess_accountId = ''1'', sess_token = ''s''\<rparr>\<rparr>"
  using token_only_in_header [of "''t''" "\<lparr>opts_domain = ''d'', opts_session = \<lparr>sess_accountId = ''1'', sess_token = ''s''\<rparr>\<rparr>"]
  by simp

end
