(* ===== verification/Ws_Config.thy ===== *)
theory Ws_Config
  imports Connection_Factory
begin

text \<open>
  \<open>packages/transport/src/config.ts\<close> and \<open>packages/transport-ws/src/config.ts\<close>: the configuration of
  the WebSocket transport and its defaults.
\<close>

datatype ConnectionStrategy = LEAVE_OPEN | CLOSE_IMMEDIATE | CLOSE_AFTER_TIMEOUT

text \<open>The number a TypeScript \<open>enum\<close> member stands for; 0 is falsy.\<close>

fun strategy_number :: "ConnectionStrategy \<Rightarrow> int" where
  "strategy_number LEAVE_OPEN = 0"
| "strategy_number CLOSE_IMMEDIATE = 1"
| "strategy_number CLOSE_AFTER_TIMEOUT = 2"

record ws_config_base =
  base_connectionFactory :: connection_factory
  base_pingInterval :: "int option"
  base_queueWorker :: "int option"
  base_drainTimeoutMs :: "int option"
  base_messagingRetryIntervalMs :: "int option"
  base_messagingMaxRetries :: "int option"
  base_connectionStrategy :: "ConnectionStrategy option"

text \<open>\<open>DefaultTransportConfig\<close> is the first field.\<close>

record transport_config =
  connectionFactory :: connection_factory

record ws_config = transport_config +
  pingInterval :: int
  queueWorker :: int
  drainTimeoutMs :: int
  messagingRetryIntervalMs :: int
  messagingMaxRetries :: int
  connectionStrategy :: ConnectionStrategy

definition DefaultTransportConfig :: "connection_factory \<Rightarrow> transport_config" where
  "DefaultTransportConfig f = \<lparr>connectionFactory = f\<rparr>"

definition PING_INTERVAL :: int where "PING_INTERVAL = 60000"
definition QUEUE_WORKER :: int where "QUEUE_WORKER = 1"
definition DRAIN_TIMEOUT_MS :: int where "DRAIN_TIMEOUT_MS = 10000"
definition MESSAGING_RETRY_INTERVAL_MS :: int where "MESSAGING_RETRY_INTERVAL_MS = 100"
definition MESSAGING_MAX_RETRIES :: int where "MESSAGING_MAX_RETRIES = 10"
definition CONNECTION_STRATEGY :: ConnectionStrategy where "CONNECTION_STRATEGY = LEAVE_OPEN"

definition or_strategy :: "ConnectionStrategy option \<Rightarrow> ConnectionStrategy \<Rightarrow> ConnectionStrategy" where
  "or_strategy s d = (case s of None \<Rightarrow> d | Some x \<Rightarrow> if strategy_number x = 0 then d else x)"

definition DefaultWsTransportConfig :: "ws_config_base \<Rightarrow> ws_config" where
  "DefaultWsTransportConfig config =
     transport_config.extend (DefaultTransportConfig (base_connectionFactory config))
       (ws_config.fields
         (or_num (base_pingInterval config) PING_INTERVAL)
         (or_num (base_queueWorker config) QUEUE_WORKER)
         (or_num (base_drainTimeoutMs config) DRAIN_TIMEOUT_MS)
         (or_num (base_messagingRetryIntervalMs config) MESSAGING_RETRY_INTERVAL_MS)
         (or_num (base_messagingMaxRetries config) MESSAGING_MAX_RETRIES)
         (or_strategy (base_connectionStrategy config) CONNECTION_STRATEGY))"

lemmas ws_config_defs =
  DefaultWsTransportConfig_def DefaultTransportConfig_def transport_config.defs ws_config.defs
  PING_INTERVAL_def QUEUE_WORKER_def DRAIN_TIMEOUT_MS_def MESSAGING_RETRY_INTERVAL_MS_def
  MESSAGING_MAX_RETRIES_def CONNECTION_STRATEGY_def or_strategy_def

text \<open>
  Defaults of the transport's configuration: what the caller sets is kept, except that a number
  0 counts as not set (so a transport without retries, or one that closes at once, cannot be
  configured), and the strategy is the caller's, or to leave the connection open.
\<close>

theorem ws_config_defaults:
  "connectionFactory (DefaultWsTransportConfig c) = base_connectionFactory c
   \<and> messagingMaxRetries (DefaultWsTransportConfig c) =
       (case base_messagingMaxRetries c of Some n \<Rightarrow> if n = 0 then 10 else n | None \<Rightarrow> 10)
   \<and> messagingRetryIntervalMs (DefaultWsTransportConfig c) =
       (case base_messagingRetryIntervalMs c of Some n \<Rightarrow> if n = 0 then 100 else n | None \<Rightarrow> 100)
   \<and> drainTimeoutMs (DefaultWsTransportConfig c) =
       (case base_drainTimeoutMs c of Some n \<Rightarrow> if n = 0 then 10000 else n | None \<Rightarrow> 10000)
   \<and> pingInterval (DefaultWsTransportConfig c) =
       (case base_pingInterval c of Some n \<Rightarrow> if n = 0 then 60000 else n | None \<Rightarrow> 60000)
   \<and> queueWorker (DefaultWsTransportConfig c) =
       (case base_queueWorker c of Some n \<Rightarrow> if n = 0 then 1 else n | None \<Rightarrow> 1)
   \<and> connectionStrategy (DefaultWsTransportConfig c) =
       (case base_connectionStrategy c of Some s \<Rightarrow> s | None \<Rightarrow> LEAVE_OPEN)"
proof -
  have "x = LEAVE_OPEN" if "strategy_number x = 0" for x
    using that by (cases x) simp_all
  then show ?thesis by (auto simp: ws_config_defs split: option.splits)
qed

end
