(* ===== verification/Ws_Transport.thy ===== *)
theory Ws_Transport
  imports Ws_Config Event_Emitter
begin

text \<open>
  \<open>packages/transport-ws/src/transport.ts\<close>: the WebSocket transport. The packages \<open>ws\<close> (the socket)
  and \<open>async\<close> (the sending queue) are third-party code. Of a socket the code reads \<open>readyState\<close> and
  reacts to events: both are inputs of the model, and the calls made on sockets are recorded.
  The queue's operations, the socket constructor's refusal of a URL and the parsing of incoming text
  are the parameter \<open>runtime\<close>; the queue's calls of its worker, its callbacks and its \<open>drain\<close> function
  are events. Logging is left out.
\<close>

section \<open>State\<close>

datatype ready_state = CONNECTING | OPEN | CLOSING | CLOSED

text \<open>\<open>TransportEvent\<close>.\<close>

definition ON_CONNECTING :: string where "ON_CONNECTING = ''transport.ON_CONNECTING''"
definition ON_MESSAGE :: string where "ON_MESSAGE = ''transport.ON_MESSAGE''"
definition ON_ERROR :: string where "ON_ERROR = ''transport.ON_ERROR''"
definition ON_CLOSED :: string where "ON_CLOSED = ''transport.ON_CLOSED''"
definition ON_CONNECTED :: string where "ON_CONNECTED = ''transport.ON_CONNECTED''"

text \<open>The listeners the code registers on itself: the user's callbacks, by number, and the two
  handlers of a \<open>disconnect()\<close> call.\<close>

datatype ws_listener = UserMessage nat | UserError nat | ResHandler nat | ErrHandler nat

datatype 'r payload = No_payload | Received 'r | Failure js_error

datatype settled = Pending | Resolved | Rejected_with js_error

text \<open>A \<open>connect()\<close> call: waiting for the \<open>disconnect()\<close> of the old connection, or for its socket.\<close>

datatype connecting =
    Awaiting nat connection_factory connection_opts
  | Opening nat
  | Connect_done
  | Connect_failed js_error

record socket =
  sock_url :: string
  sock_headers :: "(string \<times> string) list"
  readyState :: ready_state
  opened :: bool
  opened_by :: nat

datatype 'm socket_call = Close nat | Ping nat | Transmit nat 'm

text \<open>
  A call of the queue's worker: the message, the socket it waits for and how far it is. \<open>Polling n\<close> is a
  transmission whose retry timer is armed, by the \<open>setTimeout\<close> of \<open>waitForSocketConnection\<close>; after it, \<open>n - 1\<close>
  is what \<open>maxRetries\<close> will be. When done, what the worker's callback was called with.
\<close>

datatype transmission_state = Polling int | Sending | Done "string option"

record 'm transmission =
  tr_message :: 'm
  tr_socket :: nat
  tr_state :: transmission_state

text \<open>
  The timers with a handle that the code keeps, by what they call. The code drops the handle of a retry
  timer, so nothing can clear it: it is armed exactly while its transmission is \<open>Polling\<close> and fires as the
  event \<open>Check\<close>. \<open>pending_timers\<close> (\<open>Ws_System\<close>) lists the armed timers of both kinds.
\<close>

datatype ws_timer = Drain_timer | Beat_timer | Pong_timer int

record ('q, 'm, 'r) ws_transport =
  ws :: "nat option"
  sendingQueue :: "nat option"
  conf :: "ws_config option"
  drainTimeoutHandle :: "nat option"
  hearBeatHandle :: "nat option"
  table :: "ws_listener emitter"
  sockets :: "socket list"
  queues :: "'q list"
  timers :: "(nat \<times> ws_timer) list"
  next_handle :: nat
  pong_listeners :: "(nat \<times> nat) list"
  connects :: "connecting list"
  disconnects :: "settled list"
  sends :: "settled list"
  transmissions :: "'m transmission list"
  calls :: "'m socket_call list"
  received :: "(nat \<times> 'r) list"
  reported :: "(nat \<times> js_error) list"

definition new_transport :: "('q, 'm, 'r) ws_transport" where
  "new_transport =
     \<lparr>ws = None, sendingQueue = None, conf = None, drainTimeoutHandle = None, hearBeatHandle = None,
      table = [], sockets = [], queues = [], timers = [], next_handle = 0, pong_listeners = [],
      connects = [], disconnects = [], sends = [], transmissions = [], calls = [], received = [],
      reported = []\<rparr>"

record ('q, 'm, 'r) runtime =
  aq_create :: 'q
  aq_push :: "nat option \<Rightarrow> 'm list \<Rightarrow> 'q \<Rightarrow> 'q"
  aq_unshift :: "'m \<Rightarrow> 'q \<Rightarrow> 'q"
  aq_pause :: "'q \<Rightarrow> 'q"
  aq_resume :: "'q \<Rightarrow> 'q"
  aq_kill :: "'q \<Rightarrow> 'q"
  aq_length :: "'q \<Rightarrow> nat"
  ws_refuses :: "string \<Rightarrow> (string \<times> string) list \<Rightarrow> js_error option"
  parse_message :: "string \<Rightarrow> js_error + 'r"

section \<open>Timers and queues\<close>

definition ws_setTimeout :: "ws_timer \<Rightarrow> ('q, 'm, 'r) ws_transport \<Rightarrow> nat \<times> ('q, 'm, 'r) ws_transport" where
  "ws_setTimeout t \<sigma> = (next_handle \<sigma>,
     \<sigma>\<lparr>timers := timers \<sigma> @ [(next_handle \<sigma>, t)], next_handle := Suc (next_handle \<sigma>)\<rparr>)"

definition ws_clearTimeout :: "nat option \<Rightarrow> ('q, 'm, 'r) ws_transport \<Rightarrow> ('q, 'm, 'r) ws_transport" where
  "ws_clearTimeout h \<sigma> = (case h of None \<Rightarrow> \<sigma> | Some n \<Rightarrow> \<sigma>\<lparr>timers := del n (timers \<sigma>)\<rparr>)"

definition clearBeat :: "('q, 'm, 'r) ws_transport \<Rightarrow> ('q, 'm, 'r) ws_transport" where
  "clearBeat \<sigma> = (ws_clearTimeout (hearBeatHandle \<sigma>) \<sigma>)\<lparr>hearBeatHandle := None\<rparr>"

definition clearDrain :: "('q, 'm, 'r) ws_transport \<Rightarrow> ('q, 'm, 'r) ws_transport" where
  "clearDrain \<sigma> = (ws_clearTimeout (drainTimeoutHandle \<sigma>) \<sigma>)\<lparr>drainTimeoutHandle := None\<rparr>"

text \<open>An operation on the current sending queue; nothing when there is none.\<close>

definition on_queue :: "('q \<Rightarrow> 'q) \<Rightarrow> ('q, 'm, 'r) ws_transport \<Rightarrow> ('q, 'm, 'r) ws_transport" where
  "on_queue f \<sigma> =
     (case sendingQueue \<sigma> of None \<Rightarrow> \<sigma> | Some i \<Rightarrow> \<sigma>\<lparr>queues := (queues \<sigma>)[i := f (queues \<sigma> ! i)]\<rparr>)"

definition pause :: "('q, 'm, 'r) runtime \<Rightarrow> ('q, 'm, 'r) ws_transport \<Rightarrow> ('q, 'm, 'r) ws_transport" where
  "pause R \<sigma> = on_queue (aq_pause R) \<sigma>"

definition resume_queue :: "('q, 'm, 'r) runtime \<Rightarrow> ('q, 'm, 'r) ws_transport \<Rightarrow> ('q, 'm, 'r) ws_transport" where
  "resume_queue R \<sigma> = on_queue (aq_resume R) \<sigma>"

section \<open>Events\<close>

text \<open>Only the first \<open>resolve\<close> or \<open>reject\<close> of a promise counts.\<close>

definition settle_first :: "nat \<Rightarrow> settled \<Rightarrow> settled list \<Rightarrow> settled list" where
  "settle_first n v ps = (if n < length ps \<and> ps ! n = Pending then ps[n := v] else ps)"

text \<open>\<open>cleanup\<close> in \<open>disconnect\<close>. It takes the resolving handler off \<open>ON_CONNECTED\<close>.\<close>

definition cleanup :: "nat \<Rightarrow> ('q, 'm, 'r) ws_transport \<Rightarrow> ('q, 'm, 'r) ws_transport" where
  "cleanup d \<sigma> = \<sigma>\<lparr>table :=
     removeListener ON_ERROR (ErrHandler d) (removeListener ON_CONNECTED (ResHandler d) (table \<sigma>))\<rparr>"

fun invoke :: "'r payload \<Rightarrow> ws_listener \<Rightarrow> ('q, 'm, 'r) ws_transport \<Rightarrow> ('q, 'm, 'r) ws_transport" where
  "invoke p (UserMessage c) \<sigma> =
     (case p of Received r \<Rightarrow> \<sigma>\<lparr>received := received \<sigma> @ [(c, r)]\<rparr> | _ \<Rightarrow> \<sigma>)"
| "invoke p (UserError c) \<sigma> =
     (case p of Failure e \<Rightarrow> \<sigma>\<lparr>reported := reported \<sigma> @ [(c, e)]\<rparr> | _ \<Rightarrow> \<sigma>)"
| "invoke p (ResHandler d) \<sigma> =
     (cleanup d \<sigma>)\<lparr>disconnects := settle_first d Resolved (disconnects \<sigma>)\<rparr>"
| "invoke p (ErrHandler d) \<sigma> =
     (case p of
        Failure e \<Rightarrow> (cleanup d \<sigma>)\<lparr>disconnects := settle_first d (Rejected_with e) (disconnects \<sigma>)\<rparr>
      | _ \<Rightarrow> cleanup d \<sigma>)"

definition emit_event :: "string \<Rightarrow> 'r payload \<Rightarrow> ('q, 'm, 'r) ws_transport \<Rightarrow> ('q, 'm, 'r) ws_transport" where
  "emit_event ev p \<sigma> =
     (case emit ev (table \<sigma>) of
        (Inl _, em) \<Rightarrow> \<sigma>
      | (Inr (_, fs), em) \<Rightarrow> fold (invoke p) fs (\<sigma>\<lparr>table := em\<rparr>))"

definition onConnectedHandler :: "('q, 'm, 'r) runtime \<Rightarrow> ('q, 'm, 'r) ws_transport \<Rightarrow> ('q, 'm, 'r) ws_transport" where
  "onConnectedHandler R \<sigma> = resume_queue R (emit_event ON_CONNECTED No_payload \<sigma>)"

definition onClosedHandler :: "('q, 'm, 'r) runtime \<Rightarrow> ('q, 'm, 'r) ws_transport \<Rightarrow> ('q, 'm, 'r) ws_transport" where
  "onClosedHandler R \<sigma> = emit_event ON_CLOSED No_payload (pause R (clearBeat \<sigma>))"

definition onErrorHandler ::
  "('q, 'm, 'r) runtime \<Rightarrow> js_error \<Rightarrow> ('q, 'm, 'r) ws_transport \<Rightarrow> ('q, 'm, 'r) ws_transport" where
  "onErrorHandler R err \<sigma> = emit_event ON_ERROR (Failure err) (pause R (clearBeat \<sigma>))"

text \<open>The parse may throw; nothing is emitted then.\<close>

definition onMessageHandler ::
  "('q, 'm, 'r) runtime \<Rightarrow> string \<Rightarrow> ('q, 'm, 'r) ws_transport \<Rightarrow> (js_error + unit) \<times> ('q, 'm, 'r) ws_transport" where
  "onMessageHandler R rawMsg \<sigma> =
     (case parse_message R rawMsg of
        Inl e \<Rightarrow> (Throw e, \<sigma>)
      | Inr r \<Rightarrow> (Return (), emit_event ON_MESSAGE (Received r) \<sigma>))"

section \<open>Disconnecting\<close>

definition isConnected :: "('q, 'm, 'r) ws_transport \<Rightarrow> bool" where
  "isConnected \<sigma> = (case ws \<sigma> of None \<Rightarrow> False | Some n \<Rightarrow> readyState (sockets \<sigma> ! n) = OPEN)"

definition strategy_in_use :: "('q, 'm, 'r) ws_transport \<Rightarrow> ConnectionStrategy" where
  "strategy_in_use \<sigma> = (case conf \<sigma> of Some c \<Rightarrow> connectionStrategy c | None \<Rightarrow> CONNECTION_STRATEGY)"

definition drainHandler :: "('q, 'm, 'r) ws_transport \<Rightarrow> ('q, 'm, 'r) ws_transport" where
  "drainHandler \<sigma> =
     (let \<sigma>1 = clearDrain \<sigma>
      in if strategy_in_use \<sigma>1 \<noteq> LEAVE_OPEN
         then (case ws_setTimeout Drain_timer \<sigma>1 of (h, \<sigma>2) \<Rightarrow> \<sigma>2\<lparr>drainTimeoutHandle := Some h\<rparr>)
         else \<sigma>1)"

text \<open>
  \<open>disconnect\<close> up to the promise it returns, which is the last of \<open>disconnects\<close>.
\<close>

definition flush :: "('q, 'm, 'r) runtime \<Rightarrow> bool \<Rightarrow> ('q, 'm, 'r) ws_transport \<Rightarrow> ('q, 'm, 'r) ws_transport" where
  "flush R flushQueue \<sigma> =
     (case sendingQueue \<sigma> of
        Some i \<Rightarrow>
          (if flushQueue \<and> aq_length R (queues \<sigma> ! i) > 0
           then on_queue (aq_kill R) (drainHandler \<sigma>) else \<sigma>)
      | None \<Rightarrow> \<sigma>)"

definition remove_references :: "('q, 'm, 'r) ws_transport \<Rightarrow> ('q, 'm, 'r) ws_transport" where
  "remove_references \<sigma> = (clearDrain (clearBeat \<sigma>))\<lparr>ws := None, sendingQueue := None, conf := None\<rparr>"

definition disconnect ::
  "('q, 'm, 'r) runtime \<Rightarrow> bool \<Rightarrow> ('q, 'm, 'r) ws_transport \<Rightarrow> ('q, 'm, 'r) ws_transport" where
  "disconnect R flushQueue \<sigma> =
     (let \<sigma>1 = flush R flushQueue \<sigma>; old = ws \<sigma>1;
          \<sigma>2 = remove_references \<sigma>1; d = length (disconnects \<sigma>2);
          \<sigma>3 = \<sigma>2\<lparr>disconnects := disconnects \<sigma>2 @ [Pending],
                  table := on ON_ERROR (ErrHandler d) (on ON_CLOSED (ResHandler d) (table \<sigma>2))\<rparr>
      in case old of
           Some n \<Rightarrow>
             (if readyState (sockets \<sigma>3 ! n) \<noteq> CLOSED then \<sigma>3\<lparr>calls := calls \<sigma>3 @ [Close n]\<rparr>
              else onClosedHandler R \<sigma>3)
         | None \<Rightarrow> onClosedHandler R \<sigma>3)"

section \<open>Connecting\<close>

definition adjustConfByConnectionStrategy :: "ws_config \<Rightarrow> ws_config" where
  "adjustConfByConnectionStrategy newConf =
     (if strategy_number (connectionStrategy newConf) \<noteq> 0
      then (case connectionStrategy newConf of
              CLOSE_IMMEDIATE \<Rightarrow> newConf\<lparr>drainTimeoutMs := 100\<rparr>
            | LEAVE_OPEN \<Rightarrow> newConf
            | CLOSE_AFTER_TIMEOUT \<Rightarrow> newConf)
      else newConf)"

text \<open>The part of \<open>connect\<close> after the old connection is gone; \<open>c\<close> is the number of the call.\<close>

definition open_socket ::
  "('q, 'm, 'r) runtime \<Rightarrow> nat \<Rightarrow> connection_factory \<Rightarrow> connection_opts \<Rightarrow>
     ('q, 'm, 'r) ws_transport \<Rightarrow> ('q, 'm, 'r) ws_transport" where
  "open_socket R c factory opts \<sigma> =
     (let url = endpoint factory opts; hdrs = headers factory opts
      in case ws_refuses R url hdrs of
           Some e \<Rightarrow> \<sigma>\<lparr>connects := (connects \<sigma>)[c := Connect_failed e]\<rparr>
         | None \<Rightarrow>
             emit_event ON_CONNECTING No_payload
               (\<sigma>\<lparr>ws := Some (length (sockets \<sigma>)),
                  sockets := sockets \<sigma> @ [\<lparr>sock_url = url, sock_headers = hdrs, readyState = CONNECTING,
                    opened = False, opened_by = c\<rparr>],
                  connects := (connects \<sigma>)[c := Opening (length (sockets \<sigma>))]\<rparr>))"

definition connect ::
  "('q, 'm, 'r) runtime \<Rightarrow> ws_config \<Rightarrow> connection_opts \<Rightarrow> ('q, 'm, 'r) ws_transport \<Rightarrow> ('q, 'm, 'r) ws_transport" where
  "connect R config opts \<sigma> =
     (let c = length (connects \<sigma>);
          \<sigma>1 = \<sigma>\<lparr>conf := Some (adjustConfByConnectionStrategy config),
                 sendingQueue := Some (length (queues \<sigma>)), queues := queues \<sigma> @ [aq_create R]\<rparr>
      in if isConnected \<sigma>1
         then let \<sigma>2 = disconnect R True \<sigma>1
              in \<sigma>2\<lparr>connects := connects \<sigma>2 @
                   [Awaiting (length (disconnects \<sigma>2) - 1) (connectionFactory config) opts]\<rparr>
         else open_socket R c (connectionFactory config) opts
                (\<sigma>1\<lparr>connects := connects \<sigma>1 @ [Opening 0]\<rparr>))"

text \<open>\<open>await this.disconnect(true)\<close> is over.\<close>

definition continue_connect ::
  "('q, 'm, 'r) runtime \<Rightarrow> nat \<Rightarrow> ('q, 'm, 'r) ws_transport \<Rightarrow> ('q, 'm, 'r) ws_transport option" where
  "continue_connect R c \<sigma> =
     (if c < length (connects \<sigma>)
      then (case connects \<sigma> ! c of
              Awaiting d factory opts \<Rightarrow>
                (case disconnects \<sigma> ! d of
                   Pending \<Rightarrow> None
                 | Resolved \<Rightarrow> Some (open_socket R c factory opts \<sigma>)
                 | Rejected_with e \<Rightarrow> Some (\<sigma>\<lparr>connects := (connects \<sigma>)[c := Connect_failed e]\<rparr>))
            | _ \<Rightarrow> None)
      else None)"

text \<open>The callbacks \<open>connect\<close> registers with its socket \<open>n\<close>.\<close>

definition ws_open :: "('q, 'm, 'r) runtime \<Rightarrow> nat \<Rightarrow> ('q, 'm, 'r) ws_transport \<Rightarrow> ('q, 'm, 'r) ws_transport" where
  "ws_open R n \<sigma> =
     (let \<sigma>1 = onConnectedHandler R \<sigma>; c = opened_by (sockets \<sigma>1 ! n)
      in \<sigma>1\<lparr>sockets := (sockets \<sigma>1)[n := (sockets \<sigma>1 ! n)\<lparr>opened := True\<rparr>],
            connects := (connects \<sigma>1)[c := (if connects \<sigma>1 ! c = Opening n then Connect_done else connects \<sigma>1 ! c)]\<rparr>)"

definition ws_error :: "('q, 'm, 'r) runtime \<Rightarrow> nat \<Rightarrow> js_error \<Rightarrow> ('q, 'm, 'r) ws_transport \<Rightarrow> ('q, 'm, 'r) ws_transport" where
  "ws_error R n err \<sigma> =
     (let \<sigma>1 = onErrorHandler R err \<sigma>; c = opened_by (sockets \<sigma>1 ! n)
      in if \<not> opened (sockets \<sigma>1 ! n) \<and> connects \<sigma>1 ! c = Opening n
         then \<sigma>1\<lparr>connects := (connects \<sigma>1)[c := Connect_failed err]\<rparr> else \<sigma>1)"

text \<open>What a socket delivers: text, a buffer of UTF-8 text, or something else.\<close>

datatype ws_data = Text string | Buffer string | Other_data

fun message_text :: "ws_data \<Rightarrow> string" where
  "message_text (Text s) = s"
| "message_text (Buffer s) = s"
| "message_text Other_data = []"

end
