(* ===== verification/Ws_System.thy ===== *)
theory Ws_System
  imports Ws_Transport
begin

text \<open>
  The sending side of \<open>packages/transport-ws/src/transport.ts\<close>, the heartbeat, and the transport among
  its users, its sockets, its queue and its timers, as a step function over events.
\<close>

section \<open>Sending\<close>

definition queue_not_ready :: js_error where
  "queue_not_ready = Error ''Cannot send message; queue not ready/available''"

text \<open>\<open>sendWithCb\<close>, with the callback given by the number of the promise it settles; without one the
  outcome is logged.\<close>

definition sendWithCb ::
  "('q, 'm, 'r) runtime \<Rightarrow> nat option \<Rightarrow> 'm list \<Rightarrow> ('q, 'm, 'r) ws_transport \<Rightarrow> ('q, 'm, 'r) ws_transport" where
  "sendWithCb R cb messages \<sigma> =
     (case sendingQueue \<sigma> of
        Some _ \<Rightarrow> on_queue (aq_push R cb messages) \<sigma>
      | None \<Rightarrow>
          (case cb of None \<Rightarrow> \<sigma>
           | Some n \<Rightarrow> \<sigma>\<lparr>sends := settle_first n (Rejected_with queue_not_ready) (sends \<sigma>)\<rparr>))"

text \<open>The promise is the last of \<open>sends\<close>.\<close>

definition sendMessages ::
  "('q, 'm, 'r) runtime \<Rightarrow> 'm list \<Rightarrow> ('q, 'm, 'r) ws_transport \<Rightarrow> ('q, 'm, 'r) ws_transport" where
  "sendMessages R messages \<sigma> =
     sendWithCb R (Some (length (sends \<sigma>))) messages (\<sigma>\<lparr>sends := sends \<sigma> @ [Pending]\<rparr>)"

definition ws_sendMessage ::
  "('q, 'm, 'r) runtime \<Rightarrow> 'm \<Rightarrow> ('q, 'm, 'r) ws_transport \<Rightarrow> ('q, 'm, 'r) ws_transport" where
  "ws_sendMessage R message \<sigma> = sendMessages R [message] \<sigma>"

definition ws_onMessage :: "nat \<Rightarrow> ('q, 'm, 'r) ws_transport \<Rightarrow> ('q, 'm, 'r) ws_transport" where
  "ws_onMessage cb \<sigma> = \<sigma>\<lparr>table := on ON_MESSAGE (UserMessage cb) (table \<sigma>)\<rparr>"

definition ws_onError :: "nat \<Rightarrow> ('q, 'm, 'r) ws_transport \<Rightarrow> ('q, 'm, 'r) ws_transport" where
  "ws_onError cb \<sigma> = \<sigma>\<lparr>table := on ON_ERROR (UserError cb) (table \<sigma>)\<rparr>"

section \<open>The queue's worker\<close>

definition set_transmission ::
  "nat \<Rightarrow> transmission_state \<Rightarrow> ('q, 'm, 'r) ws_transport \<Rightarrow> ('q, 'm, 'r) ws_transport" where
  "set_transmission k st \<sigma> =
     \<sigma>\<lparr>transmissions := (transmissions \<sigma>)[k := (transmissions \<sigma> ! k)\<lparr>tr_state := st\<rparr>]\<rparr>"

text \<open>The callback \<open>transmit\<close> passes to \<open>waitForSocketConnection\<close>. A message that could not be sent goes
  back to the front of the queue.\<close>

definition socket_waited ::
  "('q, 'm, 'r) runtime \<Rightarrow> nat \<Rightarrow> string option \<Rightarrow> ('q, 'm, 'r) ws_transport \<Rightarrow> ('q, 'm, 'r) ws_transport" where
  "socket_waited R k err2 \<sigma> =
     (let message = tr_message (transmissions \<sigma> ! k)
      in case err2 of
           Some e \<Rightarrow>
             (case sendingQueue \<sigma> of
                None \<Rightarrow> set_transmission k (Done (Some ''SendQueue not ready/present; not properly initialized/started the transport'')) \<sigma>
              | Some _ \<Rightarrow> set_transmission k (Done (Some e)) (on_queue (aq_unshift R message) \<sigma>))
         | None \<Rightarrow>
             (case ws \<sigma> of
                None \<Rightarrow> set_transmission k (Done (Some (''failed to send message, since the socket isn'' @ [CHR 0x27] @ ''t available/initialized''))) \<sigma>
              | Some n \<Rightarrow> (set_transmission k Sending \<sigma>)\<lparr>calls := calls \<sigma> @ [Transmit n message]\<rparr>))"

definition retries_exhausted :: string where
  "retries_exhausted = ''Waited for sockets to reconnect. Max timeout reached!''"

text \<open>One call of \<open>waitForSocketConnection\<close> for transmission \<open>k\<close>; the last branch arms its retry timer.\<close>

definition waitForSocketConnection ::
  "('q, 'm, 'r) runtime \<Rightarrow> nat \<Rightarrow> int \<Rightarrow> ('q, 'm, 'r) ws_transport \<Rightarrow> ('q, 'm, 'r) ws_transport" where
  "waitForSocketConnection R k maxRetries \<sigma> =
     (if maxRetries < 0 then socket_waited R k (Some retries_exhausted) \<sigma>
      else if readyState (sockets \<sigma> ! tr_socket (transmissions \<sigma> ! k)) = OPEN then socket_waited R k None \<sigma>
      else set_transmission k (Polling maxRetries) \<sigma>)"

definition retries_in_use :: "('q, 'm, 'r) ws_transport \<Rightarrow> int" where
  "retries_in_use \<sigma> = (case conf \<sigma> of Some c \<Rightarrow> messagingMaxRetries c | None \<Rightarrow> MESSAGING_MAX_RETRIES)"

definition transmit ::
  "('q, 'm, 'r) runtime \<Rightarrow> 'm \<Rightarrow> ('q, 'm, 'r) ws_transport \<Rightarrow> ('q, 'm, 'r) ws_transport" where
  "transmit R message \<sigma> =
     (let k = length (transmissions \<sigma>)
      in case ws \<sigma> of
           None \<Rightarrow> \<sigma>\<lparr>transmissions := transmissions \<sigma> @
             [\<lparr>tr_message = message, tr_socket = 0,
               tr_state = Done (Some ''Socket is undefined! Did you forget to connect?'')\<rparr>]\<rparr>
         | Some n \<Rightarrow>
             waitForSocketConnection R k (retries_in_use \<sigma>)
               (\<sigma>\<lparr>transmissions := transmissions \<sigma> @
                 [\<lparr>tr_message = message, tr_socket = n, tr_state = Sending\<rparr>]\<rparr>))"

text \<open>Every armed timer: those with a handle, and the retry timers, by transmission.\<close>

datatype armed_timer = Held nat ws_timer | Retry nat

definition retrying :: "'m transmission \<Rightarrow> bool" where
  "retrying t = (case tr_state t of Polling _ \<Rightarrow> True | _ \<Rightarrow> False)"

definition retry_timers :: "'m transmission list \<Rightarrow> armed_timer list" where
  "retry_timers ts = map Retry (filter (\<lambda>k. retrying (ts ! k)) [0..<length ts])"

definition pending_timers :: "('q, 'm, 'r) ws_transport \<Rightarrow> armed_timer list" where
  "pending_timers \<sigma> = map (\<lambda>(h, t). Held h t) (timers \<sigma>) @ retry_timers (transmissions \<sigma>)"

section \<open>The heartbeat\<close>

definition proceed :: "('q, 'm, 'r) ws_transport \<Rightarrow> ('q, 'm, 'r) ws_transport" where
  "proceed \<sigma> = (case ws_setTimeout Beat_timer \<sigma> of (h, \<sigma>1) \<Rightarrow> \<sigma>1\<lparr>hearBeatHandle := Some h\<rparr>)"

definition heartBeatCheck :: "bool \<Rightarrow> int \<Rightarrow> ('q, 'm, 'r) ws_transport \<Rightarrow> ('q, 'm, 'r) ws_transport" where
  "heartBeatCheck verifyWithPong pongTimeoutMs \<sigma> =
     (let \<sigma>1 = clearBeat \<sigma>
      in case ws \<sigma>1 of
           None \<Rightarrow> proceed \<sigma>1
         | Some n \<Rightarrow>
             (if verifyWithPong
              then (case ws_setTimeout (Pong_timer pongTimeoutMs) \<sigma>1 of (h, \<sigma>2) \<Rightarrow>
                     \<sigma>2\<lparr>pong_listeners := pong_listeners \<sigma>2 @ [(n, h)], calls := calls \<sigma>2 @ [Ping n]\<rparr>)
              else proceed (\<sigma>1\<lparr>calls := calls \<sigma>1 @ [Ping n]\<rparr>)))"

text \<open>A pong calls every pong listener of the socket.\<close>

definition ws_pong :: "nat \<Rightarrow> ('q, 'm, 'r) ws_transport \<Rightarrow> ('q, 'm, 'r) ws_transport" where
  "ws_pong n \<sigma> =
     fold (\<lambda>(_, h) s. proceed (ws_clearTimeout (Some h) s)) (filter (\<lambda>p. fst p = n) (pong_listeners \<sigma>)) \<sigma>"

section \<open>Steps\<close>

fun fire_timer :: "('q, 'm, 'r) runtime \<Rightarrow> ws_timer \<Rightarrow> ('q, 'm, 'r) ws_transport \<Rightarrow> ('q, 'm, 'r) ws_transport" where
  "fire_timer R Drain_timer \<sigma> = disconnect R True \<sigma>"
| "fire_timer R Beat_timer \<sigma> = heartBeatCheck False 100 \<sigma>"
| "fire_timer R (Pong_timer ms) \<sigma> =
     onErrorHandler R (Error (''No pong received after waiting '' @ show_int ms @ ''ms!'')) \<sigma>"

datatype 'm ws_event =
    Do_connect ws_config connection_opts
  | Continue_connect nat
  | Do_disconnect bool
  | Do_send "'m list"
  | Do_onMessage nat
  | Do_onError nat
  | Work 'm                            \<comment> \<open>a queue calls its worker\<close>
  | Drained                            \<comment> \<open>a queue calls its \<open>drain\<close> function\<close>
  | Task_done nat "js_error option"    \<comment> \<open>a queue calls the callback of a \<open>sendMessages\<close>\<close>
  | Check nat                          \<comment> \<open>the retry timer of a transmission fires\<close>
  | Sent nat "string option"           \<comment> \<open>the callback of \<open>ws.send\<close>, with the error's message\<close>
  | Ws_timeout nat
  | Ws_ready nat ready_state           \<comment> \<open>a socket changes its state\<close>
  | Ws_open nat
  | Ws_close nat
  | Ws_error nat js_error
  | Ws_data nat ws_data
  | Ws_pong nat

definition in_state :: "nat \<Rightarrow> ready_state \<Rightarrow> ('q, 'm, 'r) ws_transport \<Rightarrow> ('q, 'm, 'r) ws_transport" where
  "in_state n st \<sigma> = \<sigma>\<lparr>sockets := (sockets \<sigma>)[n := (sockets \<sigma> ! n)\<lparr>readyState := st\<rparr>]\<rparr>"

fun ws_step ::
  "('q, 'm, 'r) runtime \<Rightarrow> 'm ws_event \<Rightarrow> ('q, 'm, 'r) ws_transport \<Rightarrow> ('q, 'm, 'r) ws_transport option" where
  "ws_step R (Do_connect config opts) \<sigma> = Some (connect R config opts \<sigma>)"
| "ws_step R (Continue_connect c) \<sigma> = continue_connect R c \<sigma>"
| "ws_step R (Do_disconnect b) \<sigma> = Some (disconnect R b \<sigma>)"
| "ws_step R (Do_send ms) \<sigma> = Some (sendMessages R ms \<sigma>)"
| "ws_step R (Do_onMessage cb) \<sigma> = Some (ws_onMessage cb \<sigma>)"
| "ws_step R (Do_onError cb) \<sigma> = Some (ws_onError cb \<sigma>)"
| "ws_step R (Work m) \<sigma> = Some (transmit R m \<sigma>)"
| "ws_step R Drained \<sigma> = Some (drainHandler \<sigma>)"
| "ws_step R (Task_done n err) \<sigma> =
     Some (\<sigma>\<lparr>sends := settle_first n (case err of None \<Rightarrow> Resolved | Some e \<Rightarrow> Rejected_with e) (sends \<sigma>)\<rparr>)"
| "ws_step R (Check k) \<sigma> =
     (if k < length (transmissions \<sigma>)
      then (case tr_state (transmissions \<sigma> ! k) of
              Polling r \<Rightarrow> Some (waitForSocketConnection R k (r - 1) \<sigma>) | _ \<Rightarrow> None)
      else None)"
| "ws_step R (Sent k err) \<sigma> =
     (if k < length (transmissions \<sigma>) \<and> tr_state (transmissions \<sigma> ! k) = Sending
      then Some (set_transmission k (Done err) \<sigma>) else None)"
| "ws_step R (Ws_timeout h) \<sigma> =
     (case map_of (timers \<sigma>) h of
        None \<Rightarrow> None | Some t \<Rightarrow> Some (fire_timer R t (\<sigma>\<lparr>timers := del h (timers \<sigma>)\<rparr>)))"
| "ws_step R (Ws_ready n st) \<sigma> = (if n < length (sockets \<sigma>) then Some (in_state n st \<sigma>) else None)"
| "ws_step R (Ws_open n) \<sigma> =
     (if n < length (sockets \<sigma>) then Some (ws_open R n (in_state n OPEN \<sigma>)) else None)"
| "ws_step R (Ws_close n) \<sigma> =
     (if n < length (sockets \<sigma>) then Some (onClosedHandler R (in_state n CLOSED \<sigma>)) else None)"
| "ws_step R (Ws_error n e) \<sigma> = (if n < length (sockets \<sigma>) then Some (ws_error R n e \<sigma>) else None)"
| "ws_step R (Ws_data n d) \<sigma> =
     (if n < length (sockets \<sigma>) then Some (snd (onMessageHandler R (message_text d) \<sigma>)) else None)"
| "ws_step R (Ws_pong n) \<sigma> = (if n < length (sockets \<sigma>) then Some (ws_pong n \<sigma>) else None)"

fun ws_exec ::
  "('q, 'm, 'r) runtime \<Rightarrow> 'm ws_event list \<Rightarrow> ('q, 'm, 'r) ws_transport \<Rightarrow> ('q, 'm, 'r) ws_transport option" where
  "ws_exec R [] \<sigma> = Some \<sigma>"
| "ws_exec R (e # es) \<sigma> = (case ws_step R e \<sigma> of None \<Rightarrow> None | Some \<sigma>' \<Rightarrow> ws_exec R es \<sigma>')"

inductive ws_reachable :: "('q, 'm, 'r) runtime \<Rightarrow> ('q, 'm, 'r) ws_transport \<Rightarrow> bool" for R where
  init: "ws_reachable R new_transport"
| step: "ws_reachable R \<sigma> \<Longrightarrow> ws_step R e \<sigma> = Some \<sigma>' \<Longrightarrow> ws_reachable R \<sigma>'"

lemma ws_exec_reachable:
  "ws_reachable R \<sigma> \<Longrightarrow> ws_exec R es \<sigma> = Some \<sigma>' \<Longrightarrow> ws_reachable R \<sigma>'"
  by (induction es arbitrary: \<sigma>) (auto intro: ws_reachable.step split: option.splits)

end
