(* ===== verification/Ws_Invariants.thy ===== *)
theory Ws_Invariants
  imports Ws_System
begin

text \<open>
  What holds in every state the WebSocket transport can get into: the listeners of the \<open>disconnect()\<close>
  calls, the references to sockets and queues, and the timers.
\<close>

section \<open>What an emission leaves alone\<close>

lemma invoke_frame:
  "ws (invoke p l \<sigma>) = ws \<sigma>" "sendingQueue (invoke p l \<sigma>) = sendingQueue \<sigma>" "conf (invoke p l \<sigma>) = conf \<sigma>"
  "drainTimeoutHandle (invoke p l \<sigma>) = drainTimeoutHandle \<sigma>" "hearBeatHandle (invoke p l \<sigma>) = hearBeatHandle \<sigma>"
  "sockets (invoke p l \<sigma>) = sockets \<sigma>" "queues (invoke p l \<sigma>) = queues \<sigma>" "timers (invoke p l \<sigma>) = timers \<sigma>"
  "next_handle (invoke p l \<sigma>) = next_handle \<sigma>" "pong_listeners (invoke p l \<sigma>) = pong_listeners \<sigma>"
  "connects (invoke p l \<sigma>) = connects \<sigma>" "sends (invoke p l \<sigma>) = sends \<sigma>"
  "transmissions (invoke p l \<sigma>) = transmissions \<sigma>" "calls (invoke p l \<sigma>) = calls \<sigma>"
  "length (disconnects (invoke p l \<sigma>)) = length (disconnects \<sigma>)"
  by (cases l; cases p; simp add: cleanup_def settle_first_def)+

lemma fold_invoke_frame:
  "ws (fold (invoke p) ls \<sigma>) = ws \<sigma>" "sendingQueue (fold (invoke p) ls \<sigma>) = sendingQueue \<sigma>"
  "conf (fold (invoke p) ls \<sigma>) = conf \<sigma>" "drainTimeoutHandle (fold (invoke p) ls \<sigma>) = drainTimeoutHandle \<sigma>"
  "hearBeatHandle (fold (invoke p) ls \<sigma>) = hearBeatHandle \<sigma>" "sockets (fold (invoke p) ls \<sigma>) = sockets \<sigma>"
  "queues (fold (invoke p) ls \<sigma>) = queues \<sigma>" "timers (fold (invoke p) ls \<sigma>) = timers \<sigma>"
  "next_handle (fold (invoke p) ls \<sigma>) = next_handle \<sigma>"
  "pong_listeners (fold (invoke p) ls \<sigma>) = pong_listeners \<sigma>" "connects (fold (invoke p) ls \<sigma>) = connects \<sigma>"
  "sends (fold (invoke p) ls \<sigma>) = sends \<sigma>" "transmissions (fold (invoke p) ls \<sigma>) = transmissions \<sigma>"
  "calls (fold (invoke p) ls \<sigma>) = calls \<sigma>" "length (disconnects (fold (invoke p) ls \<sigma>)) = length (disconnects \<sigma>)"
  by (induction ls arbitrary: \<sigma>) (simp_all add: invoke_frame)

lemma emit_event_frame [simp]:
  "ws (emit_event ev p \<sigma>) = ws \<sigma>" "sendingQueue (emit_event ev p \<sigma>) = sendingQueue \<sigma>"
  "conf (emit_event ev p \<sigma>) = conf \<sigma>" "drainTimeoutHandle (emit_event ev p \<sigma>) = drainTimeoutHandle \<sigma>"
  "hearBeatHandle (emit_event ev p \<sigma>) = hearBeatHandle \<sigma>" "sockets (emit_event ev p \<sigma>) = sockets \<sigma>"
  "queues (emit_event ev p \<sigma>) = queues \<sigma>" "timers (emit_event ev p \<sigma>) = timers \<sigma>"
  "next_handle (emit_event ev p \<sigma>) = next_handle \<sigma>"
  "pong_listeners (emit_event ev p \<sigma>) = pong_listeners \<sigma>" "connects (emit_event ev p \<sigma>) = connects \<sigma>"
  "sends (emit_event ev p \<sigma>) = sends \<sigma>" "transmissions (emit_event ev p \<sigma>) = transmissions \<sigma>"
  "calls (emit_event ev p \<sigma>) = calls \<sigma>" "length (disconnects (emit_event ev p \<sigma>)) = length (disconnects \<sigma>)"
  by (auto simp: emit_event_def fold_invoke_frame split: prod.splits sum.splits)

lemma on_queue_frame [simp]:
  "ws (on_queue f \<sigma>) = ws \<sigma>" "sendingQueue (on_queue f \<sigma>) = sendingQueue \<sigma>" "conf (on_queue f \<sigma>) = conf \<sigma>"
  "drainTimeoutHandle (on_queue f \<sigma>) = drainTimeoutHandle \<sigma>" "hearBeatHandle (on_queue f \<sigma>) = hearBeatHandle \<sigma>"
  "table (on_queue f \<sigma>) = table \<sigma>" "sockets (on_queue f \<sigma>) = sockets \<sigma>" "timers (on_queue f \<sigma>) = timers \<sigma>"
  "next_handle (on_queue f \<sigma>) = next_handle \<sigma>" "pong_listeners (on_queue f \<sigma>) = pong_listeners \<sigma>"
  "connects (on_queue f \<sigma>) = connects \<sigma>" "sends (on_queue f \<sigma>) = sends \<sigma>" "disconnects (on_queue f \<sigma>) = disconnects \<sigma>"
  "transmissions (on_queue f \<sigma>) = transmissions \<sigma>" "calls (on_queue f \<sigma>) = calls \<sigma>"
  "length (queues (on_queue f \<sigma>)) = length (queues \<sigma>)"
  "received (on_queue f \<sigma>) = received \<sigma>" "reported (on_queue f \<sigma>) = reported \<sigma>"
  by (simp_all add: on_queue_def split: option.splits)

lemma clear_frame [simp]:
  "ws (clearBeat \<sigma>) = ws \<sigma>" "sendingQueue (clearBeat \<sigma>) = sendingQueue \<sigma>" "conf (clearBeat \<sigma>) = conf \<sigma>"
  "drainTimeoutHandle (clearBeat \<sigma>) = drainTimeoutHandle \<sigma>" "hearBeatHandle (clearBeat \<sigma>) = None"
  "table (clearBeat \<sigma>) = table \<sigma>" "sockets (clearBeat \<sigma>) = sockets \<sigma>" "queues (clearBeat \<sigma>) = queues \<sigma>"
  "next_handle (clearBeat \<sigma>) = next_handle \<sigma>" "pong_listeners (clearBeat \<sigma>) = pong_listeners \<sigma>"
  "connects (clearBeat \<sigma>) = connects \<sigma>" "sends (clearBeat \<sigma>) = sends \<sigma>" "disconnects (clearBeat \<sigma>) = disconnects \<sigma>"
  "transmissions (clearBeat \<sigma>) = transmissions \<sigma>" "calls (clearBeat \<sigma>) = calls \<sigma>"
  "ws (clearDrain \<sigma>) = ws \<sigma>" "sendingQueue (clearDrain \<sigma>) = sendingQueue \<sigma>" "conf (clearDrain \<sigma>) = conf \<sigma>"
  "drainTimeoutHandle (clearDrain \<sigma>) = None" "hearBeatHandle (clearDrain \<sigma>) = hearBeatHandle \<sigma>"
  "table (clearDrain \<sigma>) = table \<sigma>" "sockets (clearDrain \<sigma>) = sockets \<sigma>" "queues (clearDrain \<sigma>) = queues \<sigma>"
  "next_handle (clearDrain \<sigma>) = next_handle \<sigma>" "pong_listeners (clearDrain \<sigma>) = pong_listeners \<sigma>"
  "connects (clearDrain \<sigma>) = connects \<sigma>" "sends (clearDrain \<sigma>) = sends \<sigma>" "disconnects (clearDrain \<sigma>) = disconnects \<sigma>"
  "transmissions (clearDrain \<sigma>) = transmissions \<sigma>" "calls (clearDrain \<sigma>) = calls \<sigma>"
  "hearBeatHandle \<sigma> = None \<Longrightarrow> timers (clearBeat \<sigma>) = timers \<sigma>"
  by (simp_all add: clearBeat_def clearDrain_def ws_clearTimeout_def split: option.splits)

lemma drainHandler_frame [simp]:
  "ws (drainHandler \<sigma>) = ws \<sigma>" "sendingQueue (drainHandler \<sigma>) = sendingQueue \<sigma>" "conf (drainHandler \<sigma>) = conf \<sigma>"
  "hearBeatHandle (drainHandler \<sigma>) = hearBeatHandle \<sigma>" "table (drainHandler \<sigma>) = table \<sigma>"
  "sockets (drainHandler \<sigma>) = sockets \<sigma>" "queues (drainHandler \<sigma>) = queues \<sigma>"
  "pong_listeners (drainHandler \<sigma>) = pong_listeners \<sigma>" "connects (drainHandler \<sigma>) = connects \<sigma>"
  "sends (drainHandler \<sigma>) = sends \<sigma>" "disconnects (drainHandler \<sigma>) = disconnects \<sigma>"
  "transmissions (drainHandler \<sigma>) = transmissions \<sigma>" "calls (drainHandler \<sigma>) = calls \<sigma>"
  by (simp_all add: drainHandler_def Let_def ws_setTimeout_def)

lemma flush_frame [simp]:
  "ws (flush R b \<sigma>) = ws \<sigma>" "sendingQueue (flush R b \<sigma>) = sendingQueue \<sigma>" "conf (flush R b \<sigma>) = conf \<sigma>"
  "hearBeatHandle (flush R b \<sigma>) = hearBeatHandle \<sigma>" "table (flush R b \<sigma>) = table \<sigma>"
  "sockets (flush R b \<sigma>) = sockets \<sigma>" "length (queues (flush R b \<sigma>)) = length (queues \<sigma>)"
  "pong_listeners (flush R b \<sigma>) = pong_listeners \<sigma>" "connects (flush R b \<sigma>) = connects \<sigma>"
  "sends (flush R b \<sigma>) = sends \<sigma>" "disconnects (flush R b \<sigma>) = disconnects \<sigma>"
  "transmissions (flush R b \<sigma>) = transmissions \<sigma>" "calls (flush R b \<sigma>) = calls \<sigma>"
  by (simp_all add: flush_def split: option.splits)

section \<open>The listeners of the disconnect calls\<close>

text \<open>
  The resolving handler of every \<open>disconnect()\<close> stays on \<open>ON_CLOSED\<close>; its rejecting handler is on
  \<open>ON_ERROR\<close> exactly as long as its promise is pending.
\<close>

definition listener_inv :: "('q, 'm, 'r) ws_transport \<Rightarrow> bool" where
  "listener_inv \<sigma> \<longleftrightarrow>
     (\<forall>ev. \<forall>h \<in> set (handlers (table \<sigma>) ev). \<not> fst h) \<and>
     handlers (table \<sigma>) ON_CLOSED = map (\<lambda>d. (False, ResHandler d)) [0..<length (disconnects \<sigma>)] \<and>
     (\<forall>d. count_list (listeners ON_ERROR (table \<sigma>)) (ErrHandler d) =
        (if d < length (disconnects \<sigma>) \<and> disconnects \<sigma> ! d = Pending then 1 else 0)) \<and>
     (\<forall>ev d. ev \<noteq> ON_ERROR \<longrightarrow> ErrHandler d \<notin> set (listeners ev (table \<sigma>))) \<and>
     (\<forall>ev d. ev \<noteq> ON_CLOSED \<longrightarrow> ResHandler d \<notin> set (listeners ev (table \<sigma>)))"

lemmas event_names = ON_CONNECTING_def ON_MESSAGE_def ON_ERROR_def ON_CLOSED_def ON_CONNECTED_def

lemma handlers_removeListener:
  "handlers (removeListener ev f em) = (handlers em)(ev := rev (remove_first f (rev (handlers em ev))))"
  by (auto simp: removeListener_def fun_eq_iff)

lemma remove_first_subset: "set (remove_first f hs) \<subseteq> set hs"
  by (induction f hs rule: remove_first.induct) auto

lemma count_remove_first:
  "count_list (map snd (remove_first f hs)) g = count_list (map snd hs) g - (if g = f then 1 else 0)"
  by (induction f hs rule: remove_first.induct) auto

lemma count_removed:
  "count_list (map snd (rev (remove_first f (rev hs)))) g = count_list (map snd hs) g - (if g = f then 1 else 0)"
  using count_remove_first [of f "rev hs" g] by (simp add: rev_map [symmetric])

lemma remove_absent: "f \<notin> snd ` set hs \<Longrightarrow> remove_first f hs = hs"
  by (induction f hs rule: remove_first.induct) auto

lemma cleanup_handlers:
  assumes "listener_inv \<sigma>"
  shows "handlers (table (cleanup d \<sigma>)) =
    (handlers (table \<sigma>))(ON_ERROR := rev (remove_first (ErrHandler d) (rev (handlers (table \<sigma>) ON_ERROR))))"
proof -
  have "ResHandler d \<notin> set (listeners ON_CONNECTED (table \<sigma>))"
    using assms by (auto simp: listener_inv_def event_names)
  then have "remove_first (ResHandler d) (rev (handlers (table \<sigma>) ON_CONNECTED)) = rev (handlers (table \<sigma>) ON_CONNECTED)"
    by (intro remove_absent) (simp add: listeners_def)
  then show ?thesis
    by (simp add: cleanup_def handlers_removeListener event_names fun_eq_iff)
qed

lemma settle_first_nth:
  "d < length ps \<Longrightarrow> settle_first n v ps ! d = (if d = n \<and> ps ! d = Pending then v else ps ! d)"
  by (auto simp: settle_first_def nth_list_update)

lemma settle_first_length [simp]: "length (settle_first n v ps) = length ps"
  by (simp add: settle_first_def)

text \<open>Settling a disconnect and cleaning up after it.\<close>

lemma listener_inv_settled:
  assumes inv: "listener_inv \<sigma>" and "v \<noteq> Pending"
  shows "listener_inv ((cleanup d \<sigma>)\<lparr>disconnects := settle_first d v (disconnects \<sigma>)\<rparr>)"
proof -
  let ?hs = "handlers (table \<sigma>)"
  let ?new = "rev (remove_first (ErrHandler d) (rev (?hs ON_ERROR)))"
  have sub: "set ?new \<subseteq> set (?hs ON_ERROR)" using remove_first_subset [of _ "rev (?hs ON_ERROR)"] by auto
  have ne: "ON_CLOSED \<noteq> ON_ERROR" "ON_ERROR \<noteq> ON_CLOSED" by (simp_all add: event_names)
  have cnt: "count_list (map snd ?new) (ErrHandler e) = (if e < length (disconnects \<sigma>)
      \<and> settle_first d v (disconnects \<sigma>) ! e = Pending then 1 else 0)" for e
    using inv assms(2) count_removed [of "ErrHandler d" "?hs ON_ERROR" "ErrHandler e"]
    by (auto simp: listener_inv_def listeners_def settle_first_nth)
  have "set (map snd ?new) \<subseteq> set (listeners ON_ERROR (table \<sigma>))"
    using sub by (auto simp: listeners_def)
  moreover have "ResHandler e \<notin> set (listeners ON_ERROR (table \<sigma>))" for e
    using inv ne(2) unfolding listener_inv_def by blast
  ultimately have res: "ResHandler e \<notin> snd ` set ?new" for e
    by (metis list.set_map subsetD)
  have perm: "\<not> fst h" if "h \<in> set ?new" for h
  proof -
    have "h \<in> set (?hs ON_ERROR)" using sub that by blast
    then show ?thesis using inv unfolding listener_inv_def by blast
  qed
  let ?\<sigma> = "(cleanup d \<sigma>)\<lparr>disconnects := settle_first d v (disconnects \<sigma>)\<rparr>"
  have hs: "handlers (table ?\<sigma>) ON_ERROR = ?new"
    "\<And>ev. ev \<noteq> ON_ERROR \<Longrightarrow> handlers (table ?\<sigma>) ev = ?hs ev"
    by (simp_all add: cleanup_handlers [OF inv])
  show ?thesis
    unfolding listener_inv_def
  proof (intro conjI allI ballI impI)
    show "\<not> fst h" if "h \<in> set (handlers (table ?\<sigma>) ev)" for ev h
      using that perm hs inv unfolding listener_inv_def by metis
    show "handlers (table ?\<sigma>) ON_CLOSED = map (\<lambda>d. (False, ResHandler d)) [0..<length (disconnects ?\<sigma>)]"
      using hs(2) [OF ne(1)] inv by (simp add: listener_inv_def)
    show "count_list (listeners ON_ERROR (table ?\<sigma>)) (ErrHandler e) =
        (if e < length (disconnects ?\<sigma>) \<and> disconnects ?\<sigma> ! e = Pending then 1 else 0)" for e
      using cnt [of e] by (simp only: listeners_def hs(1)) simp
    show "ErrHandler e \<notin> set (listeners ev (table ?\<sigma>))" if "ev \<noteq> ON_ERROR" for ev e
      using inv that unfolding listener_inv_def listeners_def hs(2) [OF that] by blast
    show "ResHandler e \<notin> set (listeners ev (table ?\<sigma>))" if "ev \<noteq> ON_CLOSED" for ev e
    proof (cases "ev = ON_ERROR")
      case True
      then show ?thesis using res [of e] unfolding listeners_def True hs(1) by simp
    next
      case False
      show ?thesis using inv that unfolding listener_inv_def listeners_def hs(2) [OF False] by blast
    qed
  qed
qed

lemma invoke_listener_inv:
  assumes "listener_inv \<sigma>" and "\<And>d. l = ErrHandler d \<Longrightarrow> \<exists>e. p = Failure e"
  shows "listener_inv (invoke p l \<sigma>)"
proof (cases l)
  case (ErrHandler d)
  with assms(2) obtain e where "p = Failure e" by blast
  then show ?thesis using listener_inv_settled [OF assms(1), of "Rejected_with e"] ErrHandler by simp
next
  case (ResHandler d)
  then show ?thesis using listener_inv_settled [OF assms(1), of Resolved] by simp
qed (use assms(1) in \<open>cases p; simp add: listener_inv_def\<close>)+

lemma fold_invoke_listener_inv:
  "listener_inv \<sigma> \<Longrightarrow> (\<And>d. ErrHandler d \<in> set ls \<Longrightarrow> \<exists>e. p = Failure e) \<Longrightarrow>
     listener_inv (fold (invoke p) ls \<sigma>)"
proof (induction ls arbitrary: \<sigma>)
  case (Cons l ls)
  have "listener_inv (invoke p l \<sigma>)" by (rule invoke_listener_inv) (use Cons.prems in auto)
  moreover have "\<exists>e. p = Failure e" if "ErrHandler d \<in> set ls" for d
    using Cons.prems(2) [of d] that by simp
  ultimately show ?case using Cons.IH by simp
qed simp

text \<open>An emission calls the listeners of its event and leaves the table to them.\<close>

lemma emit_event_eq:
  assumes "listener_inv \<sigma>" and "ev \<noteq> ''error''"
  shows "emit_event ev p \<sigma> = fold (invoke p) (listeners ev (table \<sigma>)) \<sigma>"
proof (cases "handlers (table \<sigma>) ev = []")
  case True
  then show ?thesis using assms(2) by (simp add: emit_event_def emit_def Let_def listeners_def)
next
  case False
  have "\<forall>h \<in> set (handlers (table \<sigma>) ev). \<not> fst h" using assms(1) by (simp add: listener_inv_def)
  from emit_permanent [OF False this] show ?thesis by (simp add: emit_event_def)
qed

lemma event_names_ok [simp]:
  "ON_CONNECTING \<noteq> ''error''" "ON_MESSAGE \<noteq> ''error''" "ON_ERROR \<noteq> ''error''" "ON_CLOSED \<noteq> ''error''"
  "ON_CONNECTED \<noteq> ''error''"
  by (simp_all add: event_names)

lemma emit_listener_inv:
  assumes inv: "listener_inv \<sigma>" and "ev \<noteq> ''error''" and "ev = ON_ERROR \<Longrightarrow> \<exists>e. p = Failure e"
  shows "listener_inv (emit_event ev p \<sigma>)"
  unfolding emit_event_eq [OF inv assms(2)]
proof (rule fold_invoke_listener_inv [OF inv])
  fix d
  assume "ErrHandler d \<in> set (listeners ev (table \<sigma>))"
  then have "ev = ON_ERROR" using inv unfolding listener_inv_def by blast
  then show "\<exists>e. p = Failure e" by (rule assms(3))
qed

text \<open>When a connection closes, every pending \<open>disconnect()\<close> resolves.\<close>

lemma fold_res_disconnects:
  "disconnects (fold (invoke No_payload) (map ResHandler ds) \<sigma>) =
     fold (\<lambda>d. settle_first d Resolved) ds (disconnects \<sigma>)"
  by (induction ds arbitrary: \<sigma>) simp_all

lemma fold_settle_first:
  "e < length ps \<Longrightarrow> v \<noteq> Pending \<Longrightarrow> fold (\<lambda>d. settle_first d v) ds ps ! e =
     (if ps ! e = Pending \<and> e \<in> set ds then v else ps ! e)"
  by (induction ds arbitrary: ps) (auto simp: settle_first_nth)

lemma closed_disconnects:
  assumes "listener_inv \<sigma>"
  shows "disconnects (emit_event ON_CLOSED No_payload \<sigma>) =
    map (\<lambda>v. if v = Pending then Resolved else v) (disconnects \<sigma>)"
proof -
  have "listeners ON_CLOSED (table \<sigma>) = map ResHandler [0..<length (disconnects \<sigma>)]"
    using assms by (simp add: listener_inv_def listeners_def comp_def)
  then have e: "disconnects (emit_event ON_CLOSED No_payload \<sigma>) =
      fold (\<lambda>d. settle_first d Resolved) [0..<length (disconnects \<sigma>)] (disconnects \<sigma>)"
    by (simp add: emit_event_eq [OF assms] fold_res_disconnects)
  have len: "length (fold (\<lambda>d. settle_first d Resolved) ds ps) = length ps" for ds ps
    by (induction ds arbitrary: ps) simp_all
  show ?thesis
    unfolding e by (rule nth_equalityI) (auto simp: len fold_settle_first)
qed

section \<open>Disconnecting\<close>

lemma pause_frame [simp]:
  "listener_inv (pause R \<sigma>) = listener_inv \<sigma>" "listener_inv (resume_queue R \<sigma>) = listener_inv \<sigma>"
  "listener_inv (on_queue f \<sigma>) = listener_inv \<sigma>" "listener_inv (clearBeat \<sigma>) = listener_inv \<sigma>"
  "listener_inv (clearDrain \<sigma>) = listener_inv \<sigma>" "listener_inv (drainHandler \<sigma>) = listener_inv \<sigma>"
  "listener_inv (flush R b \<sigma>) = listener_inv \<sigma>"
  by (simp_all add: pause_def resume_queue_def listener_inv_def)

text \<open>The state of a \<open>disconnect()\<close> once its promise has been made and its listeners are registered.\<close>

definition registered :: "('q, 'm, 'r) ws_transport \<Rightarrow> ('q, 'm, 'r) ws_transport" where
  "registered \<sigma> = (remove_references \<sigma>)\<lparr>disconnects := disconnects \<sigma> @ [Pending],
     table := on ON_ERROR (ErrHandler (length (disconnects \<sigma>)))
       (on ON_CLOSED (ResHandler (length (disconnects \<sigma>))) (table \<sigma>))\<rparr>"

lemma remove_references_frame [simp]:
  "ws (remove_references \<sigma>) = None" "sendingQueue (remove_references \<sigma>) = None"
  "conf (remove_references \<sigma>) = None" "drainTimeoutHandle (remove_references \<sigma>) = None"
  "hearBeatHandle (remove_references \<sigma>) = None" "table (remove_references \<sigma>) = table \<sigma>"
  "sockets (remove_references \<sigma>) = sockets \<sigma>" "queues (remove_references \<sigma>) = queues \<sigma>"
  "pong_listeners (remove_references \<sigma>) = pong_listeners \<sigma>" "connects (remove_references \<sigma>) = connects \<sigma>"
  "sends (remove_references \<sigma>) = sends \<sigma>" "disconnects (remove_references \<sigma>) = disconnects \<sigma>"
  "transmissions (remove_references \<sigma>) = transmissions \<sigma>" "calls (remove_references \<sigma>) = calls \<sigma>"
  by (simp_all add: remove_references_def)

lemma registered_frame [simp]:
  "ws (registered \<sigma>) = None" "sendingQueue (registered \<sigma>) = None" "conf (registered \<sigma>) = None"
  "drainTimeoutHandle (registered \<sigma>) = None" "hearBeatHandle (registered \<sigma>) = None"
  "sockets (registered \<sigma>) = sockets \<sigma>" "queues (registered \<sigma>) = queues \<sigma>"
  "pong_listeners (registered \<sigma>) = pong_listeners \<sigma>" "connects (registered \<sigma>) = connects \<sigma>"
  "sends (registered \<sigma>) = sends \<sigma>" "disconnects (registered \<sigma>) = disconnects \<sigma> @ [Pending]"
  "transmissions (registered \<sigma>) = transmissions \<sigma>" "calls (registered \<sigma>) = calls \<sigma>"
  "timers (registered \<sigma>) = timers (remove_references \<sigma>)"
  by (simp_all add: registered_def)

lemma disconnect_eq:
  "disconnect R b \<sigma> =
     (let \<sigma>' = registered (flush R b \<sigma>)
      in case ws \<sigma> of
           Some n \<Rightarrow> if readyState (sockets \<sigma> ! n) \<noteq> CLOSED then \<sigma>'\<lparr>calls := calls \<sigma> @ [Close n]\<rparr>
                     else onClosedHandler R \<sigma>'
         | None \<Rightarrow> onClosedHandler R \<sigma>')"
  by (simp add: disconnect_def registered_def Let_def split: option.splits)

lemma on_listeners: "listeners ev (on ev' f em) = (if ev = ev' then listeners ev em @ [f] else listeners ev em)"
  by (simp add: listeners_def ee.hs_on)

lemma listener_inv_registered:
  assumes inv: "listener_inv \<sigma>"
  shows "listener_inv (registered \<sigma>)"
proof -
  let ?n = "length (disconnects \<sigma>)" and ?em = "table (registered \<sigma>)"
  have ne: "ON_CLOSED \<noteq> ON_ERROR" "ON_ERROR \<noteq> ON_CLOSED" by (simp_all add: event_names)
  have hs: "handlers ?em = (handlers (table \<sigma>))
      (ON_CLOSED := handlers (table \<sigma>) ON_CLOSED @ [(False, ResHandler ?n)],
       ON_ERROR := handlers (table \<sigma>) ON_ERROR @ [(False, ErrHandler ?n)])"
    using ne by (simp add: registered_def ee.hs_on fun_eq_iff)
  have ls: "listeners ev ?em = (if ev = ON_ERROR then listeners ev (table \<sigma>) @ [ErrHandler ?n]
      else if ev = ON_CLOSED then listeners ev (table \<sigma>) @ [ResHandler ?n] else listeners ev (table \<sigma>))" for ev
    using ne by (simp add: listeners_def hs)
  show ?thesis
    unfolding listener_inv_def
  proof (intro conjI allI ballI impI)
    show "\<not> fst h" if "h \<in> set (handlers ?em ev)" for ev h
      using that inv unfolding listener_inv_def hs by (auto split: if_splits)
    show "handlers ?em ON_CLOSED = map (\<lambda>d. (False, ResHandler d)) [0..<length (disconnects (registered \<sigma>))]"
      using inv ne by (simp add: listener_inv_def hs)
    show "count_list (listeners ON_ERROR ?em) (ErrHandler e) =
        (if e < length (disconnects (registered \<sigma>)) \<and> disconnects (registered \<sigma>) ! e = Pending then 1 else 0)" for e
      using inv by (auto simp: listener_inv_def ls nth_append)
    show "ErrHandler e \<notin> set (listeners ev ?em)" if "ev \<noteq> ON_ERROR" for ev e
    proof -
      have "ErrHandler e \<notin> set (listeners ev (table \<sigma>))" using inv that unfolding listener_inv_def by blast
      then show ?thesis using that by (auto simp: ls)
    qed
    show "ResHandler e \<notin> set (listeners ev ?em)" if "ev \<noteq> ON_CLOSED" for ev e
    proof -
      have "ResHandler e \<notin> set (listeners ev (table \<sigma>))" using inv that unfolding listener_inv_def by blast
      then show ?thesis using that by (auto simp: ls)
    qed
  qed
qed

lemma listener_inv_closed: "listener_inv \<sigma> \<Longrightarrow> listener_inv (onClosedHandler R \<sigma>)"
  unfolding onClosedHandler_def by (rule emit_listener_inv) (simp_all, simp add: event_names)

lemma listener_inv_error: "listener_inv \<sigma> \<Longrightarrow> listener_inv (onErrorHandler R e \<sigma>)"
  by (simp add: onErrorHandler_def emit_listener_inv)

text \<open>The invariant is about the table and the promises only.\<close>

lemma listener_inv_cong:
  "table \<sigma>' = table \<sigma> \<Longrightarrow> disconnects \<sigma>' = disconnects \<sigma> \<Longrightarrow> listener_inv \<sigma>' = listener_inv \<sigma>"
  by (simp add: listener_inv_def)

lemma listener_inv_calls [simp]: "listener_inv (\<sigma>\<lparr>calls := cs\<rparr>) = listener_inv \<sigma>"
  by (rule listener_inv_cong) simp_all

lemma listener_inv_disconnect: "listener_inv \<sigma> \<Longrightarrow> listener_inv (disconnect R b \<sigma>)"
  using listener_inv_closed [OF listener_inv_registered, of "flush R b \<sigma>"] listener_inv_registered [of "flush R b \<sigma>"]
  by (simp add: disconnect_eq Let_def listener_inv_calls split: option.splits)

lemma onClosedHandler_frame [simp]:
  "ws (onClosedHandler R \<sigma>) = ws \<sigma>" "sendingQueue (onClosedHandler R \<sigma>) = sendingQueue \<sigma>"
  "conf (onClosedHandler R \<sigma>) = conf \<sigma>" "drainTimeoutHandle (onClosedHandler R \<sigma>) = drainTimeoutHandle \<sigma>"
  "hearBeatHandle (onClosedHandler R \<sigma>) = None" "sockets (onClosedHandler R \<sigma>) = sockets \<sigma>"
  "length (queues (onClosedHandler R \<sigma>)) = length (queues \<sigma>)"
  "pong_listeners (onClosedHandler R \<sigma>) = pong_listeners \<sigma>" "connects (onClosedHandler R \<sigma>) = connects \<sigma>"
  "sends (onClosedHandler R \<sigma>) = sends \<sigma>" "transmissions (onClosedHandler R \<sigma>) = transmissions \<sigma>"
  "calls (onClosedHandler R \<sigma>) = calls \<sigma>"
  "length (disconnects (onClosedHandler R \<sigma>)) = length (disconnects \<sigma>)"
  "hearBeatHandle \<sigma> = None \<Longrightarrow> timers (onClosedHandler R \<sigma>) = timers \<sigma>"
  by (simp_all add: onClosedHandler_def pause_def)

lemma onErrorHandler_frame [simp]:
  "ws (onErrorHandler R e \<sigma>) = ws \<sigma>" "sendingQueue (onErrorHandler R e \<sigma>) = sendingQueue \<sigma>"
  "conf (onErrorHandler R e \<sigma>) = conf \<sigma>" "drainTimeoutHandle (onErrorHandler R e \<sigma>) = drainTimeoutHandle \<sigma>"
  "hearBeatHandle (onErrorHandler R e \<sigma>) = None" "sockets (onErrorHandler R e \<sigma>) = sockets \<sigma>"
  "length (queues (onErrorHandler R e \<sigma>)) = length (queues \<sigma>)"
  "pong_listeners (onErrorHandler R e \<sigma>) = pong_listeners \<sigma>" "connects (onErrorHandler R e \<sigma>) = connects \<sigma>"
  "sends (onErrorHandler R e \<sigma>) = sends \<sigma>" "transmissions (onErrorHandler R e \<sigma>) = transmissions \<sigma>"
  "calls (onErrorHandler R e \<sigma>) = calls \<sigma>"
  "length (disconnects (onErrorHandler R e \<sigma>)) = length (disconnects \<sigma>)"
  "hearBeatHandle \<sigma> = None \<Longrightarrow> timers (onErrorHandler R e \<sigma>) = timers \<sigma>"
  by (simp_all add: onErrorHandler_def pause_def)

lemma disconnect_frame [simp]:
  "ws (disconnect R b \<sigma>) = None" "sendingQueue (disconnect R b \<sigma>) = None" "conf (disconnect R b \<sigma>) = None"
  "drainTimeoutHandle (disconnect R b \<sigma>) = None" "hearBeatHandle (disconnect R b \<sigma>) = None"
  "sockets (disconnect R b \<sigma>) = sockets \<sigma>" "length (queues (disconnect R b \<sigma>)) = length (queues \<sigma>)"
  "pong_listeners (disconnect R b \<sigma>) = pong_listeners \<sigma>" "connects (disconnect R b \<sigma>) = connects \<sigma>"
  "sends (disconnect R b \<sigma>) = sends \<sigma>" "transmissions (disconnect R b \<sigma>) = transmissions \<sigma>"
  "length (disconnects (disconnect R b \<sigma>)) = Suc (length (disconnects \<sigma>))"
  by (simp_all add: disconnect_eq Let_def split: option.splits)

section \<open>References and timers\<close>

text \<open>Every reference is to something that exists; the heartbeat is not running.\<close>

definition reference_inv :: "('q, 'm, 'r) ws_transport \<Rightarrow> bool" where
  "reference_inv \<sigma> \<longleftrightarrow>
     (\<forall>n. ws \<sigma> = Some n \<longrightarrow> n < length (sockets \<sigma>)) \<and>
     (\<forall>i. sendingQueue \<sigma> = Some i \<longrightarrow> i < length (queues \<sigma>)) \<and>
     (\<forall>t \<in> set (transmissions \<sigma>). \<forall>r. tr_state t = Polling r \<longrightarrow> tr_socket t < length (sockets \<sigma>)) \<and>
     (\<forall>d f opts. Awaiting d f opts \<in> set (connects \<sigma>) \<longrightarrow> d < length (disconnects \<sigma>)) \<and>
     (\<forall>s \<in> set (sockets \<sigma>). opened_by s < length (connects \<sigma>))"

definition no_heartbeat :: "('q, 'm, 'r) ws_transport \<Rightarrow> bool" where
  "no_heartbeat \<sigma> \<longleftrightarrow> hearBeatHandle \<sigma> = None \<and> pong_listeners \<sigma> = [] \<and> (\<forall>n. Ping n \<notin> set (calls \<sigma>))"

text \<open>The armed timers: at most the drain timer, the one \<open>disconnect()\<close> clears. While a timer that has
  fired is served, its handle is still stored.\<close>

definition timers_held :: "('q, 'm, 'r) ws_transport \<Rightarrow> bool" where
  "timers_held \<sigma> \<longleftrightarrow> timers \<sigma> = [] \<or> (\<exists>h. drainTimeoutHandle \<sigma> = Some h \<and> timers \<sigma> = [(h, Drain_timer)])"

definition timer_inv :: "('q, 'm, 'r) ws_transport \<Rightarrow> bool" where
  "timer_inv \<sigma> \<longleftrightarrow> no_heartbeat \<sigma> \<and>
     timers \<sigma> = (case drainTimeoutHandle \<sigma> of None \<Rightarrow> [] | Some h \<Rightarrow> [(h, Drain_timer)])"

lemma timer_inv_held: "timer_inv \<sigma> \<Longrightarrow> timers_held \<sigma>"
  by (auto simp: timer_inv_def timers_held_def split: option.splits)

lemma clearDrain_timers: "timers_held \<sigma> \<Longrightarrow> timers (clearDrain \<sigma>) = []"
  by (auto simp: timers_held_def clearDrain_def ws_clearTimeout_def del_def split: option.splits)

lemma drainHandler_timers:
  assumes "timers_held \<sigma>"
  shows "timers (drainHandler \<sigma>) = (case drainTimeoutHandle (drainHandler \<sigma>) of None \<Rightarrow> [] | Some h \<Rightarrow> [(h, Drain_timer)])"
  using clearDrain_timers [OF assms] by (simp add: drainHandler_def Let_def ws_setTimeout_def)

lemma drainHandler_inv: "timer_inv \<sigma> \<Longrightarrow> timer_inv (drainHandler \<sigma>)"
  using drainHandler_timers [OF timer_inv_held, of \<sigma>] by (simp add: timer_inv_def no_heartbeat_def)

lemma flush_held: "timers_held \<sigma> \<Longrightarrow> timers_held (flush R b \<sigma>)"
  using drainHandler_timers [of \<sigma>] by (auto simp: flush_def timers_held_def split: option.splits)

lemma disconnect_timers:
  assumes "timers_held \<sigma>" and "no_heartbeat \<sigma>"
  shows "timers (disconnect R b \<sigma>) = []" and "no_heartbeat (disconnect R b \<sigma>)"
proof -
  have "timers_held (clearBeat (flush R b \<sigma>))"
    using flush_held [OF assms(1), of R b] assms(2) by (simp add: timers_held_def no_heartbeat_def)
  then have "timers (registered (flush R b \<sigma>)) = []"
    using clearDrain_timers by (simp add: remove_references_def)
  then show "timers (disconnect R b \<sigma>) = []"
    by (simp add: disconnect_eq Let_def split: option.splits)
  show "no_heartbeat (disconnect R b \<sigma>)"
    using assms(2) by (auto simp: no_heartbeat_def disconnect_eq Let_def split: option.splits)
qed

lemma disconnect_inv: "timers_held \<sigma> \<Longrightarrow> no_heartbeat \<sigma> \<Longrightarrow> timer_inv (disconnect R b \<sigma>)"
  using disconnect_timers [of \<sigma> R b] by (simp add: timer_inv_def)

section \<open>Every step keeps the invariants\<close>

definition ws_inv :: "('q, 'm, 'r) ws_transport \<Rightarrow> bool" where
  "ws_inv \<sigma> \<longleftrightarrow> listener_inv \<sigma> \<and> reference_inv \<sigma> \<and> timer_inv \<sigma>"

lemma timer_inv_cong:
  "timers \<sigma>' = timers \<sigma> \<Longrightarrow> drainTimeoutHandle \<sigma>' = drainTimeoutHandle \<sigma> \<Longrightarrow> no_heartbeat \<sigma>' \<Longrightarrow>
     timer_inv \<sigma> \<Longrightarrow> timer_inv \<sigma>'"
  by (simp add: timer_inv_def)

lemma reference_inv_disconnect: "reference_inv \<sigma> \<Longrightarrow> reference_inv (disconnect R b \<sigma>)"
  by (auto simp: reference_inv_def less_SucI)

lemma ws_inv_new: "ws_inv new_transport"
  by (simp add: ws_inv_def listener_inv_def reference_inv_def timer_inv_def no_heartbeat_def
      new_transport_def listeners_def)

lemma awaiting_update:
  assumes "Awaiting d f opts \<in> set (cs[c := v])" and "\<And>d f opts. v \<noteq> Awaiting d f opts"
  shows "Awaiting d f opts \<in> set cs"
  using set_update_subset_insert [of cs c v] assms by blast

lemma reference_inv_connects:
  assumes "reference_inv \<sigma>" and "\<And>d f opts. v \<noteq> Awaiting d f opts"
  shows "reference_inv (\<sigma>\<lparr>connects := (connects \<sigma>)[c := v]\<rparr>)"
  using assms awaiting_update [OF _ assms(2), of _ _ _ "connects \<sigma>" c] by (simp add: reference_inv_def) blast

lemma listener_inv_connects [simp]: "listener_inv (\<sigma>\<lparr>connects := cs\<rparr>) = listener_inv \<sigma>"
  by (rule listener_inv_cong) simp_all

lemma timer_inv_connects [simp]: "timer_inv (\<sigma>\<lparr>connects := cs\<rparr>) = timer_inv \<sigma>"
  by (simp add: timer_inv_def no_heartbeat_def)

lemma ws_inv_open_socket:
  assumes "listener_inv \<sigma>" and "timer_inv \<sigma>" and "reference_inv \<sigma>" and c: "c < length (connects \<sigma>)"
  shows "ws_inv (open_socket R c f opts \<sigma>)"
proof (cases "ws_refuses R (endpoint f opts) (headers f opts)")
  case (Some e)
  then show ?thesis
    using assms reference_inv_connects [OF assms(3), of "Connect_failed e" c]
    by (simp add: ws_inv_def open_socket_def Let_def)
next
  case None
  define \<sigma>1 where "\<sigma>1 = \<sigma>\<lparr>ws := Some (length (sockets \<sigma>)),
      sockets := sockets \<sigma> @ [\<lparr>sock_url = endpoint f opts, sock_headers = headers f opts,
        readyState = CONNECTING, opened = False, opened_by = c\<rparr>],
      connects := (connects \<sigma>)[c := Opening (length (sockets \<sigma>))]\<rparr>"
  have e: "open_socket R c f opts \<sigma> = emit_event ON_CONNECTING No_payload \<sigma>1"
    using None by (simp add: open_socket_def Let_def \<sigma>1_def)
  have "listener_inv \<sigma>1" using assms(1) by (simp add: \<sigma>1_def listener_inv_def)
  then have l: "listener_inv (emit_event ON_CONNECTING No_payload \<sigma>1)"
    by (rule emit_listener_inv) (simp_all, simp add: event_names)
  have aw: "Awaiting d f' o' \<in> set ((connects \<sigma>)[c := Opening (length (sockets \<sigma>))]) \<Longrightarrow>
      Awaiting d f' o' \<in> set (connects \<sigma>)" for d f' o'
    by (erule awaiting_update) simp
  have r: "reference_inv (emit_event ON_CONNECTING No_payload \<sigma>1)"
    using assms(3) c by (auto simp: reference_inv_def \<sigma>1_def less_SucI dest!: aw; blast)
  have t: "timer_inv (emit_event ON_CONNECTING No_payload \<sigma>1)"
    using assms(2) by (simp add: timer_inv_def no_heartbeat_def \<sigma>1_def)
  show ?thesis using e l r t by (simp add: ws_inv_def)
qed

lemma ws_inv_connect:
  assumes "ws_inv \<sigma>"
  shows "ws_inv (connect R config opts \<sigma>)"
proof -
  define \<sigma>1 where "\<sigma>1 = \<sigma>\<lparr>conf := Some (adjustConfByConnectionStrategy config),
      sendingQueue := Some (length (queues \<sigma>)), queues := queues \<sigma> @ [aq_create R]\<rparr>"
  have inv: "listener_inv \<sigma>1" "timer_inv \<sigma>1" "reference_inv \<sigma>1"
    using assms by (auto simp: ws_inv_def \<sigma>1_def listener_inv_def timer_inv_def no_heartbeat_def reference_inv_def)
  show ?thesis
  proof (cases "isConnected \<sigma>1")
    case True
    let ?\<sigma>2 = "disconnect R True \<sigma>1"
    have e: "connect R config opts \<sigma> = ?\<sigma>2\<lparr>connects := connects ?\<sigma>2 @
        [Awaiting (length (disconnects ?\<sigma>2) - 1) (connectionFactory config) opts]\<rparr>"
      using True by (simp add: connect_def Let_def \<sigma>1_def)
    have "listener_inv ?\<sigma>2" by (rule listener_inv_disconnect [OF inv(1)])
    moreover have "timer_inv ?\<sigma>2"
      using inv(2) by (intro disconnect_inv timer_inv_held) (simp_all add: timer_inv_def)
    moreover have "reference_inv ?\<sigma>2" by (rule reference_inv_disconnect [OF inv(3)])
    ultimately have "listener_inv ?\<sigma>2" "timer_inv ?\<sigma>2" "reference_inv ?\<sigma>2" .
    then show ?thesis
      unfolding e
      by (auto simp: ws_inv_def listener_inv_def timer_inv_def no_heartbeat_def reference_inv_def less_SucI)
  next
    case False
    have e: "connect R config opts \<sigma> = open_socket R (length (connects \<sigma>1)) (connectionFactory config) opts
        (\<sigma>1\<lparr>connects := connects \<sigma>1 @ [Opening 0]\<rparr>)"
      using False by (simp add: connect_def Let_def \<sigma>1_def)
    show ?thesis
      unfolding e
      by (rule ws_inv_open_socket)
         (use inv in \<open>auto simp: listener_inv_def timer_inv_def no_heartbeat_def reference_inv_def less_SucI\<close>)
  qed
qed

text \<open>Changes of the parts the first two invariants do not speak about.\<close>

lemma ws_inv_cong:
  assumes "ws_inv \<sigma>" and "table \<sigma>' = table \<sigma>" and "disconnects \<sigma>' = disconnects \<sigma>"
    and "timers \<sigma>' = timers \<sigma>" and "drainTimeoutHandle \<sigma>' = drainTimeoutHandle \<sigma>"
    and "no_heartbeat \<sigma> \<Longrightarrow> no_heartbeat \<sigma>'" and "reference_inv \<sigma> \<Longrightarrow> reference_inv \<sigma>'"
  shows "ws_inv \<sigma>'"
  using assms listener_inv_cong [OF assms(2,3)] by (simp add: ws_inv_def timer_inv_def)

lemma reference_inv_queues:
  "reference_inv \<sigma> \<Longrightarrow> reference_inv (on_queue f \<sigma>)"
  by (simp add: reference_inv_def)

lemma ws_inv_on_queue: "ws_inv \<sigma> \<Longrightarrow> ws_inv (on_queue f \<sigma>)"
  by (erule ws_inv_cong)
     (simp_all add: no_heartbeat_def reference_inv_def)

lemma ws_inv_sends: "ws_inv \<sigma> \<Longrightarrow> ws_inv (\<sigma>\<lparr>sends := ps\<rparr>)"
  by (erule ws_inv_cong) (simp_all add: no_heartbeat_def reference_inv_def)

lemma reference_inv_transmission:
  assumes "reference_inv \<sigma>" and "\<And>r. st = Polling r \<Longrightarrow> k < length (transmissions \<sigma>) \<Longrightarrow>
      tr_socket (transmissions \<sigma> ! k) < length (sockets \<sigma>)"
  shows "reference_inv (set_transmission k st \<sigma>)"
proof (cases "k < length (transmissions \<sigma>)")
  case True
  then have "set (transmissions (set_transmission k st \<sigma>)) \<subseteq>
      insert ((transmissions \<sigma> ! k)\<lparr>tr_state := st\<rparr>) (set (transmissions \<sigma>))"
    by (simp add: set_transmission_def set_update_subset_insert)
  then have "tr_socket t < length (sockets \<sigma>)"
    if "t \<in> set (transmissions (set_transmission k st \<sigma>))" "tr_state t = Polling r" for t r
    using that assms True unfolding reference_inv_def by auto
  then show ?thesis using assms(1) by (simp add: reference_inv_def set_transmission_def)
next
  case False
  then have "set_transmission k st \<sigma> = \<sigma>" by (simp add: set_transmission_def list_update_beyond)
  then show ?thesis using assms(1) by simp
qed

lemma set_transmission_frame [simp]:
  "ws (set_transmission k st \<sigma>) = ws \<sigma>" "sendingQueue (set_transmission k st \<sigma>) = sendingQueue \<sigma>"
  "conf (set_transmission k st \<sigma>) = conf \<sigma>" "drainTimeoutHandle (set_transmission k st \<sigma>) = drainTimeoutHandle \<sigma>"
  "hearBeatHandle (set_transmission k st \<sigma>) = hearBeatHandle \<sigma>" "table (set_transmission k st \<sigma>) = table \<sigma>"
  "sockets (set_transmission k st \<sigma>) = sockets \<sigma>" "queues (set_transmission k st \<sigma>) = queues \<sigma>"
  "timers (set_transmission k st \<sigma>) = timers \<sigma>" "pong_listeners (set_transmission k st \<sigma>) = pong_listeners \<sigma>"
  "connects (set_transmission k st \<sigma>) = connects \<sigma>" "disconnects (set_transmission k st \<sigma>) = disconnects \<sigma>"
  "sends (set_transmission k st \<sigma>) = sends \<sigma>" "calls (set_transmission k st \<sigma>) = calls \<sigma>"
  "length (transmissions (set_transmission k st \<sigma>)) = length (transmissions \<sigma>)"
  by (simp_all add: set_transmission_def)

lemma ws_inv_transmission:
  assumes "ws_inv \<sigma>" and "\<And>r. st = Polling r \<Longrightarrow> k < length (transmissions \<sigma>) \<Longrightarrow>
      tr_socket (transmissions \<sigma> ! k) < length (sockets \<sigma>)"
  shows "ws_inv (set_transmission k st \<sigma>)"
  by (rule ws_inv_cong [OF assms(1)])
     (use reference_inv_transmission [OF _ assms(2)] in \<open>simp_all add: no_heartbeat_def\<close>)

lemma ws_inv_socket_waited:
  assumes "ws_inv \<sigma>"
  shows "ws_inv (socket_waited R k err \<sigma>)"
proof (cases err)
  case (Some e)
  then show ?thesis
    using assms by (auto simp: socket_waited_def Let_def intro!: ws_inv_transmission ws_inv_on_queue split: option.splits)
next
  case None
  have "ws_inv (set_transmission k Sending \<sigma>)" by (rule ws_inv_transmission [OF assms]) simp
  then have "ws_inv ((set_transmission k Sending \<sigma>)\<lparr>calls := calls \<sigma> @ [Transmit n m]\<rparr>)" for n m
    by (rule ws_inv_cong) (simp_all add: no_heartbeat_def reference_inv_def)
  then show ?thesis
    using None assms by (auto simp: socket_waited_def Let_def intro!: ws_inv_transmission split: option.splits)
qed

lemma ws_inv_wait:
  assumes "ws_inv \<sigma>" and "k < length (transmissions \<sigma>) \<Longrightarrow> tr_socket (transmissions \<sigma> ! k) < length (sockets \<sigma>)"
  shows "ws_inv (waitForSocketConnection R k r \<sigma>)"
  using assms by (auto simp: waitForSocketConnection_def intro!: ws_inv_socket_waited ws_inv_transmission)

lemma ws_inv_transmit:
  assumes "ws_inv \<sigma>"
  shows "ws_inv (transmit R m \<sigma>)"
proof (cases "ws \<sigma>")
  case None
  then show ?thesis
    using assms by (simp add: transmit_def Let_def)
      (erule ws_inv_cong; auto simp: no_heartbeat_def reference_inv_def)
next
  case (Some n)
  let ?\<sigma>1 = "\<sigma>\<lparr>transmissions := transmissions \<sigma> @ [\<lparr>tr_message = m, tr_socket = n, tr_state = Sending\<rparr>]\<rparr>"
  have n: "n < length (sockets \<sigma>)" using assms Some by (simp add: ws_inv_def reference_inv_def)
  have "ws_inv ?\<sigma>1"
    by (rule ws_inv_cong [OF assms]) (auto simp: no_heartbeat_def reference_inv_def)
  then have "ws_inv (waitForSocketConnection R (length (transmissions \<sigma>)) (retries_in_use \<sigma>) ?\<sigma>1)"
    by (rule ws_inv_wait) (simp add: n)
  then show ?thesis using Some by (simp add: transmit_def Let_def)
qed

text \<open>The emissions.\<close>

lemma ws_inv_emit:
  assumes "ws_inv \<sigma>" and "ev \<noteq> ''error''" and "ev = ON_ERROR \<Longrightarrow> \<exists>e. p = Failure e"
  shows "ws_inv (emit_event ev p \<sigma>)"
  using assms emit_listener_inv [of \<sigma> ev p]
  by (simp add: ws_inv_def reference_inv_def timer_inv_def no_heartbeat_def)

lemma ws_inv_closed: "ws_inv \<sigma> \<Longrightarrow> ws_inv (onClosedHandler R \<sigma>)"
  by (simp add: ws_inv_def listener_inv_closed reference_inv_def timer_inv_def no_heartbeat_def)

lemma ws_inv_error: "ws_inv \<sigma> \<Longrightarrow> ws_inv (onErrorHandler R e \<sigma>)"
  by (simp add: ws_inv_def listener_inv_error reference_inv_def timer_inv_def no_heartbeat_def)

lemma ws_inv_connected: "ws_inv \<sigma> \<Longrightarrow> ws_inv (onConnectedHandler R \<sigma>)"
  unfolding onConnectedHandler_def resume_queue_def
  by (intro ws_inv_on_queue ws_inv_emit) (simp_all, simp add: event_names)

lemma ws_inv_connects:
  "ws_inv \<sigma> \<Longrightarrow> (\<And>d f opts. v = Awaiting d f opts \<Longrightarrow> v = connects \<sigma> ! c) \<Longrightarrow>
     ws_inv (\<sigma>\<lparr>connects := (connects \<sigma>)[c := v]\<rparr>)"
proof -
  assume inv: "ws_inv \<sigma>" and v: "\<And>d f opts. v = Awaiting d f opts \<Longrightarrow> v = connects \<sigma> ! c"
  show ?thesis
  proof (cases "\<exists>d f opts. v = Awaiting d f opts")
    case True
    then have "(connects \<sigma>)[c := v] = connects \<sigma>" using v by (metis list_update_id)
    then show ?thesis using inv by (simp add: ws_inv_def reference_inv_def)
  next
    case False
    then have "reference_inv (\<sigma>\<lparr>connects := (connects \<sigma>)[c := v]\<rparr>)"
      using inv by (intro reference_inv_connects) (auto simp: ws_inv_def)
    then show ?thesis using inv by (simp add: ws_inv_def)
  qed
qed

lemma ws_inv_socket:
  assumes "ws_inv \<sigma>" and "n < length (sockets \<sigma>)" and "opened_by s = opened_by (sockets \<sigma> ! n)"
  shows "ws_inv (\<sigma>\<lparr>sockets := (sockets \<sigma>)[n := s]\<rparr>)"
proof (rule ws_inv_cong [OF assms(1)])
  assume inv: "reference_inv \<sigma>"
  have "opened_by t < length (connects \<sigma>)" if "t \<in> set ((sockets \<sigma>)[n := s])" for t
    using that inv assms(2,3) set_update_subset_insert [of "sockets \<sigma>" n s] unfolding reference_inv_def
    by (metis insertE nth_mem subsetD)
  then show "reference_inv (\<sigma>\<lparr>sockets := (sockets \<sigma>)[n := s]\<rparr>)"
    using inv by (simp add: reference_inv_def)
qed (simp_all add: no_heartbeat_def)

lemma ws_inv_in_state: "ws_inv \<sigma> \<Longrightarrow> n < length (sockets \<sigma>) \<Longrightarrow> ws_inv (in_state n st \<sigma>)"
  unfolding in_state_def by (rule ws_inv_socket) simp_all

lemma onConnectedHandler_frame [simp]:
  "sockets (onConnectedHandler R \<sigma>) = sockets \<sigma>" "connects (onConnectedHandler R \<sigma>) = connects \<sigma>"
  "ws (onConnectedHandler R \<sigma>) = ws \<sigma>" "sendingQueue (onConnectedHandler R \<sigma>) = sendingQueue \<sigma>"
  "conf (onConnectedHandler R \<sigma>) = conf \<sigma>" "transmissions (onConnectedHandler R \<sigma>) = transmissions \<sigma>"
  "sends (onConnectedHandler R \<sigma>) = sends \<sigma>" "calls (onConnectedHandler R \<sigma>) = calls \<sigma>"
  by (simp_all add: onConnectedHandler_def resume_queue_def)

lemma ws_inv_open:
  assumes "ws_inv \<sigma>" and "n < length (sockets \<sigma>)"
  shows "ws_inv (ws_open R n \<sigma>)"
proof -
  define \<sigma>1 where "\<sigma>1 = onConnectedHandler R \<sigma>"
  let ?\<sigma>2 = "\<sigma>1\<lparr>sockets := (sockets \<sigma>1)[n := (sockets \<sigma>1 ! n)\<lparr>opened := True\<rparr>]\<rparr>"
  let ?c = "opened_by (sockets \<sigma>1 ! n)"
  have "ws_inv ?\<sigma>2"
    unfolding \<sigma>1_def by (rule ws_inv_socket [OF ws_inv_connected [OF assms(1)]]) (use assms(2) in simp_all)
  then have "ws_inv (?\<sigma>2\<lparr>connects := (connects ?\<sigma>2)[?c :=
      (if connects \<sigma>1 ! ?c = Opening n then Connect_done else connects \<sigma>1 ! ?c)]\<rparr>)"
    by (rule ws_inv_connects) (simp split: if_splits)
  then show ?thesis unfolding ws_open_def Let_def \<sigma>1_def [symmetric] by simp
qed

lemma ws_inv_ws_error: "ws_inv \<sigma> \<Longrightarrow> ws_inv (ws_error R n e \<sigma>)"
  using ws_inv_connects [OF ws_inv_error, of \<sigma> "Connect_failed e"] ws_inv_error [of \<sigma> R e]
  by (simp add: ws_error_def Let_def)

lemma ws_inv_continue:
  assumes "ws_inv \<sigma>" and "continue_connect R c \<sigma> = Some \<sigma>'"
  shows "ws_inv \<sigma>'"
proof -
  obtain d f opts where c: "c < length (connects \<sigma>)" "connects \<sigma> ! c = Awaiting d f opts"
    using assms(2) by (auto simp: continue_connect_def split: if_splits connecting.splits)
  show ?thesis
  proof (cases "disconnects \<sigma> ! d")
    case Resolved
    then have "\<sigma>' = open_socket R c f opts \<sigma>" using assms(2) c by (simp add: continue_connect_def)
    then show ?thesis using assms(1) c ws_inv_open_socket [of \<sigma> c R f opts] by (simp add: ws_inv_def)
  next
    case (Rejected_with e)
    then have "\<sigma>' = \<sigma>\<lparr>connects := (connects \<sigma>)[c := Connect_failed e]\<rparr>"
      using assms(2) c by (simp add: continue_connect_def)
    then show ?thesis using ws_inv_connects [OF assms(1), of "Connect_failed e" c] by simp
  qed (use assms(2) c in \<open>simp add: continue_connect_def\<close>)
qed

lemma ws_inv_fired:
  assumes "ws_inv \<sigma>" and "map_of (timers \<sigma>) h = Some t"
  shows "ws_inv (fire_timer R t (\<sigma>\<lparr>timers := del h (timers \<sigma>)\<rparr>))"
proof -
  have t: "t = Drain_timer" "timers \<sigma> = [(h, Drain_timer)]"
    using assms by (auto simp: ws_inv_def timer_inv_def split: option.splits if_splits)
  let ?\<sigma>1 = "\<sigma>\<lparr>timers := del h (timers \<sigma>)\<rparr>"
  have "listener_inv (disconnect R True ?\<sigma>1)"
    using assms(1) by (intro listener_inv_disconnect) (simp add: ws_inv_def listener_inv_def)
  moreover have "reference_inv (disconnect R True ?\<sigma>1)"
    using assms(1) by (intro reference_inv_disconnect) (simp add: ws_inv_def reference_inv_def)
  moreover have "timer_inv (disconnect R True ?\<sigma>1)"
  proof (rule disconnect_inv)
    show "timers_held ?\<sigma>1" by (simp add: timers_held_def t(2) del_def)
    show "no_heartbeat ?\<sigma>1" using assms(1) by (simp add: ws_inv_def timer_inv_def no_heartbeat_def)
  qed
  ultimately show ?thesis by (simp add: t(1) ws_inv_def)
qed

lemma ws_inv_disconnect:
  assumes "ws_inv \<sigma>"
  shows "ws_inv (disconnect R b \<sigma>)"
proof -
  have "timer_inv \<sigma>" "no_heartbeat \<sigma>" using assms by (simp_all add: ws_inv_def timer_inv_def)
  then have "timer_inv (disconnect R b \<sigma>)" by (intro disconnect_inv timer_inv_held)
  then show ?thesis
    using assms by (simp add: ws_inv_def listener_inv_disconnect reference_inv_disconnect)
qed

lemma ws_inv_listener:
  assumes "ws_inv \<sigma>" and "ev \<noteq> ON_CLOSED" and "\<And>d. f \<noteq> ErrHandler d" and "\<And>d. f \<noteq> ResHandler d"
  shows "ws_inv (\<sigma>\<lparr>table := on ev f (table \<sigma>)\<rparr>)"
proof -
  have "listener_inv \<sigma>" using assms(1) by (simp add: ws_inv_def)
  then have "listener_inv (\<sigma>\<lparr>table := on ev f (table \<sigma>)\<rparr>)"
    using assms(2-4) by (auto simp: listener_inv_def on_listeners ee.hs_on)
  then show ?thesis
    using assms(1) by (simp add: ws_inv_def reference_inv_def timer_inv_def no_heartbeat_def)
qed

lemma ws_inv_step:
  assumes inv: "ws_inv \<sigma>" and step: "ws_step R e \<sigma> = Some \<sigma>'"
  shows "ws_inv \<sigma>'"
proof (cases e)
  case (Do_send ms)
  then show ?thesis
    using inv step
    by (auto simp: sendMessages_def sendWithCb_def intro!: ws_inv_on_queue ws_inv_sends split: option.splits)
next
  case (Check k)
  then obtain r where "k < length (transmissions \<sigma>)" "tr_state (transmissions \<sigma> ! k) = Polling r"
      "\<sigma>' = waitForSocketConnection R k (r - 1) \<sigma>"
    using step by (auto split: if_splits transmission_state.splits)
  moreover from this inv have "tr_socket (transmissions \<sigma> ! k) < length (sockets \<sigma>)"
    unfolding ws_inv_def reference_inv_def by (meson nth_mem)
  ultimately show ?thesis using ws_inv_wait [OF inv] by simp
next
  case (Ws_pong n)
  have "pong_listeners \<sigma> = []" using inv by (simp add: ws_inv_def timer_inv_def no_heartbeat_def)
  then show ?thesis using inv step Ws_pong by (auto simp: ws_pong_def split: if_splits)
next
  case (Ws_data n d)
  then show ?thesis
    using inv step by (auto simp: onMessageHandler_def event_names intro!: ws_inv_emit split: if_splits sum.splits)
next
  case (Sent k err)
  then show ?thesis using inv step by (auto intro!: ws_inv_transmission split: if_splits)
next
  case (Ws_open n)
  then show ?thesis using inv step
    by (auto simp: in_state_def intro!: ws_inv_open ws_inv_in_state [unfolded in_state_def] split: if_splits)
next
  case Drained
  show ?thesis
  proof -
    have "reference_inv (drainHandler \<sigma>) = reference_inv \<sigma>" by (simp add: reference_inv_def)
    then have "ws_inv (drainHandler \<sigma>)" using inv drainHandler_inv [of \<sigma>] by (simp add: ws_inv_def)
    then show ?thesis using step Drained by simp
  qed
next
  case (Do_onMessage cb)
  then show ?thesis using step by (auto simp: ws_onMessage_def event_names intro!: ws_inv_listener [OF inv])
next
  case (Do_onError cb)
  then show ?thesis using step by (auto simp: ws_onError_def event_names intro!: ws_inv_listener [OF inv])
qed (use inv step in \<open>auto intro: ws_inv_connect ws_inv_continue ws_inv_disconnect ws_inv_transmit ws_inv_sends
    ws_inv_fired ws_inv_in_state ws_inv_closed ws_inv_ws_error split: if_splits option.splits\<close>)

lemma ws_reachable_inv: "ws_reachable R \<sigma> \<Longrightarrow> ws_inv \<sigma>"
  by (induction rule: ws_reachable.induct) (auto intro: ws_inv_new ws_inv_step)

end
