(* ===== verification/Ws_Properties.thy ===== *)
theory Ws_Properties
  imports Ws_Invariants
begin

text \<open>
  What the users of the WebSocket transport can rely on: connecting, sending with its retries,
  disconnecting, and what becomes of listeners and timers; and the run in which connecting twice
  leaves a transport that cannot send.
\<close>

section \<open>A runtime for the witnesses\<close>

text \<open>The queue as the list of the pending messages, in order, with the flag of its being paused.\<close>

definition list_runtime :: "(bool \<times> int list, int, string) runtime" where
  "list_runtime =
     \<lparr>aq_create = (False, []),
      aq_push = (\<lambda>cb ms (p, q). (p, q @ ms)), aq_unshift = (\<lambda>m (p, q). (p, m # q)),
      aq_pause = (\<lambda>(p, q). (True, q)), aq_resume = (\<lambda>(p, q). (False, q)),
      aq_kill = (\<lambda>(p, q). (p, [])), aq_length = (\<lambda>(p, q). length q),
      ws_refuses = (\<lambda>url hs. None), parse_message = Inr\<rparr>"

definition sample_config :: "ConnectionStrategy \<Rightarrow> int \<Rightarrow> ws_config" where
  "sample_config strategy retries =
     DefaultWsTransportConfig \<lparr>base_connectionFactory = AgentWsConnectionFactory, base_pingInterval = None,
       base_queueWorker = None, base_drainTimeoutMs = None, base_messagingRetryIntervalMs = None,
       base_messagingMaxRetries = Some retries, base_connectionStrategy = Some strategy\<rparr>"

definition sample_opts :: connection_opts where
  "sample_opts = \<lparr>opts_domain = ''d'', opts_session = \<lparr>sess_accountId = ''1'', sess_token = ''t''\<rparr>\<rparr>"

lemma sample_factory [simp]: "connectionFactory (sample_config s r) = AgentWsConnectionFactory"
  by (simp add: sample_config_def ws_config_defs)

lemma list_runtime_accepts [simp]: "ws_refuses list_runtime url hs = None"
  by (simp add: list_runtime_def)

lemma new_transport_reachable: "ws_reachable R new_transport"
  by (rule ws_reachable.init)

lemma new_transport_simps [simp]:
  "ws new_transport = None" "sockets new_transport = []" "connects new_transport = []"
  "sends new_transport = []" "queues new_transport = []" "\<not> isConnected new_transport"
  "transmissions new_transport = []" "calls new_transport = []" "disconnects new_transport = []"
  by (simp_all add: new_transport_def isConnected_def)

section \<open>Connecting\<close>

lemma isConnected_update [simp]:
  "isConnected (\<sigma>\<lparr>conf := x, sendingQueue := y, queues := z\<rparr>) = isConnected \<sigma>"
  by (simp add: isConnected_def cong: option.case_cong)

lemma open_socket_fields:
  assumes "ws_refuses R (endpoint f opts) (headers f opts) = None"
  shows "ws (open_socket R c f opts \<sigma>) = Some (length (sockets \<sigma>))"
    and "sockets (open_socket R c f opts \<sigma>) = sockets \<sigma> @ [\<lparr>sock_url = endpoint f opts,
      sock_headers = headers f opts, readyState = CONNECTING, opened = False, opened_by = c\<rparr>]"
    and "connects (open_socket R c f opts \<sigma>) = (connects \<sigma>)[c := Opening (length (sockets \<sigma>))]"
    and "sendingQueue (open_socket R c f opts \<sigma>) = sendingQueue \<sigma>"
    and "queues (open_socket R c f opts \<sigma>) = queues \<sigma>" and "conf (open_socket R c f opts \<sigma>) = conf \<sigma>"
    and "sends (open_socket R c f opts \<sigma>) = sends \<sigma>" and "calls (open_socket R c f opts \<sigma>) = calls \<sigma>"
  using assms by (simp_all add: open_socket_def Let_def)

text \<open>The socket that has just been created opens.\<close>

lemma ws_open_fields:
  assumes "n < length (sockets \<sigma>)"
  shows "ws (ws_open R n (in_state n OPEN \<sigma>)) = ws \<sigma>"
    and "sockets (ws_open R n (in_state n OPEN \<sigma>)) =
      (sockets \<sigma>)[n := (sockets \<sigma> ! n)\<lparr>readyState := OPEN, opened := True\<rparr>]"
    and "connects (ws_open R n (in_state n OPEN \<sigma>)) = (let c = opened_by (sockets \<sigma> ! n)
      in (connects \<sigma>)[c := (if connects \<sigma> ! c = Opening n then Connect_done else connects \<sigma> ! c)])"
    and "sendingQueue (ws_open R n (in_state n OPEN \<sigma>)) = sendingQueue \<sigma>"
    and "queues (ws_open R n (in_state n OPEN \<sigma>)) = queues (resume_queue R \<sigma>)"
    and "conf (ws_open R n (in_state n OPEN \<sigma>)) = conf \<sigma>"
    and "sends (ws_open R n (in_state n OPEN \<sigma>)) = sends \<sigma>"
  using assms
  by (simp_all add: ws_open_def in_state_def Let_def onConnectedHandler_def resume_queue_def on_queue_def
      split: option.splits)

lemma sendMessages_no_queue:
  "sendingQueue \<sigma> = None \<Longrightarrow> sends (sendMessages R ms \<sigma>) = sends \<sigma> @ [Rejected_with queue_not_ready]"
  by (simp add: sendMessages_def sendWithCb_def settle_first_def nth_append list_update_append)

text \<open>
  C14. A first connection can send: connecting a transport that is not connected, and its socket
  opening, resolves the promise and leaves the transport connected to the factory's endpoint, with
  the factory's headers, the given configuration and a fresh running queue, to which \<open>sendMessages\<close>
  hands all its messages.
\<close>

theorem connect_ready:
  assumes "\<not> isConnected \<sigma>"
    and "ws_refuses R (endpoint (connectionFactory config) opts) (headers (connectionFactory config) opts) = None"
  shows "\<exists>\<sigma>'. ws_exec R [Do_connect config opts, Ws_open (length (sockets \<sigma>))] \<sigma> = Some \<sigma>'
    \<and> isConnected \<sigma>' \<and> connects \<sigma>' = connects \<sigma> @ [Connect_done]
    \<and> sock_url (last (sockets \<sigma>')) = endpoint (connectionFactory config) opts
    \<and> sock_headers (last (sockets \<sigma>')) = headers (connectionFactory config) opts
    \<and> conf \<sigma>' = Some (adjustConfByConnectionStrategy config)
    \<and> queues (sendMessages R ms \<sigma>') =
        queues \<sigma> @ [aq_push R (Some (length (sends \<sigma>))) ms (aq_resume R (aq_create R))]
    \<and> sends (sendMessages R ms \<sigma>') = sends \<sigma> @ [Pending]"
proof -
  let ?f = "connectionFactory config" and ?n = "length (sockets \<sigma>)"
  define \<sigma>1 where "\<sigma>1 = connect R config opts \<sigma>"
  have s1: "ws \<sigma>1 = Some ?n" "sockets \<sigma>1 = sockets \<sigma> @ [\<lparr>sock_url = endpoint ?f opts,
      sock_headers = headers ?f opts, readyState = CONNECTING, opened = False, opened_by = length (connects \<sigma>)\<rparr>]"
    "connects \<sigma>1 = connects \<sigma> @ [Opening ?n]" "sendingQueue \<sigma>1 = Some (length (queues \<sigma>))"
    "queues \<sigma>1 = queues \<sigma> @ [aq_create R]" "conf \<sigma>1 = Some (adjustConfByConnectionStrategy config)"
    "sends \<sigma>1 = sends \<sigma>"
    using assms by (simp_all add: \<sigma>1_def connect_def Let_def open_socket_fields list_update_append)
  define \<sigma>2 where "\<sigma>2 = ws_open R ?n (in_state ?n OPEN \<sigma>1)"
  have n: "?n < length (sockets \<sigma>1)" by (simp add: s1)
  note f = ws_open_fields [OF n, of R, folded \<sigma>2_def]
  have run: "ws_exec R [Do_connect config opts, Ws_open ?n] \<sigma> = Some \<sigma>2"
    using n by (simp add: \<sigma>1_def [symmetric] \<sigma>2_def)
  show ?thesis
    by (rule exI [of _ \<sigma>2])
       (simp add: run f s1 isConnected_def Let_def nth_append list_update_append sendMessages_def sendWithCb_def
         on_queue_def resume_queue_def del: ws_exec.simps)
qed

theorem connect_ready_witness:
  "\<exists>\<sigma>'. ws_exec list_runtime [Do_connect (sample_config LEAVE_OPEN 3) sample_opts, Ws_open 0] new_transport = Some \<sigma>'
     \<and> isConnected \<sigma>' \<and> sends (sendMessages list_runtime [5] \<sigma>') = [Pending]"
  using connect_ready [of "new_transport" list_runtime "sample_config LEAVE_OPEN 3" sample_opts "[5]"]
  by (simp del: ws_exec.simps) blast

text \<open>
  C31. Connecting a connected transport leaves one that cannot send: \<open>connect\<close> makes the new queue and
  stores the new configuration before it disconnects the old connection, and \<open>disconnect\<close> deletes
  both. The promise resolves and the transport says it is connected, but every message is refused.
\<close>

theorem reconnect_loses_queue:
  assumes "ws_reachable R \<sigma>" and "isConnected \<sigma>" and "ws \<sigma> = Some n"
    and "ws_refuses R (endpoint (connectionFactory config) opts) (headers (connectionFactory config) opts) = None"
  shows "\<exists>\<sigma>'. ws_exec R [Do_connect config opts, Ws_close n, Continue_connect (length (connects \<sigma>)),
      Ws_open (length (sockets \<sigma>))] \<sigma> = Some \<sigma>'
    \<and> isConnected \<sigma>' \<and> connects \<sigma>' = connects \<sigma> @ [Connect_done]
    \<and> sendingQueue \<sigma>' = None \<and> conf \<sigma>' = None
    \<and> sends (sendMessages R ms \<sigma>') = sends \<sigma> @ [Rejected_with queue_not_ready]"
proof -
  let ?f = "connectionFactory config" and ?m = "length (sockets \<sigma>)" and ?c = "length (connects \<sigma>)"
    and ?d = "length (disconnects \<sigma>)"
  have n: "n < ?m" using ws_reachable_inv [OF assms(1)] assms(3) by (simp add: ws_inv_def reference_inv_def)
  define \<sigma>1 where "\<sigma>1 = connect R config opts \<sigma>"
  have ready: "readyState (sockets \<sigma> ! n) = OPEN" using assms(2,3) by (simp add: isConnected_def)
  have s1: "connects \<sigma>1 = connects \<sigma> @ [Awaiting ?d ?f opts]" "sockets \<sigma>1 = sockets \<sigma>" "ws \<sigma>1 = None"
    "sendingQueue \<sigma>1 = None" "conf \<sigma>1 = None" "sends \<sigma>1 = sends \<sigma>" "disconnects \<sigma>1 = disconnects \<sigma> @ [Pending]"
    using assms(2,3) ready by (simp_all add: \<sigma>1_def connect_def Let_def disconnect_eq)
  have "ws_reachable R \<sigma>1" using assms(1) by (rule ws_reachable.step [where e = "Do_connect config opts"]) (simp add: \<sigma>1_def)
  then have "listener_inv \<sigma>1" using ws_reachable_inv [of R \<sigma>1] by (simp add: ws_inv_def)
  then have l: "listener_inv (pause R (clearBeat (in_state n CLOSED \<sigma>1)))"
    by (simp add: in_state_def) (simp add: listener_inv_def)
  define \<sigma>2 where "\<sigma>2 = onClosedHandler R (in_state n CLOSED \<sigma>1)"
  have s2: "connects \<sigma>2 = connects \<sigma>1" "sockets \<sigma>2 = (sockets \<sigma>)[n := (sockets \<sigma> ! n)\<lparr>readyState := CLOSED\<rparr>]"
    "sendingQueue \<sigma>2 = None" "conf \<sigma>2 = None" "sends \<sigma>2 = sends \<sigma>"
    by (simp_all add: \<sigma>2_def in_state_def s1)
  have d2: "disconnects \<sigma>2 ! ?d = Resolved"
    using closed_disconnects [OF l]
    by (simp add: \<sigma>2_def onClosedHandler_def s1 in_state_def pause_def nth_append)
  define \<sigma>3 where "\<sigma>3 = open_socket R ?c ?f opts \<sigma>2"
  have run3: "continue_connect R ?c \<sigma>2 = Some \<sigma>3"
    by (simp add: continue_connect_def s2 s1 d2 nth_append \<sigma>3_def)
  note s3 = open_socket_fields [OF assms(4), of ?c \<sigma>2, folded \<sigma>3_def]
  have m: "?m < length (sockets \<sigma>3)" by (simp add: s3 s2)
  define \<sigma>4 where "\<sigma>4 = ws_open R ?m (in_state ?m OPEN \<sigma>3)"
  note s4 = ws_open_fields [OF m, of R, folded \<sigma>4_def]
  have run: "ws_exec R [Do_connect config opts, Ws_close n, Continue_connect ?c, Ws_open ?m] \<sigma> = Some \<sigma>4"
    using n m by (simp add: \<sigma>1_def [symmetric] s1 \<sigma>2_def [symmetric] run3 \<sigma>4_def)
  have "sendingQueue \<sigma>4 = None" by (simp add: s4 s3 s2)
  then show ?thesis
    by (intro exI [of _ \<sigma>4])
       (simp add: run s4 s3 s2 s1 isConnected_def Let_def nth_append list_update_append sendMessages_no_queue
         del: ws_exec.simps)
qed

text \<open>A connected transport, for the witnesses.\<close>

definition connected_ws :: "ConnectionStrategy \<Rightarrow> (bool \<times> int list, int, string) ws_transport" where
  "connected_ws st = ws_open list_runtime 0 (in_state 0 OPEN
     (connect list_runtime (sample_config st 2) sample_opts new_transport))"

lemma connected_ws_simps [simp]:
  "ws (connected_ws st) = Some 0" "sendingQueue (connected_ws st) = Some 0" "length (sockets (connected_ws st)) = 1"
  "readyState (sockets (connected_ws st) ! 0) = OPEN" "isConnected (connected_ws st)"
  "queues (connected_ws st) = [(False, [])]" "length (connects (connected_ws st)) = 1"
  "sends (connected_ws st) = []" "conf (connected_ws st) = Some (adjustConfByConnectionStrategy (sample_config st 2))"
proof -
  define \<sigma>1 where "\<sigma>1 = connect list_runtime (sample_config st 2) sample_opts new_transport"
  have s1: "ws \<sigma>1 = Some 0" "length (sockets \<sigma>1) = 1" "length (connects \<sigma>1) = 1" "sendingQueue \<sigma>1 = Some 0"
    "queues \<sigma>1 = [(False, [])]" "conf \<sigma>1 = Some (adjustConfByConnectionStrategy (sample_config st 2))" "sends \<sigma>1 = []"
    by (simp_all add: \<sigma>1_def connect_def Let_def open_socket_fields) (simp add: list_runtime_def)
  note f = ws_open_fields [of 0 \<sigma>1 list_runtime, unfolded \<sigma>1_def, folded connected_ws_def, folded \<sigma>1_def]
  show c: "ws (connected_ws st) = Some 0" "sendingQueue (connected_ws st) = Some 0" "length (sockets (connected_ws st)) = 1"
    "readyState (sockets (connected_ws st) ! 0) = OPEN" "queues (connected_ws st) = [(False, [])]"
    "length (connects (connected_ws st)) = 1" "sends (connected_ws st) = []"
    "conf (connected_ws st) = Some (adjustConfByConnectionStrategy (sample_config st 2))"
    by (simp_all add: f s1 Let_def resume_queue_def on_queue_def) (simp add: list_runtime_def)
  show "isConnected (connected_ws st)" by (simp add: isConnected_def c)
qed

lemma connected_ws_reachable: "ws_reachable list_runtime (connected_ws st)"
proof (rule ws_exec_reachable [OF new_transport_reachable])
  have "length (sockets (connect list_runtime (sample_config st 2) sample_opts new_transport)) = 1"
    by (simp add: connect_def Let_def open_socket_fields)
  then show "ws_exec list_runtime [Do_connect (sample_config st 2) sample_opts, Ws_open 0] new_transport
      = Some (connected_ws st)"
    by (simp add: connected_ws_def)
qed

theorem reconnect_loses_queue_witness:
  "\<exists>\<sigma>'. ws_exec list_runtime [Do_connect (sample_config LEAVE_OPEN 3) sample_opts, Ws_close 0, Continue_connect 1, Ws_open 1]
      (connected_ws LEAVE_OPEN) = Some \<sigma>'
    \<and> isConnected \<sigma>' \<and> sends (sendMessages list_runtime [5] \<sigma>') = [Rejected_with queue_not_ready]"
  using reconnect_loses_queue [of list_runtime "connected_ws LEAVE_OPEN" 0 "sample_config LEAVE_OPEN 3" sample_opts "[5]"]
    connected_ws_reachable
  by (simp del: ws_exec.simps) blast

section \<open>Disconnecting\<close>

text \<open>
  \<open>disconnect\<close> leaves nothing behind to send with: the socket, the queue and the configuration are
  gone, no timer is armed, and the promise of a later \<open>sendMessages\<close> is rejected at once.
\<close>

theorem disconnect_resets:
  assumes "ws_reachable R \<sigma>"
  shows "\<not> isConnected (disconnect R b \<sigma>) \<and> sendingQueue (disconnect R b \<sigma>) = None
    \<and> conf (disconnect R b \<sigma>) = None \<and> timers (disconnect R b \<sigma>) = []
    \<and> sends (sendMessages R ms (disconnect R b \<sigma>)) = sends \<sigma> @ [Rejected_with queue_not_ready]"
proof -
  have "timer_inv \<sigma>" using ws_reachable_inv [OF assms] by (simp add: ws_inv_def)
  then have "timers (disconnect R b \<sigma>) = []"
    using disconnect_timers(1) [OF timer_inv_held] by (auto simp: timer_inv_def)
  then show ?thesis by (simp add: isConnected_def sendMessages_no_queue)
qed

theorem disconnect_resets_witness:
  "sends (sendMessages list_runtime [5] (disconnect list_runtime True (connected_ws LEAVE_OPEN)))
     = [Rejected_with queue_not_ready]"
  using disconnect_resets [OF connected_ws_reachable [of LEAVE_OPEN], where ms = "[5]" and b = True] by simp

text \<open>
  C28. When a connection closes, every \<open>disconnect()\<close> that is still pending resolves and its error
  handler is taken off; the ones settled before stay as they are. Its other handler is not: \<open>cleanup\<close>
  takes it off the wrong event, so there is one listener on \<open>ON_CLOSED\<close> for every \<open>disconnect()\<close> ever
  called.
\<close>

theorem close_settles_disconnects:
  assumes "ws_reachable R \<sigma>" and "n < length (sockets \<sigma>)"
  shows "\<exists>\<sigma>'. ws_step R (Ws_close n) \<sigma> = Some \<sigma>'
    \<and> disconnects \<sigma>' = map (\<lambda>v. if v = Pending then Resolved else v) (disconnects \<sigma>)
    \<and> (\<forall>d. ErrHandler d \<notin> set (listeners ON_ERROR (table \<sigma>')))
    \<and> listeners ON_CLOSED (table \<sigma>') = map ResHandler [0..<length (disconnects \<sigma>)]"
proof -
  let ?\<sigma>' = "onClosedHandler R (in_state n CLOSED \<sigma>)"
  have step: "ws_step R (Ws_close n) \<sigma> = Some ?\<sigma>'" using assms(2) by simp
  have "listener_inv \<sigma>" using ws_reachable_inv [OF assms(1)] by (simp add: ws_inv_def)
  then have "listener_inv (pause R (clearBeat (in_state n CLOSED \<sigma>)))"
    by (simp add: in_state_def) (simp add: listener_inv_def)
  from closed_disconnects [OF this]
  have d: "disconnects ?\<sigma>' = map (\<lambda>v. if v = Pending then Resolved else v) (disconnects \<sigma>)"
    by (simp add: onClosedHandler_def pause_def in_state_def)
  have "ws_reachable R ?\<sigma>'" using assms(1) step by (rule ws_reachable.step)
  then have inv: "listener_inv ?\<sigma>'" using ws_reachable_inv [of R ?\<sigma>'] by (simp add: ws_inv_def)
  then have "count_list (listeners ON_ERROR (table ?\<sigma>')) (ErrHandler e) = 0" for e
    by (simp add: listener_inv_def d)
  then have "\<forall>e. ErrHandler e \<notin> set (listeners ON_ERROR (table ?\<sigma>'))" by (simp add: count_list_0_iff)
  moreover have "listeners ON_CLOSED (table ?\<sigma>') = map ResHandler [0..<length (disconnects \<sigma>)]"
    using inv by (simp add: listener_inv_def listeners_def d comp_def)
  ultimately show ?thesis using step d by blast
qed

theorem close_settles_disconnects_witness:
  "\<exists>\<sigma>'. ws_step list_runtime (Ws_close 0) (disconnect list_runtime True (connected_ws LEAVE_OPEN)) = Some \<sigma>'
    \<and> Pending \<notin> set (disconnects \<sigma>') \<and> length (listeners ON_CLOSED (table \<sigma>')) = length (disconnects \<sigma>')"
proof -
  let ?\<sigma> = "disconnect list_runtime True (connected_ws LEAVE_OPEN)"
  have "ws_reachable list_runtime ?\<sigma>"
    by (rule ws_reachable.step [OF connected_ws_reachable, where e = "Do_disconnect True"]) simp
  from close_settles_disconnects [OF this, of 0] show ?thesis
    by (auto simp del: ws_step.simps)
qed

section \<open>Sending\<close>

lemma socket_waited_error:
  assumes "sendingQueue \<sigma> = Some i"
  shows "socket_waited R k (Some e) \<sigma> = set_transmission k (Done (Some e))
    (\<sigma>\<lparr>queues := (queues \<sigma>)[i := aq_unshift R (tr_message (transmissions \<sigma> ! k)) (queues \<sigma> ! i)]\<rparr>)"
  using assms by (simp add: socket_waited_def on_queue_def)

lemma set_transmission_twice [simp]:
  "set_transmission k st (set_transmission k st' \<sigma>) = set_transmission k st \<sigma>"
  by (cases "k < length (transmissions \<sigma>)") (simp_all add: set_transmission_def list_update_beyond)

lemma set_transmission_nth:
  "k < length (transmissions \<sigma>) \<Longrightarrow> transmissions (set_transmission k st \<sigma>) ! k = (transmissions \<sigma> ! k)\<lparr>tr_state := st\<rparr>"
  by (simp add: set_transmission_def)

text \<open>Checks of a socket that stays closed count the retries down.\<close>

lemma failed_checks:
  assumes "k < length (transmissions \<sigma>)" and "tr_state (transmissions \<sigma> ! k) = Polling r"
    and "readyState (sockets \<sigma> ! tr_socket (transmissions \<sigma> ! k)) \<noteq> OPEN" and "int j \<le> r"
  shows "ws_exec R (replicate j (Check k)) \<sigma> = Some (set_transmission k (Polling (r - int j)) \<sigma>)"
  using assms
proof (induction j arbitrary: \<sigma> r)
  case 0
  have "(transmissions \<sigma>)[k := (transmissions \<sigma> ! k)\<lparr>tr_state := Polling r\<rparr>] = transmissions \<sigma>"
    using 0(2) by (cases "transmissions \<sigma> ! k") (simp add: list_update_same_conv 0(1))
  then show ?case by (simp add: set_transmission_def)
next
  case (Suc j)
  let ?\<sigma>1 = "set_transmission k (Polling (r - 1)) \<sigma>"
  have "ws_step R (Check k) \<sigma> = Some ?\<sigma>1"
    using Suc.prems by (simp add: waitForSocketConnection_def)
  moreover have "ws_exec R (replicate j (Check k)) ?\<sigma>1 = Some (set_transmission k (Polling (r - 1 - int j)) ?\<sigma>1)"
    by (rule Suc.IH) (use Suc.prems in \<open>simp_all add: set_transmission_nth\<close>)
  ultimately show ?case by (simp add: diff_diff_eq add.commute)
qed

text \<open>
  C15. The retries are bounded: when the queue's worker gets a message while the socket is not open and
  it never opens, the worker's callback is called with an error after exactly \<open>messagingMaxRetries\<close> plus
  one more checks, not before; nothing has been sent, and the message is back at the front of the
  queue.
\<close>

theorem retries_bounded:
  assumes "ws \<sigma> = Some n" and "readyState (sockets \<sigma> ! n) \<noteq> OPEN" and "sendingQueue \<sigma> = Some i"
    and "retries_in_use \<sigma> = int r" and "k = length (transmissions \<sigma>)"
  shows "(\<forall>j \<le> r. \<exists>\<sigma>'. ws_exec R (Work m # replicate j (Check k)) \<sigma> = Some \<sigma>'
        \<and> tr_state (transmissions \<sigma>' ! k) = Polling (int r - int j) \<and> calls \<sigma>' = calls \<sigma>)
    \<and> (\<exists>\<sigma>'. ws_exec R (Work m # replicate (Suc r) (Check k)) \<sigma> = Some \<sigma>'
        \<and> tr_state (transmissions \<sigma>' ! k) = Done (Some retries_exhausted) \<and> calls \<sigma>' = calls \<sigma>
        \<and> queues \<sigma>' = (queues \<sigma>)[i := aq_unshift R m (queues \<sigma> ! i)])"
proof -
  let ?\<sigma>1 = "\<sigma>\<lparr>transmissions := transmissions \<sigma> @ [\<lparr>tr_message = m, tr_socket = n, tr_state = Polling (int r)\<rparr>]\<rparr>"
  have first: "ws_step R (Work m) \<sigma> = Some ?\<sigma>1"
    using assms by (simp add: transmit_def Let_def waitForSocketConnection_def set_transmission_def)
  have s1: "k < length (transmissions ?\<sigma>1)" "tr_state (transmissions ?\<sigma>1 ! k) = Polling (int r)"
    "readyState (sockets ?\<sigma>1 ! tr_socket (transmissions ?\<sigma>1 ! k)) \<noteq> OPEN" "tr_message (transmissions ?\<sigma>1 ! k) = m"
    using assms(2,5) by simp_all
  have polls: "ws_exec R (replicate j (Check k)) ?\<sigma>1 = Some (set_transmission k (Polling (int r - int j)) ?\<sigma>1)"
    if "j \<le> r" for j
    by (rule failed_checks [OF s1(1-3)]) (use that in simp)
  have "ws_exec R (replicate r (Check k) @ [Check k]) ?\<sigma>1 =
      Some (socket_waited R k (Some retries_exhausted) (set_transmission k (Polling 0) ?\<sigma>1))"
  proof -
    have app: "ws_exec R (es @ es') s = (case ws_exec R es s of None \<Rightarrow> None | Some s' \<Rightarrow> ws_exec R es' s')"
      for es es' and s :: "('a, 'b, 'c) ws_transport"
      by (induction es arbitrary: s) (auto split: option.splits)
    show ?thesis
      using polls [of r] s1(1) by (simp add: app set_transmission_nth waitForSocketConnection_def)
  qed
  moreover have "replicate (Suc r) (Check k :: 'b ws_event) = replicate r (Check k) @ [Check k]"
    by (simp add: replicate_append_same)
  ultimately have last: "ws_exec R (Work m # replicate (Suc r) (Check k)) \<sigma> =
      Some (socket_waited R k (Some retries_exhausted) (set_transmission k (Polling 0) ?\<sigma>1))"
    using first by (simp only: ws_exec.simps option.case)
  show ?thesis
  proof (intro conjI allI impI)
    fix j
    assume "j \<le> r"
    then show "\<exists>\<sigma>'. ws_exec R (Work m # replicate j (Check k)) \<sigma> = Some \<sigma>'
        \<and> tr_state (transmissions \<sigma>' ! k) = Polling (int r - int j) \<and> calls \<sigma>' = calls \<sigma>"
      using first polls [of j] set_transmission_nth [OF s1(1)] by simp
  next
    show "\<exists>\<sigma>'. ws_exec R (Work m # replicate (Suc r) (Check k)) \<sigma> = Some \<sigma>'
        \<and> tr_state (transmissions \<sigma>' ! k) = Done (Some retries_exhausted) \<and> calls \<sigma>' = calls \<sigma>
        \<and> queues \<sigma>' = (queues \<sigma>)[i := aq_unshift R m (queues \<sigma> ! i)]"
      unfolding last using assms(3,5) s1
      by (simp add: socket_waited_error set_transmission_nth)
  qed
qed

text \<open>A transport whose socket is still connecting.\<close>

definition connecting_ws :: "(bool \<times> int list, int, string) ws_transport" where
  "connecting_ws = in_state 0 CONNECTING (connected_ws LEAVE_OPEN)"

lemma connecting_ws_simps [simp]:
  "ws connecting_ws = Some 0" "sendingQueue connecting_ws = Some 0" "queues connecting_ws = [(False, [])]"
  "readyState (sockets connecting_ws ! 0) = CONNECTING" "retries_in_use connecting_ws = 2"
  by (simp_all add: connecting_ws_def in_state_def retries_in_use_def)
     (simp add: adjustConfByConnectionStrategy_def sample_config_def ws_config_defs)

lemma connecting_ws_unused [simp]: "transmissions connecting_ws = []" "calls connecting_ws = []"
  by (simp_all add: connecting_ws_def in_state_def connected_ws_def ws_open_def Let_def connect_def open_socket_def)

theorem retries_bounded_witness:
  "\<exists>\<sigma>'. ws_exec list_runtime (Work 5 # replicate 3 (Check 0)) connecting_ws = Some \<sigma>'
    \<and> tr_state (transmissions \<sigma>' ! 0) = Done (Some retries_exhausted) \<and> queues \<sigma>' = [(False, [5])]"
proof -
  have "aq_unshift list_runtime 5 (False, []) = (False, [5])" by (simp add: list_runtime_def)
  then show ?thesis
    using retries_bounded [of connecting_ws 0 0 2 0 list_runtime 5]
    by (simp del: ws_exec.simps replicate.simps add: numeral_3_eq_3) blast
qed

text \<open>
  A message is sent once and its worker is told once: with an open socket the worker hands the
  message to that socket immediately and waits for the socket's callback, whose error, or none, is
  what the queue's callback gets; and whatever happens later, a finished transmission stays finished
  with the result it has.
\<close>

lemma transmit_sends_once:
  assumes "ws \<sigma> = Some n" and "readyState (sockets \<sigma> ! n) = OPEN" and "0 \<le> retries_in_use \<sigma>"
    and "k = length (transmissions \<sigma>)"
  shows "\<exists>\<sigma>1 \<sigma>2. ws_step R (Work m) \<sigma> = Some \<sigma>1 \<and> calls \<sigma>1 = calls \<sigma> @ [Transmit n m]
    \<and> tr_state (transmissions \<sigma>1 ! k) = Sending
    \<and> ws_step R (Sent k err) \<sigma>1 = Some \<sigma>2 \<and> tr_state (transmissions \<sigma>2 ! k) = Done err
    \<and> (\<forall>err'. ws_step R (Sent k err') \<sigma>2 = None) \<and> ws_step R (Check k) \<sigma>2 = None"
proof -
  let ?\<sigma>1 = "\<sigma>\<lparr>transmissions := transmissions \<sigma> @ [\<lparr>tr_message = m, tr_socket = n, tr_state = Sending\<rparr>],
    calls := calls \<sigma> @ [Transmit n m]\<rparr>"
  have "ws_step R (Work m) \<sigma> = Some ?\<sigma>1"
    using assms by (simp add: transmit_def Let_def waitForSocketConnection_def socket_waited_def set_transmission_def)
  then show ?thesis
    using assms(4) by (intro exI [of _ ?\<sigma>1] exI [of _ "set_transmission k (Done err) ?\<sigma>1"])
      (simp add: set_transmission_def)
qed

section \<open>Incoming messages\<close>

text \<open>The message callbacks registered so far, in order.\<close>

definition message_callbacks :: "('q, 'm, 'r) ws_transport \<Rightarrow> nat list" where
  "message_callbacks \<sigma> = concat (map (\<lambda>l. case l of UserMessage c \<Rightarrow> [c] | _ \<Rightarrow> []) (listeners ON_MESSAGE (table \<sigma>)))"

lemma fold_received:
  assumes "\<forall>l \<in> set ls. (\<forall>d. l \<noteq> ResHandler d) \<and> (\<forall>d. l \<noteq> ErrHandler d)"
  shows "fold (invoke (Received r)) ls \<sigma> = \<sigma>\<lparr>received := received \<sigma> @
    map (\<lambda>c. (c, r)) (concat (map (\<lambda>l. case l of UserMessage c \<Rightarrow> [c] | _ \<Rightarrow> []) ls))\<rparr>"
  using assms
proof (induction ls arbitrary: \<sigma>)
  case (Cons l ls)
  then show ?case by (cases l) auto
qed simp

lemma invoke_handlers:
  "ev \<noteq> ON_ERROR \<Longrightarrow> ev \<noteq> ON_CONNECTED \<Longrightarrow> handlers (table (invoke p l \<sigma>)) ev = handlers (table \<sigma>) ev"
  by (cases l; cases p) (simp_all add: cleanup_def handlers_removeListener)

lemma fold_invoke_handlers:
  "ev \<noteq> ON_ERROR \<Longrightarrow> ev \<noteq> ON_CONNECTED \<Longrightarrow>
     handlers (table (fold (invoke p) ls \<sigma>)) ev = handlers (table \<sigma>) ev"
  by (induction ls arbitrary: \<sigma>) (simp_all add: invoke_handlers)

lemma disconnect_message_listeners:
  assumes inv: "listener_inv \<sigma>"
  shows "listeners ON_MESSAGE (table (disconnect R b \<sigma>)) = listeners ON_MESSAGE (table \<sigma>)"
proof -
  let ?\<sigma>1 = "registered (flush R b \<sigma>)"
  have ne: "ON_MESSAGE \<noteq> ON_ERROR" "ON_MESSAGE \<noteq> ON_CONNECTED" "ON_MESSAGE \<noteq> ON_CLOSED"
    by (simp_all add: event_names)
  have reg: "listeners ON_MESSAGE (table ?\<sigma>1) = listeners ON_MESSAGE (table \<sigma>)"
    using ne by (simp add: registered_def on_listeners)
  have "listener_inv (pause R (clearBeat ?\<sigma>1))" using inv by (simp add: listener_inv_registered)
  then have "listeners ON_MESSAGE (table (onClosedHandler R ?\<sigma>1)) = listeners ON_MESSAGE (table ?\<sigma>1)"
    using ne by (simp add: onClosedHandler_def emit_event_eq listeners_def fold_invoke_handlers)
      (simp add: pause_def)
  then show ?thesis using reg by (simp add: disconnect_eq Let_def split: option.splits)
qed

text \<open>What an incoming text does to a transport: it is parsed, and each message callback gets the value.\<close>

lemma message_received:
  assumes "ws_reachable R \<sigma>"
  shows "onMessageHandler R raw \<sigma> =
      (case parse_message R raw of
         Inl e \<Rightarrow> (Throw e, \<sigma>)
       | Inr r \<Rightarrow> (Return (), \<sigma>\<lparr>received := received \<sigma> @ map (\<lambda>c. (c, r)) (message_callbacks \<sigma>)\<rparr>))"
proof -
  have inv: "listener_inv \<sigma>" using ws_reachable_inv [OF assms] by (simp add: ws_inv_def)
  have "\<forall>l \<in> set (listeners ON_MESSAGE (table \<sigma>)). (\<forall>d. l \<noteq> ResHandler d) \<and> (\<forall>d. l \<noteq> ErrHandler d)"
  proof -
    have "ON_MESSAGE \<noteq> ON_ERROR" "ON_MESSAGE \<noteq> ON_CLOSED" by (simp_all add: event_names)
    then show ?thesis using inv unfolding listener_inv_def by blast
  qed
  from fold_received [OF this]
  have "emit_event ON_MESSAGE (Received r) \<sigma> =
      \<sigma>\<lparr>received := received \<sigma> @ map (\<lambda>c. (c, r)) (message_callbacks \<sigma>)\<rparr>" for r
    by (simp add: emit_event_eq [OF inv] message_callbacks_def)
  then show ?thesis by (simp add: onMessageHandler_def split: sum.splits)
qed

text \<open>
  Incoming messages: in every reachable state, data that parses reaches every message callback
  registered so far exactly once, in the order of registration, and changes nothing else; data that
  does not parse throws and reaches nobody. \<open>disconnect\<close> keeps all these callbacks, so a client that
  registers its callback at every start gets each message several times after a restart.
\<close>

theorem message_delivery:
  assumes "ws_reachable R \<sigma>"
  shows "onMessageHandler R raw \<sigma> =
      (case parse_message R raw of
         Inl e \<Rightarrow> (Throw e, \<sigma>)
       | Inr r \<Rightarrow> (Return (), \<sigma>\<lparr>received := received \<sigma> @ map (\<lambda>c. (c, r)) (message_callbacks \<sigma>)\<rparr>))
    \<and> message_callbacks (ws_onMessage c \<sigma>) = message_callbacks \<sigma> @ [c]
    \<and> message_callbacks (disconnect R b \<sigma>) = message_callbacks \<sigma>"
proof -
  have "listener_inv \<sigma>" using ws_reachable_inv [OF assms] by (simp add: ws_inv_def)
  from disconnect_message_listeners [OF this] message_received [OF assms] show ?thesis
    by (simp add: message_callbacks_def ws_onMessage_def on_listeners)
qed

theorem message_delivery_witness:
  "message_callbacks (disconnect list_runtime True (ws_onMessage 3 (connected_ws LEAVE_OPEN)))
     = message_callbacks (connected_ws LEAVE_OPEN) @ [3]"
proof -
  have "ws_reachable list_runtime (ws_onMessage 3 (connected_ws LEAVE_OPEN))"
    by (rule ws_reachable.step [OF connected_ws_reachable, where e = "Do_onMessage 3"]) simp
  from message_delivery [OF this, where b = True] message_delivery [OF connected_ws_reachable [of LEAVE_OPEN], where c = 3]
  show ?thesis by simp
qed

section \<open>Timers\<close>

lemma connecting_ws_reachable: "ws_reachable list_runtime connecting_ws"
  by (rule ws_reachable.step [OF connected_ws_reachable [of LEAVE_OPEN], where e = "Ws_ready 0 CONNECTING"])
     (simp add: connecting_ws_def)

lemma retrying_check:
  "ws_step R (Check k) \<sigma> \<noteq> None \<longleftrightarrow> Retry k \<in> set (pending_timers \<sigma>)"
  by (auto simp: pending_timers_def retry_timers_def retrying_def split: transmission_state.splits)

text \<open>
  C29. The armed timers of the transport, in every reachable state: at most one drain timer, whose handle is
  the stored one, and one retry timer for each message that waits for its socket. No other timer can
  fire. \<open>disconnect()\<close> clears the drain timer and leaves every retry timer armed. The heartbeat, which the
  configuration's \<open>pingInterval\<close> is for, never starts: no code calls \<open>heartBeatCheck\<close>, so none of its timers is
  armed and no ping is ever sent.
\<close>

theorem armed_timers_exact:
  assumes "ws_reachable R \<sigma>"
  shows "pending_timers \<sigma> = (case drainTimeoutHandle \<sigma> of None \<Rightarrow> [] | Some h \<Rightarrow> [Held h Drain_timer])
      @ retry_timers (transmissions \<sigma>)
    \<and> (\<forall>h. ws_step R (Ws_timeout h) \<sigma> \<noteq> None \<longleftrightarrow> drainTimeoutHandle \<sigma> = Some h)
    \<and> (\<forall>k. ws_step R (Check k) \<sigma> \<noteq> None \<longleftrightarrow> Retry k \<in> set (pending_timers \<sigma>))
    \<and> pending_timers (disconnect R b \<sigma>) = retry_timers (transmissions \<sigma>)
    \<and> hearBeatHandle \<sigma> = None \<and> (\<forall>n. Ping n \<notin> set (calls \<sigma>))"
proof -
  have inv: "timer_inv \<sigma>" using ws_reachable_inv [OF assms] by (simp add: ws_inv_def)
  then have t: "timers \<sigma> = (case drainTimeoutHandle \<sigma> of None \<Rightarrow> [] | Some h \<Rightarrow> [(h, Drain_timer)])"
    and h: "no_heartbeat \<sigma>" by (simp_all add: timer_inv_def)
  have "pending_timers (disconnect R b \<sigma>) = retry_timers (transmissions \<sigma>)"
    using disconnect_timers(1) [OF timer_inv_held [OF inv] h] by (simp add: pending_timers_def)
  moreover have "ws_step R (Ws_timeout i) \<sigma> \<noteq> None \<longleftrightarrow> drainTimeoutHandle \<sigma> = Some i" for i
    by (auto simp: t split: option.splits)
  ultimately show ?thesis
    using t h retrying_check [of R _ \<sigma>]
    by (auto simp: pending_timers_def no_heartbeat_def simp del: ws_step.simps split: option.splits)
qed

text \<open>A message that waits for its socket when the transport is disconnected: its retry timer fires later.\<close>

theorem armed_timers_exact_witness:
  "\<exists>\<sigma>. ws_exec list_runtime [Work 5] connecting_ws = Some \<sigma>
    \<and> pending_timers (disconnect list_runtime True \<sigma>) = [Retry 0]
    \<and> ws_step list_runtime (Check 0) \<sigma> \<noteq> None \<and> hearBeatHandle \<sigma> = None"
proof -
  let ?\<sigma> = "transmit list_runtime 5 connecting_ws"
  have r: "ws_reachable list_runtime ?\<sigma>"
    by (rule ws_reachable.step [OF connecting_ws_reachable, where e = "Work 5"]) simp
  have t: "retry_timers (transmissions ?\<sigma>) = [Retry 0]"
    by (simp add: transmit_def waitForSocketConnection_def set_transmission_def retry_timers_def retrying_def Let_def)
  from armed_timers_exact [OF r, of True] t show ?thesis
    by (auto simp: pending_timers_def simp del: ws_step.simps(10))
qed

end
