(* ===== verification/Ws_Interface.thy ===== *)
theory Ws_Interface
  imports Ws_Properties
begin

text \<open>
  \<open>packages/transport/src/transport.ts\<close>: what the clients of an \<open>ITransport\<close> rely on, as the locale
  \<open>itransport\<close>, and the proof that \<open>WsTransport\<close> provides it.
\<close>

section \<open>The interface\<close>

text \<open>
  The operations of an \<open>ITransport\<close> with the state \<open>'t\<close>. \<open>connect\<close> is given the configuration and, as the
  options of a connection, the session and the domain; callbacks are numbers.
\<close>

record ('t, 'send) ITransport =
  it_isConnected :: "'t \<Rightarrow> bool"
  it_connect :: "ws_config \<Rightarrow> connection_opts \<Rightarrow> 't \<Rightarrow> 't"
  it_disconnect :: "'t \<Rightarrow> 't"
  it_sendMessage :: "'send \<Rightarrow> 't \<Rightarrow> 't"
  it_onMessage :: "nat \<Rightarrow> 't \<Rightarrow> 't"
  it_onError :: "nat \<Rightarrow> 't \<Rightarrow> 't"

text \<open>What changes the state without registering a message callback.\<close>

definition transport_operation :: "('t, 'send) ITransport \<Rightarrow> ('t \<Rightarrow> 't) \<Rightarrow> bool" where
  "transport_operation T f \<longleftrightarrow>
     (\<exists>config opts. f = it_connect T config opts) \<or> f = it_disconnect T \<or>
     (\<exists>obj. f = it_sendMessage T obj) \<or> (\<exists>cb. f = it_onError T cb)"

lemma transport_operations [intro, simp]:
  "transport_operation T (it_connect T config opts)" "transport_operation T (it_disconnect T)"
  "transport_operation T (it_sendMessage T obj)" "transport_operation T (it_onError T cb)"
  by (auto simp: transport_operation_def)

text \<open>
  Besides the operations, a transport has events of its own. Callbacks are registered for good and in
  order; no other operation registers, removes or calls any; an event of the transport hands at most
  one message to the callbacks, the same to each, once and in order; \<open>disconnect\<close> ends the connection.
\<close>

locale itransport =
  fixes T :: "('t, 'send) ITransport"
    and event :: "'t \<Rightarrow> 't \<Rightarrow> bool"
    and callbacks :: "'t \<Rightarrow> nat list"
    and inbox :: "'t \<Rightarrow> (nat \<times> 'r) list"
    and ok :: "'t \<Rightarrow> bool"
  assumes registered: "ok t \<Longrightarrow> ok (it_onMessage T c t) \<and> callbacks (it_onMessage T c t) = callbacks t @ [c]
      \<and> inbox (it_onMessage T c t) = inbox t"
    and disconnected: "ok t \<Longrightarrow> \<not> it_isConnected T (it_disconnect T t)"
    and operated: "ok t \<Longrightarrow> transport_operation T f \<Longrightarrow> ok (f t) \<and> callbacks (f t) = callbacks t \<and> inbox (f t) = inbox t"
    and happened: "ok t \<Longrightarrow> event t t' \<Longrightarrow> ok t' \<and> callbacks t' = callbacks t
      \<and> (\<exists>vs. length vs \<le> 1 \<and> inbox t' = inbox t @ concat (map (\<lambda>v. map (\<lambda>c. (c, v)) (callbacks t)) vs))"
begin

text \<open>The message an event of the transport delivers, if any, and to how many callbacks.\<close>

lemma delivery:
  assumes "ok t" and "event t t'" and "drop (length (inbox t)) (inbox t') = (c, v) # rest"
  shows "drop (length (inbox t)) (inbox t') = map (\<lambda>c. (c, v)) (callbacks t)"
proof -
  obtain vs where vs: "length vs \<le> 1" "inbox t' = inbox t @ concat (map (\<lambda>v. map (\<lambda>c. (c, v)) (callbacks t)) vs)"
    using happened [OF assms(1,2)] by blast
  then show ?thesis using assms(3) by (cases vs; cases "callbacks t") auto
qed

text \<open>Any sequence of operations and events keeps the callbacks.\<close>

inductive keeps :: "'t \<Rightarrow> 't \<Rightarrow> bool" where
  keeps_refl: "keeps t t"
| keeps_operation: "keeps t u \<Longrightarrow> transport_operation T f \<Longrightarrow> keeps t (f u)"
| keeps_event: "keeps t u \<Longrightarrow> event u u' \<Longrightarrow> keeps t u'"

lemma kept: "keeps t u \<Longrightarrow> ok t \<Longrightarrow> ok u \<and> callbacks u = callbacks t"
  by (induction rule: keeps.induct) (use operated happened in auto)

end

section \<open>What \<open>WsTransport\<close> leaves alone\<close>

text \<open>Only incoming messages call message callbacks, and nothing removes one.\<close>

definition quiet :: "('q, 'm, 'r) ws_transport \<Rightarrow> ('q, 'm, 'r) ws_transport \<Rightarrow> bool" where
  "quiet \<sigma> \<sigma>' \<longleftrightarrow> received \<sigma>' = received \<sigma> \<and> listeners ON_MESSAGE (table \<sigma>') = listeners ON_MESSAGE (table \<sigma>)"

lemma quiet_refl [simp]: "quiet \<sigma> \<sigma>"
  by (simp add: quiet_def)

lemma quiet_trans [trans]: "quiet \<sigma> \<sigma>1 \<Longrightarrow> quiet \<sigma>1 \<sigma>2 \<Longrightarrow> quiet \<sigma> \<sigma>2"
  by (simp add: quiet_def)

lemma quiet_frame: "table \<sigma>' = table \<sigma> \<Longrightarrow> received \<sigma>' = received \<sigma> \<Longrightarrow> quiet \<sigma> \<sigma>'"
  by (simp add: quiet_def)

lemma quiet_callbacks: "quiet \<sigma> \<sigma>' \<Longrightarrow> message_callbacks \<sigma>' = message_callbacks \<sigma> \<and> received \<sigma>' = received \<sigma>"
  by (simp add: quiet_def message_callbacks_def)

lemma on_message_distinct [simp]:
  "ON_MESSAGE \<noteq> ON_ERROR" "ON_MESSAGE \<noteq> ON_CONNECTED" "ON_MESSAGE \<noteq> ON_CLOSED"
  by (simp_all add: event_names)

lemma invoke_received: "\<forall>r. p \<noteq> Received r \<Longrightarrow> received (invoke p l \<sigma>) = received \<sigma>"
  by (cases l; cases p; simp add: cleanup_def)

lemma fold_invoke_received: "\<forall>r. p \<noteq> Received r \<Longrightarrow> received (fold (invoke p) ls \<sigma>) = received \<sigma>"
  by (induction ls arbitrary: \<sigma>) (simp_all add: invoke_received)

lemma quiet_emit:
  assumes "listener_inv \<sigma>" and "ev \<noteq> ''error''" and "\<forall>r. p \<noteq> Received r"
  shows "quiet \<sigma> (emit_event ev p \<sigma>)"
  using assms by (simp add: quiet_def emit_event_eq fold_invoke_received listeners_def fold_invoke_handlers)

lemma clear_received [simp]: "received (clearBeat \<sigma>) = received \<sigma>" "received (clearDrain \<sigma>) = received \<sigma>"
  by (simp_all add: clearBeat_def clearDrain_def ws_clearTimeout_def split: option.splits)

lemma drainHandler_received [simp]: "received (drainHandler \<sigma>) = received \<sigma>"
  by (simp add: drainHandler_def Let_def ws_setTimeout_def)

lemma frame_received [simp]:
  "received (flush R b \<sigma>) = received \<sigma>" "received (remove_references \<sigma>) = received \<sigma>"
  "received (registered \<sigma>) = received \<sigma>" "received (pause R \<sigma>) = received \<sigma>"
  "received (set_transmission k st \<sigma>) = received \<sigma>"
  by (simp_all add: flush_def remove_references_def registered_def pause_def set_transmission_def split: option.splits)

lemma quiet_closed: "listener_inv \<sigma> \<Longrightarrow> quiet \<sigma> (onClosedHandler R \<sigma>)"
  unfolding onClosedHandler_def
  by (rule quiet_trans [OF quiet_frame quiet_emit]) (simp_all add: pause_def)

lemma quiet_error: "listener_inv \<sigma> \<Longrightarrow> quiet \<sigma> (onErrorHandler R e \<sigma>)"
  unfolding onErrorHandler_def
  by (rule quiet_trans [OF quiet_frame quiet_emit]) (simp_all add: pause_def)

lemma quiet_connected: "listener_inv \<sigma> \<Longrightarrow> quiet \<sigma> (onConnectedHandler R \<sigma>)"
  unfolding onConnectedHandler_def resume_queue_def
  by (rule quiet_trans [OF quiet_emit quiet_frame]) simp_all

lemma quiet_disconnect:
  assumes "listener_inv \<sigma>"
  shows "quiet \<sigma> (disconnect R b \<sigma>)"
proof -
  let ?\<sigma>1 = "registered (flush R b \<sigma>)"
  have "quiet \<sigma> ?\<sigma>1" by (simp add: quiet_def registered_def on_listeners)
  moreover have "listener_inv ?\<sigma>1" using assms by (simp add: listener_inv_registered)
  then have "quiet ?\<sigma>1 (onClosedHandler R ?\<sigma>1)" by (rule quiet_closed)
  moreover have "quiet ?\<sigma>1 (?\<sigma>1\<lparr>calls := cs\<rparr>)" for cs by (simp add: quiet_frame)
  ultimately show ?thesis by (auto simp: disconnect_eq Let_def intro: quiet_trans split: option.splits)
qed

lemma quiet_open_socket:
  assumes "listener_inv \<sigma>"
  shows "quiet \<sigma> (open_socket R c f opts \<sigma>)"
proof (cases "ws_refuses R (endpoint f opts) (headers f opts)")
  case None
  show ?thesis
    unfolding open_socket_def Let_def None option.case
    by (rule quiet_trans [OF quiet_frame quiet_emit]) (use assms in \<open>simp_all add: listener_inv_def\<close>)
qed (simp add: open_socket_def Let_def quiet_def)

lemma quiet_connect:
  assumes "listener_inv \<sigma>"
  shows "quiet \<sigma> (connect R config opts \<sigma>)"
proof -
  define \<sigma>1 where "\<sigma>1 = \<sigma>\<lparr>conf := Some (adjustConfByConnectionStrategy config),
      sendingQueue := Some (length (queues \<sigma>)), queues := queues \<sigma> @ [aq_create R]\<rparr>"
  have q: "quiet \<sigma> \<sigma>1" "listener_inv \<sigma>1" using assms by (simp_all add: \<sigma>1_def quiet_def listener_inv_def)
  show ?thesis
  proof (cases "isConnected \<sigma>1")
    case True
    have "quiet \<sigma> (disconnect R True \<sigma>1)" using q(1) quiet_disconnect [OF q(2)] by (rule quiet_trans)
    then show ?thesis using True by (simp add: connect_def Let_def \<sigma>1_def [symmetric]) (simp add: quiet_def)
  next
    case False
    let ?\<sigma>2 = "\<sigma>1\<lparr>connects := connects \<sigma>1 @ [Opening 0]\<rparr>"
    have "quiet \<sigma> ?\<sigma>2" using q(1) by (simp add: quiet_def)
    also have "quiet ?\<sigma>2 (open_socket R (length (connects \<sigma>)) (connectionFactory config) opts ?\<sigma>2)"
      using q(2) by (simp add: quiet_open_socket)
    finally show ?thesis using False by (simp add: connect_def Let_def \<sigma>1_def [symmetric])
  qed
qed

lemma quiet_socket_waited: "quiet \<sigma> (socket_waited R k e \<sigma>)"
  by (auto simp: socket_waited_def Let_def quiet_def split: option.splits)

lemma quiet_wait: "quiet \<sigma> (waitForSocketConnection R k r \<sigma>)"
  using quiet_socket_waited quiet_frame [of "set_transmission k (Polling r) \<sigma>" \<sigma>]
  by (auto simp: waitForSocketConnection_def)

lemma quiet_transmit: "quiet \<sigma> (transmit R m \<sigma>)"
proof (cases "ws \<sigma>")
  case (Some n)
  let ?\<sigma>1 = "\<sigma>\<lparr>transmissions := transmissions \<sigma> @ [\<lparr>tr_message = m, tr_socket = n, tr_state = Sending\<rparr>]\<rparr>"
  have "quiet \<sigma> ?\<sigma>1" by (simp add: quiet_frame)
  also have "quiet ?\<sigma>1 (waitForSocketConnection R (length (transmissions \<sigma>)) (retries_in_use \<sigma>) ?\<sigma>1)"
    by (rule quiet_wait)
  finally show ?thesis using Some by (simp add: transmit_def Let_def)
qed (simp add: transmit_def Let_def quiet_def)

lemma quiet_send: "quiet \<sigma> (ws_sendMessage R m \<sigma>)"
  by (simp add: ws_sendMessage_def sendMessages_def sendWithCb_def quiet_def split: option.splits)

text \<open>The events of the transport itself, without the calls of its user.\<close>

fun own_event :: "'m ws_event \<Rightarrow> bool" where
  "own_event (Do_connect _ _) = False"
| "own_event (Do_disconnect _) = False"
| "own_event (Do_send _) = False"
| "own_event (Do_onMessage _) = False"
| "own_event (Do_onError _) = False"
| "own_event _ = True"

lemma listener_inv_in_state [simp]: "listener_inv (in_state n st \<sigma>) = listener_inv \<sigma>"
  by (rule listener_inv_cong) (simp_all add: in_state_def)

lemma quiet_in_state: "quiet \<sigma> (in_state n st \<sigma>)"
  by (simp add: in_state_def quiet_frame)

lemma quiet_continue:
  assumes "listener_inv \<sigma>" and "continue_connect R c \<sigma> = Some \<sigma>'"
  shows "quiet \<sigma> \<sigma>'"
  using assms
  by (auto simp: continue_connect_def quiet_open_socket quiet_frame split: if_splits connecting.splits settled.splits)

lemma quiet_fired:
  assumes "ws_inv \<sigma>" and "map_of (timers \<sigma>) h = Some t"
  shows "quiet \<sigma> (fire_timer R t (\<sigma>\<lparr>timers := del h (timers \<sigma>)\<rparr>))"
proof -
  have "t = Drain_timer" using assms by (auto simp: ws_inv_def timer_inv_def split: option.splits if_splits)
  moreover have "listener_inv (\<sigma>\<lparr>timers := del h (timers \<sigma>)\<rparr>)"
    using assms(1) by (simp add: ws_inv_def listener_inv_def)
  then have "quiet (\<sigma>\<lparr>timers := del h (timers \<sigma>)\<rparr>) (disconnect R True (\<sigma>\<lparr>timers := del h (timers \<sigma>)\<rparr>))"
    by (rule quiet_disconnect)
  ultimately show ?thesis by (simp add: quiet_def)
qed

lemma quiet_pong: "ws_inv \<sigma> \<Longrightarrow> ws_pong n \<sigma> = \<sigma>"
  by (simp add: ws_pong_def ws_inv_def timer_inv_def no_heartbeat_def)

lemma own_event_quiet:
  assumes inv: "ws_inv \<sigma>" and "own_event e" and "ws_step R e \<sigma> = Some \<sigma>'" and "\<And>n d. e \<noteq> Ws_data n d"
  shows "quiet \<sigma> \<sigma>'"
proof -
  have l: "listener_inv \<sigma>" using inv by (simp add: ws_inv_def)
  note closed = quiet_trans [OF quiet_in_state quiet_closed]
  show ?thesis
  proof (cases e)
    case (Continue_connect c)
    then show ?thesis using quiet_continue [OF l] assms(3) by simp
  next
    case (Work m)
    then show ?thesis using quiet_transmit assms(3) by auto
  next
    case (Check k)
    then show ?thesis using quiet_wait assms(3) by (auto split: if_splits transmission_state.splits)
  next
    case (Ws_timeout h)
    then show ?thesis using quiet_fired [OF inv] assms(3) by (auto split: option.splits)
  next
    case (Ws_ready n st)
    then show ?thesis using quiet_in_state assms(3) by (auto split: if_splits)
  next
    case (Ws_open n)
    have "quiet \<sigma> (onConnectedHandler R (in_state n OPEN \<sigma>))"
      using l by (intro quiet_trans [OF quiet_in_state quiet_connected]) simp
    then show ?thesis using Ws_open assms(3) by (auto simp: ws_open_def Let_def quiet_def split: if_splits)
  next
    case (Ws_close n)
    then show ?thesis using closed l assms(3) by (auto split: if_splits)
  next
    case (Ws_error n err)
    then show ?thesis using quiet_error [OF l, of R err] assms(3)
      by (auto simp: ws_error_def Let_def quiet_def split: if_splits)
  next
    case (Ws_pong n)
    then show ?thesis using quiet_pong [OF inv] assms(3) by (auto split: if_splits)
  qed (use assms in \<open>auto simp: quiet_def split: if_splits\<close>)
qed

section \<open>\<open>WsTransport\<close> is a transport\<close>

definition ws_event_of :: "('q, 'm, 'r) runtime \<Rightarrow> ('q, 'm, 'r) ws_transport \<Rightarrow> ('q, 'm, 'r) ws_transport \<Rightarrow> bool" where
  "ws_event_of R \<sigma> \<sigma>' \<longleftrightarrow> (\<exists>e. own_event e \<and> ws_step R e \<sigma> = Some \<sigma>')"

definition ws_itransport :: "('q, 'm, 'r) runtime \<Rightarrow> (('q, 'm, 'r) ws_transport, 'm) ITransport" where
  "ws_itransport R = \<lparr>it_isConnected = isConnected, it_connect = connect R, it_disconnect = disconnect R True,
     it_sendMessage = ws_sendMessage R, it_onMessage = ws_onMessage, it_onError = ws_onError\<rparr>"

lemma ws_itransport_simps [simp]:
  "it_isConnected (ws_itransport R) = isConnected" "it_connect (ws_itransport R) = connect R"
  "it_disconnect (ws_itransport R) = disconnect R True" "it_sendMessage (ws_itransport R) = ws_sendMessage R"
  "it_onMessage (ws_itransport R) = ws_onMessage" "it_onError (ws_itransport R) = ws_onError"
  by (simp_all add: ws_itransport_def)

lemma ws_operations:
  "transport_operation (ws_itransport R) (connect R config opts)" "transport_operation (ws_itransport R) (disconnect R True)"
  "transport_operation (ws_itransport R) (ws_sendMessage R m)" "transport_operation (ws_itransport R) (ws_onError cb)"
  by (auto simp: transport_operation_def)

lemma ws_operation_step: "transport_operation (ws_itransport R) f \<Longrightarrow> \<exists>e. ws_step R e \<sigma> = Some (f \<sigma>)"
  unfolding transport_operation_def ws_itransport_simps ws_sendMessage_def
  by (elim disjE exE; simp) (metis ws_step.simps(1,3,4,6))+

interpretation wt: itransport "ws_itransport R" "ws_event_of R" message_callbacks received "ws_reachable R"
  for R :: "('q, 'm, 'r) runtime"
proof unfold_locales
  fix t :: "('q, 'm, 'r) ws_transport" and c
  assume r: "ws_reachable R t"
  have "ws_reachable R (ws_onMessage c t)" by (rule ws_reachable.step [OF r, where e = "Do_onMessage c"]) simp
  then show "ws_reachable R (it_onMessage (ws_itransport R) c t)
      \<and> message_callbacks (it_onMessage (ws_itransport R) c t) = message_callbacks t @ [c]
      \<and> received (it_onMessage (ws_itransport R) c t) = received t"
    by (simp add: ws_onMessage_def message_callbacks_def on_listeners)
next
  fix t :: "('q, 'm, 'r) ws_transport"
  show "\<not> it_isConnected (ws_itransport R) (it_disconnect (ws_itransport R) t)" by (simp add: isConnected_def)
next
  fix t :: "('q, 'm, 'r) ws_transport" and f
  assume r: "ws_reachable R t" and f: "transport_operation (ws_itransport R) f"
  have l: "listener_inv t" using ws_reachable_inv [OF r] by (simp add: ws_inv_def)
  have "quiet t (f t)"
    using f quiet_connect [OF l] quiet_disconnect [OF l]
    by (auto simp: transport_operation_def quiet_send) (simp add: quiet_def ws_onError_def on_listeners)
  moreover have "ws_reachable R (f t)" using ws_operation_step [OF f] ws_reachable.step [OF r] by blast
  ultimately show "ws_reachable R (f t) \<and> message_callbacks (f t) = message_callbacks t \<and> received (f t) = received t"
    by (simp add: quiet_callbacks)
next
  fix t t' :: "('q, 'm, 'r) ws_transport"
  assume r: "ws_reachable R t" and "ws_event_of R t t'"
  then obtain e where e: "own_event e" "ws_step R e t = Some t'" by (auto simp: ws_event_of_def)
  have r': "ws_reachable R t'" by (rule ws_reachable.step [OF r e(2)])
  show "ws_reachable R t' \<and> message_callbacks t' = message_callbacks t
      \<and> (\<exists>vs. length vs \<le> 1 \<and> received t' = received t @ concat (map (\<lambda>v. map (\<lambda>c. (c, v)) (message_callbacks t)) vs))"
  proof (cases "\<exists>n d. e = Ws_data n d")
    case True
    then obtain n d where "e = Ws_data n d" by blast
    then have t': "t' = snd (onMessageHandler R (message_text d) t)" using e(2) by (auto split: if_splits)
    show ?thesis
    proof (cases "parse_message R (message_text d)")
      case (Inl err)
      then show ?thesis using t' r' by (simp add: message_received [OF r]) (rule exI [of _ "[]"], simp)
    next
      case (Inr v)
      then show ?thesis using t' r'
        by (simp add: message_received [OF r]) (rule conjI, simp add: message_callbacks_def, rule exI [of _ "[v]"], simp)
    qed
  next
    case False
    then have "quiet t t'" using own_event_quiet [OF ws_reachable_inv [OF r] e] by blast
    then show ?thesis using r' by (simp add: quiet_callbacks) (rule exI [of _ "[]"], simp)
  qed
qed

end
