(* ===== verification/Json_Text.thy ===== *)
theory Json_Text
  imports Json
begin

text \<open>
  \<open>JSON.stringify\<close> as the code uses it (no replacer, no indentation), on JSON values.
\<close>

text \<open>Four hexadecimal digits.\<close>

definition hex_char :: "nat \<Rightarrow> char" where
  "hex_char d = char_of (if d < 10 then 48 + d else 87 + d)"

definition hex4 :: "nat \<Rightarrow> string" where
  "hex4 n = [hex_char (n div 4096 mod 16), hex_char (n div 256 mod 16), hex_char (n div 16 mod 16), hex_char (n mod 16)]"

text \<open>One character inside a string literal: the quote, the backslash and the control characters are
  escaped, five of them with a letter.\<close>

definition quote_char :: "char \<Rightarrow> string" where
  "quote_char c =
     (let n = of_char c :: nat
      in if n = 34 then [CHR 0x5C, CHR 0x22]
         else if n = 92 then [CHR 0x5C, CHR 0x5C]
         else if n = 8 then [CHR 0x5C, CHR ''b'']
         else if n = 9 then [CHR 0x5C, CHR ''t'']
         else if n = 10 then [CHR 0x5C, CHR ''n'']
         else if n = 12 then [CHR 0x5C, CHR ''f'']
         else if n = 13 then [CHR 0x5C, CHR ''r'']
         else if n < 32 then [CHR 0x5C, CHR ''u''] @ hex4 n
         else [c])"

definition quote_string :: "string \<Rightarrow> string" where
  "quote_string s = [CHR 0x22] @ concat (map quote_char s) @ [CHR 0x22]"

fun stringify :: "json \<Rightarrow> string" where
  "stringify JNull = ''null''"
| "stringify (JBool b) = (if b then ''true'' else ''false'')"
| "stringify (JNum n) = show_int n"
| "stringify (JStr s) = quote_string s"
| "stringify (JArr xs) = ''['' @ intercalate '','' (map stringify xs) @ '']''"
| "stringify (JObj ps) = ''{'' @ intercalate '','' (map (\<lambda>p. quote_string (fst p) @ '':'' @ stringify (snd p)) ps) @ ''}''"

text \<open>A string literal contains no bare quote: every quote inside it follows a backslash.\<close>

lemma quote_char_ne [simp]: "quote_char c \<noteq> []"
  by (simp add: quote_char_def Let_def)


end
