(* ===== verification/Json_Parse.thy ===== *)
theory Json_Parse
  imports Json_Text
begin

text \<open>
  \<open>JSON.parse\<close> on texts whose numbers are integers, and its round trip with \<open>JSON.stringify\<close>. A text is
  a list of 8-bit characters. The recursive functions take fuel; \<open>parse_json\<close> gives them more
  than any text of its length needs (\<open>parse_enough\<close>).
\<close>

section \<open>The parser\<close>

definition is_ws :: "char \<Rightarrow> bool" where
  "is_ws c \<longleftrightarrow> c \<in> {CHR 0x20, CHR 0x09, CHR 0x0A, CHR 0x0D}"

definition skip_ws :: "string \<Rightarrow> string" where
  "skip_ws s = dropWhile is_ws s"

definition is_digit :: "char \<Rightarrow> bool" where
  "is_digit c \<longleftrightarrow> (48 :: nat) \<le> of_char c \<and> (of_char c :: nat) \<le> 57"

definition digits_value :: "string \<Rightarrow> nat" where
  "digits_value ds = foldl (\<lambda>n c. 10 * n + (of_char c - 48)) 0 ds"

definition parse_number :: "string \<Rightarrow> (json \<times> string) option" where
  "parse_number s =
     (let negative = (s \<noteq> [] \<and> hd s = CHR ''-'');
          t = (if negative then tl s else s);
          ds = takeWhile is_digit t
      in if ds = [] \<or> (hd ds = CHR ''0'' \<and> length ds > 1) then None
         else Some (JNum (if negative then - int (digits_value ds) else int (digits_value ds)), dropWhile is_digit t))"

definition hex_digit :: "char \<Rightarrow> nat option" where
  "hex_digit c =
     (let n = of_char c :: nat
      in if 48 \<le> n \<and> n \<le> 57 then Some (n - 48)
         else if 97 \<le> n \<and> n \<le> 102 then Some (n - 87)
         else if 65 \<le> n \<and> n \<le> 70 then Some (n - 55)
         else None)"

fun hex_value :: "string \<Rightarrow> nat option" where
  "hex_value [a, b, c, d] =
     (case (hex_digit a, hex_digit b, hex_digit c, hex_digit d) of
        (Some w, Some x, Some y, Some z) \<Rightarrow> Some (4096 * w + 256 * x + 16 * y + z)
      | _ \<Rightarrow> None)"
| "hex_value _ = None"

text \<open>What a one-letter escape stands for.\<close>

definition escape :: "char \<Rightarrow> char option" where
  "escape c = map_of
     [(CHR 0x22, CHR 0x22), (CHR 0x5C, CHR 0x5C), (CHR ''/'', CHR ''/''), (CHR ''b'', CHR 0x08), (CHR ''f'', CHR 0x0C),
      (CHR ''n'', CHR 0x0A), (CHR ''r'', CHR 0x0D), (CHR ''t'', CHR 0x09)] c"

definition consume :: "char \<Rightarrow> (string \<times> string) option \<Rightarrow> (string \<times> string) option" where
  "consume c r = map_option (\<lambda>(t, rest). (c # t, rest)) r"

text \<open>The rest of an escape sequence, after the backslash.\<close>

definition parse_escape :: "string \<Rightarrow> (char \<times> string) option" where
  "parse_escape s =
     (case s of
        [] \<Rightarrow> None
      | e # t \<Rightarrow>
          if e = CHR ''u''
          then (case hex_value (take 4 t) of None \<Rightarrow> None | Some n \<Rightarrow> Some (char_of n, drop 4 t))
          else (case escape e of None \<Rightarrow> None | Some x \<Rightarrow> Some (x, t)))"

lemma parse_escape_length [termination_simp]: "parse_escape s = Some (x, r) \<Longrightarrow> length r < length s"
  by (auto simp: parse_escape_def split: list.splits if_splits option.splits)

text \<open>The characters of a string literal after its opening quote.\<close>

fun parse_chars :: "string \<Rightarrow> (string \<times> string) option" where
  "parse_chars [] = None"
| "parse_chars (c # s) =
     (if c = CHR 0x22 then Some ([], s)
      else if c = CHR 0x5C then
        (case parse_escape s of None \<Rightarrow> None | Some (x, s') \<Rightarrow> consume x (parse_chars s'))
      else if (of_char c :: nat) < 32 then None
      else consume c (parse_chars s))"

text \<open>A literal name.\<close>

definition parse_word :: "string \<Rightarrow> json \<Rightarrow> string \<Rightarrow> (json \<times> string) option" where
  "parse_word w v s = (if startsWith s w then Some (v, drop (length w) s) else None)"

fun parse_value :: "nat \<Rightarrow> string \<Rightarrow> (json \<times> string) option"
  and parse_elements :: "nat \<Rightarrow> string \<Rightarrow> (json list \<times> string) option"
  and parse_members :: "nat \<Rightarrow> string \<Rightarrow> ((string \<times> json) list \<times> string) option" where
  "parse_value 0 s = None"
| "parse_value (Suc n) s =
     (case skip_ws s of
        [] \<Rightarrow> None
      | c # t \<Rightarrow>
          if c = CHR ''{'' then
            (case skip_ws t of
               [] \<Rightarrow> None
             | d # r \<Rightarrow>
                 if d = CHR ''}'' then Some (JObj [], r)
                 else map_option (\<lambda>(ps, rest). (JObj (assign [] ps), rest)) (parse_members n t))
          else if c = CHR ''['' then
            (case skip_ws t of
               [] \<Rightarrow> None
             | d # r \<Rightarrow>
                 if d = CHR '']'' then Some (JArr [], r)
                 else map_option (\<lambda>(xs, rest). (JArr xs, rest)) (parse_elements n t))
          else if c = CHR 0x22 then map_option (\<lambda>(x, rest). (JStr x, rest)) (parse_chars t)
          else if c = CHR ''n'' then parse_word ''null'' JNull (c # t)
          else if c = CHR ''t'' then parse_word ''true'' (JBool True) (c # t)
          else if c = CHR ''f'' then parse_word ''false'' (JBool False) (c # t)
          else parse_number (c # t))"
| "parse_elements 0 s = None"
| "parse_elements (Suc n) s =
     (case parse_value n s of
        None \<Rightarrow> None
      | Some (x, r) \<Rightarrow>
          (case skip_ws r of
             [] \<Rightarrow> None
           | c # r' \<Rightarrow>
               if c = CHR '']'' then Some ([x], r')
               else if c = CHR '','' then map_option (\<lambda>(xs, rest). (x # xs, rest)) (parse_elements n r')
               else None))"
| "parse_members 0 s = None"
| "parse_members (Suc n) s =
     (case skip_ws s of
        [] \<Rightarrow> None
      | q # t \<Rightarrow>
          if q \<noteq> CHR 0x22 then None
          else (case parse_chars t of
                  None \<Rightarrow> None
                | Some (k, t1) \<Rightarrow>
                    (case skip_ws t1 of
                       [] \<Rightarrow> None
                     | c # t2 \<Rightarrow>
                         if c \<noteq> CHR '':'' then None
                         else (case parse_value n t2 of
                                 None \<Rightarrow> None
                               | Some (x, r) \<Rightarrow>
                                   (case skip_ws r of
                                      [] \<Rightarrow> None
                                    | d # r' \<Rightarrow>
                                        if d = CHR ''}'' then Some ([(k, x)], r')
                                        else if d = CHR '','' then map_option (\<lambda>(ps, rest). ((k, x) # ps, rest)) (parse_members n r')
                                        else None)))))"

text \<open>\<open>JSON.parse(text)\<close>: a value, and nothing but white space after it.\<close>

definition parse_json :: "string \<Rightarrow> js_error + json" where
  "parse_json text =
     (case parse_value (2 * length text + 2) text of
        Some (v, rest) \<Rightarrow> if skip_ws rest = [] then Return v else Throw SyntaxError
      | None \<Rightarrow> Throw SyntaxError)"

section \<open>The fuel is enough\<close>

lemma skip_ws_length: "length (skip_ws s) \<le> length s"
  by (simp add: skip_ws_def length_dropWhile_le)

lemma skip_ws_Cons_length: "skip_ws s = c # t \<Longrightarrow> length t < length s"
  using skip_ws_length [of s] by simp

lemma parse_chars_length: "parse_chars s = Some (x, r) \<Longrightarrow> length r < length s"
proof (induction s arbitrary: x rule: parse_chars.induct)
  case (2 c s)
  show ?case
  proof (cases "c = CHR 0x5C")
    case True
    then obtain y s' where e: "parse_escape s = Some (y, s')" using 2(3) by (auto split: option.splits)
    obtain x' where "parse_chars s' = Some (x', r)" using 2(3) True e by (auto simp: consume_def)
    then show ?thesis using 2(1) [OF _ True e refl] parse_escape_length [OF e] True by fastforce
  next
    case False
    then show ?thesis using 2(2,3) by (fastforce simp: consume_def split: if_splits)
  qed
qed simp

lemma parse_number_length: "parse_number s = Some (v, r) \<Longrightarrow> length r < length s"
proof -
  assume a: "parse_number s = Some (v, r)"
  define t where "t = (if s \<noteq> [] \<and> hd s = CHR ''-'' then tl s else s)"
  from a have t: "takeWhile is_digit t \<noteq> []" "r = dropWhile is_digit t"
    by (auto simp: parse_number_def Let_def t_def split: if_splits)
  have "length (takeWhile is_digit t @ r) = length t" using t(2) by simp
  moreover have "length t \<le> length s" by (simp add: t_def)
  ultimately show ?thesis using t(1) by (cases "takeWhile is_digit t") auto
qed

lemma parse_word_length: "parse_word w x s = Some (v, r) \<Longrightarrow> w \<noteq> [] \<Longrightarrow> length r < length s"
  by (auto simp: parse_word_def startsWith_iff split: if_splits)

lemma parse_length:
  "parse_value n s = Some (v, r) \<Longrightarrow> length r < length s"
  "parse_elements n s = Some (xs, r) \<Longrightarrow> length r < length s"
  "parse_members n s = Some (ps, r) \<Longrightarrow> length r < length s"
proof (induction n s and n s and n s arbitrary: v r and xs r and ps r rule: parse_value_parse_elements_parse_members.induct)
  case (2 n s)
  then obtain c t where s: "skip_ws s = c # t" by (auto split: list.splits)
  have l: "length (c # t) \<le> length s" using skip_ws_length [of s] s by simp
  note w = parse_chars_length [of t] parse_number_length [of "c # t"] parse_word_length [of _ _ "c # t"]
  show ?case
    using 2(3) 2(1) [OF s] 2(2) [OF s] l w skip_ws_Cons_length [of t]
    by (fastforce simp: s split: list.splits if_splits)
next
  case (4 n s)
  then show ?case by (fastforce dest: skip_ws_Cons_length split: option.splits list.splits if_splits)
next
  case (6 n s)
  then show ?case
    by (fastforce dest: skip_ws_Cons_length parse_chars_length split: option.splits list.splits if_splits)
qed simp_all

lemma parse_stable:
  "(2 * length s + 1 \<le> n \<longrightarrow> n \<le> m \<longrightarrow> parse_value m s = parse_value n s)
   \<and> (2 * length s + 2 \<le> n \<longrightarrow> n \<le> m \<longrightarrow> parse_elements m s = parse_elements n s)
   \<and> (2 * length s + 2 \<le> n \<longrightarrow> n \<le> m \<longrightarrow> parse_members m s = parse_members n s)"
proof (induction n arbitrary: m s)
  case 0
  then show ?case by simp
next
  case (Suc n)
  show ?case
  proof (intro conjI impI)
    assume b: "2 * length s + 1 \<le> Suc n" "Suc n \<le> m"
    obtain k where m: "m = Suc k" "n \<le> k" using b(2) by (cases m) auto
    show "parse_value m s = parse_value (Suc n) s"
    proof (cases "skip_ws s")
      case Nil
      then show ?thesis by (simp add: m)
    next
      case (Cons c t)
      then have "2 * length t + 2 \<le> n" using b(1) skip_ws_Cons_length [OF Cons] by simp
      then have "parse_elements k t = parse_elements n t" "parse_members k t = parse_members n t"
        using Suc.IH [of t k] m(2) by blast+
      then show ?thesis by (simp add: m(1) Cons split: list.split)
    qed
  next
    assume b: "2 * length s + 2 \<le> Suc n" "Suc n \<le> m"
    obtain k where m: "m = Suc k" "n \<le> k" using b(2) by (cases m) auto
    have v: "parse_value k s = parse_value n s" using Suc.IH [of s k] b(1) m(2) by simp
    have e: "parse_elements k r' = parse_elements n r'" if "parse_value n s = Some (x, r)" "skip_ws r = c # r'" for x r c r'
      using Suc.IH [of r' k] b(1) m(2) parse_length(1) [OF that(1)] skip_ws_Cons_length [OF that(2)] by simp
    show "parse_elements m s = parse_elements (Suc n) s"
      by (simp add: m(1) v e split: option.split list.split)
  next
    assume b: "2 * length s + 2 \<le> Suc n" "Suc n \<le> m"
    obtain k where m: "m = Suc k" "n \<le> k" using b(2) by (cases m) auto
    show "parse_members m s = parse_members (Suc n) s"
    proof (cases "\<exists>t k t1 t2. skip_ws s = CHR 0x22 # t \<and> parse_chars t = Some (k, t1) \<and> skip_ws t1 = CHR '':'' # t2")
      case False
      then show ?thesis by (auto simp: m(1) split: option.split list.split)
    next
      case True
      then obtain t key t1 t2 where s: "skip_ws s = CHR 0x22 # t" "parse_chars t = Some (key, t1)" "skip_ws t1 = CHR '':'' # t2"
        by blast
      have l: "length t2 < length s"
        using skip_ws_Cons_length [OF s(1)] parse_chars_length [OF s(2)] skip_ws_Cons_length [OF s(3)] by simp
      have v: "parse_value k t2 = parse_value n t2" using Suc.IH [of t2 k] b(1) m(2) l by simp
      have e: "parse_members k r' = parse_members n r'" if "parse_value n t2 = Some (x, r)" "skip_ws r = c # r'" for x r c r'
        using Suc.IH [of r' k] b(1) m(2) l parse_length(1) [OF that(1)] skip_ws_Cons_length [OF that(2)] by simp
      show ?thesis by (simp add: m(1) s v e split: option.split list.split)
    qed
  qed
qed

text \<open>More fuel than \<open>parse_json\<close> gives changes nothing.\<close>

lemma parse_enough: "2 * length s + 1 \<le> n \<Longrightarrow> parse_value n s = parse_value (2 * length s + 2) s"
  using parse_stable [of s "2 * length s + 1" n] parse_stable [of s "2 * length s + 1" "2 * length s + 2"] by simp

section \<open>The parts of the round trip\<close>

lemma digit_char_digit: "d < 10 \<Longrightarrow> is_digit (digit_char d) \<and> of_char (digit_char d) = 48 + d"
  by (simp add: is_digit_def digit_char_def)

lemma digits_value_append: "digits_value (ds @ [c]) = 10 * digits_value ds + (of_char c - 48)"
  by (simp add: digits_value_def)

lemma show_nat_digits:
  "list_all is_digit (show_nat n) \<and> show_nat n \<noteq> [] \<and> digits_value (show_nat n) = n
   \<and> (hd (show_nat n) = CHR ''0'' \<longrightarrow> n = 0) \<and> (n < 10 \<longrightarrow> length (show_nat n) = 1)"
proof (induction n rule: show_nat.induct)
  case (1 n)
  show ?case
  proof (cases "n < 10")
    case True
    have s: "show_nat n = [digit_char n]" using True by (subst show_nat.simps) simp
    have "digit_char n = CHR ''0'' \<Longrightarrow> n = 0"
      using digit_char_digit [OF True] by simp
    then show ?thesis using True digit_char_digit [OF True] by (simp add: s digits_value_def)
  next
    case False
    have s: "show_nat n = show_nat (n div 10) @ [digit_char (n mod 10)]" using False by (subst show_nat.simps) simp
    have "n div 10 \<noteq> 0" using False by simp
    then show ?thesis
      using 1 [OF False] False digit_char_digit [of "n mod 10"] by (simp add: s digits_value_append)
  qed
qed

lemma parse_number_show:
  assumes "rest = [] \<or> \<not> is_digit (hd rest)"
  shows "parse_number (show_int i @ rest) = Some (JNum i, rest)"
proof -
  have n: "takeWhile is_digit (show_nat n @ rest) = show_nat n \<and> dropWhile is_digit (show_nat n @ rest) = rest" for n
    using show_nat_digits [of n] assms by (cases rest) (auto simp: takeWhile_append dropWhile_append list_all_iff)
  have z: "\<not> (hd (show_nat n) = CHR ''0'' \<and> 1 < length (show_nat n))" for n
    using show_nat_digits [of n] by (cases "n < 10") auto
  have h: "hd (show_nat n @ rest) \<noteq> CHR ''-''" for n
    using show_nat_digits [of n] by (cases "show_nat n") (auto simp: is_digit_def)
  have v: "digits_value (show_nat n) = n" "show_nat n \<noteq> []" for n
    using show_nat_digits [of n] by simp_all
  show ?thesis
  proof (cases "i < 0")
    case True
    then show ?thesis
      using n [of "nat (- i)"] z [of "nat (- i)"] v [of "nat (- i)"] by (simp add: parse_number_def show_int_def Let_def)
  next
    case False
    have "show_int i @ rest \<noteq> []" using v False by (simp add: show_int_def)
    then show ?thesis
      using False n [of "nat i"] z [of "nat i"] v [of "nat i"] h [of "nat i"]
      by (simp add: parse_number_def show_int_def Let_def)
  qed
qed

text \<open>Characters.\<close>

lemma hex_digit_char: "d < 16 \<Longrightarrow> hex_digit (hex_char d) = Some d"
  by (auto simp: hex_digit_def hex_char_def Let_def)

lemma hex_value_hex4: "n < 65536 \<Longrightarrow> hex_value (hex4 n) = Some n"
proof -
  assume n: "n < 65536"
  have "4096 * (n div 4096) + 256 * (n div 256 mod 16) + 16 * (n div 16 mod 16) + n mod 16 = n"
  proof -
    have "n div 256 = 16 * (n div 4096) + n div 256 mod 16"
      using div_mult_mod_eq [of "n div 256" 16] by (simp add: div_mult2_eq [symmetric])
    moreover have "n div 16 = 16 * (n div 256) + n div 16 mod 16"
      using div_mult_mod_eq [of "n div 16" 16] by (simp add: div_mult2_eq [symmetric])
    moreover have "n = 16 * (n div 16) + n mod 16" by simp
    ultimately show ?thesis by linarith
  qed
  moreover have "n div 4096 mod 16 = n div 4096" using n by simp
  moreover have "n div 4096 < 16" using n by simp
  ultimately show ?thesis by (simp add: hex4_def hex_digit_char)
qed

lemma of_char_codes:
  "(of_char c = (34 :: nat)) = (c = CHR 0x22)"
  "(of_char c = (92 :: nat)) = (c = CHR 0x5C)"
  "(of_char c = (8 :: nat)) = (c = CHR 0x08)"
  "(of_char c = (9 :: nat)) = (c = CHR 0x09)"
  "(of_char c = (10 :: nat)) = (c = CHR 0x0A)"
  "(of_char c = (12 :: nat)) = (c = CHR 0x0C)"
  "(of_char c = (13 :: nat)) = (c = CHR 0x0D)"
  unfolding of_char_eq_iff [where 'a = nat, symmetric] by simp_all

lemma parse_quote_char: "parse_chars (quote_char c @ s) = consume c (parse_chars s)"
proof -
  let ?n = "of_char c :: nat"
  consider "?n \<in> {34, 92, 8, 9, 10, 12, 13}" | "?n \<notin> {34, 92, 8, 9, 10, 12, 13}" "?n < 32"
    | "?n \<notin> {34, 92, 8, 9, 10, 12, 13}" "32 \<le> ?n" by linarith
  then show ?thesis
  proof cases
    case 1
    then have "c \<in> {CHR 0x22, CHR 0x5C, CHR 0x08, CHR 0x09, CHR 0x0A, CHR 0x0C, CHR 0x0D}"
      by (simp add: of_char_codes)
    then show ?thesis
      by (auto simp: quote_char_def Let_def parse_escape_def escape_def)
  next
    case 2
    have "hex_value (hex4 ?n) = Some ?n" using 2 by (intro hex_value_hex4) simp
    moreover have "take 4 (hex4 ?n @ s) = hex4 ?n" "drop 4 (hex4 ?n @ s) = s" by (simp_all add: hex4_def)
    ultimately show ?thesis using 2 by (simp add: quote_char_def Let_def parse_escape_def)
  next
    case 3
    then have "c \<noteq> CHR 0x22" "c \<noteq> CHR 0x5C" by auto
    then show ?thesis using 3 by (simp add: quote_char_def Let_def)
  qed
qed

lemma parse_quote_string: "parse_chars (concat (map quote_char x) @ CHR 0x22 # s) = Some (x, s)"
  by (induction x) (simp_all add: parse_quote_char consume_def)

section \<open>The round trip\<close>

text \<open>Values no parser and no program distinguishes from what they were: no object names a property twice.\<close>

fun well_formed :: "json \<Rightarrow> bool" where
  "well_formed (JArr xs) = list_all well_formed xs"
| "well_formed (JObj ps) = (distinct (map fst ps) \<and> list_all (\<lambda>p. well_formed (snd p)) ps)"
| "well_formed _ = True"

text \<open>What may follow a value inside a text.\<close>

definition closes :: "string \<Rightarrow> bool" where
  "closes rest \<longleftrightarrow> rest = [] \<or> hd rest \<in> {CHR '','', CHR '']'', CHR ''}''}"

lemma closes_simps [simp]:
  "closes []" "closes (CHR '','' # r)" "closes (CHR '']'' # r)" "closes (CHR ''}'' # r)"
  by (simp_all add: closes_def)

lemma closes_no_digit: "closes rest \<Longrightarrow> rest = [] \<or> \<not> is_digit (hd rest)"
  by (auto simp: closes_def is_digit_def)

lemma assign_fresh:
  "distinct (map fst (ps @ qs)) \<Longrightarrow> assign ps qs = ps @ qs"
proof (induction qs arbitrary: ps)
  case Nil
  then show ?case by simp
next
  case (Cons q qs)
  have "put (fst q) (snd q) ps = ps @ [q]" if "fst q \<notin> fst ` set ps"
    using that by (induction ps) auto
  then have "put (fst q) (snd q) ps = ps @ [q]" using Cons.prems by auto
  then show ?case using Cons by (cases q) simp
qed

text \<open>The first character of a text tells the parser the kind of value.\<close>

lemma show_int_first: "show_int i \<noteq> [] \<and> (is_digit (hd (show_int i)) \<or> hd (show_int i) = CHR ''-'')"
proof -
  have "show_nat n \<noteq> [] \<and> is_digit (hd (show_nat n))" for n
    using show_nat_digits [of n] by (cases "show_nat n") auto
  then show ?thesis by (simp add: show_int_def)
qed

definition starts_value :: "string \<Rightarrow> bool" where
  "starts_value s \<longleftrightarrow> s \<noteq> [] \<and> \<not> is_ws (hd s) \<and> hd s \<noteq> CHR '']'' \<and> hd s \<noteq> CHR ''}''"

lemma stringify_first: "starts_value (stringify j @ s)"
proof (cases j)
  case (JNum i)
  have "is_digit c \<or> c = CHR ''-'' \<Longrightarrow> \<not> is_ws c \<and> c \<noteq> CHR '']'' \<and> c \<noteq> CHR ''}''" for c
    by (auto simp: is_digit_def is_ws_def)
  then show ?thesis using JNum show_int_first [of i] by (simp add: starts_value_def)
qed (simp_all add: starts_value_def quote_string_def is_ws_def)

lemma skip_ws_nonspace: "\<not> is_ws c \<Longrightarrow> skip_ws (c # s) = c # s"
  by (simp add: skip_ws_def)

lemma skip_ws_punctuation [simp]:
  "skip_ws (CHR '','' # s) = CHR '','' # s" "skip_ws (CHR '']'' # s) = CHR '']'' # s"
  "skip_ws (CHR ''}'' # s) = CHR ''}'' # s" "skip_ws (CHR '':'' # s) = CHR '':'' # s"
  "skip_ws (CHR ''['' # s) = CHR ''['' # s" "skip_ws (CHR ''{'' # s) = CHR ''{'' # s"
  "skip_ws (CHR 0x22 # s) = CHR 0x22 # s"
  by (simp_all add: skip_ws_nonspace is_ws_def)

text \<open>Enough fuel parses the value's text back.\<close>

definition parses_back :: "json \<Rightarrow> bool" where
  "parses_back j \<longleftrightarrow> (\<forall>rest. closes rest \<longrightarrow> (\<exists>N. \<forall>n \<ge> N. parse_value n (stringify j @ rest) = Some (j, rest)))"

lemma parses_backD:
  "parses_back j \<Longrightarrow> closes rest \<Longrightarrow> \<exists>N. \<forall>n \<ge> N. parse_value n (stringify j @ rest) = Some (j, rest)"
  by (simp add: parses_back_def)

lemma Suc_leD_ex: "Suc N \<le> n \<Longrightarrow> \<exists>k. n = Suc k \<and> N \<le> k"
  by (cases n) auto

lemma elements_back:
  assumes "list_all parses_back xs" and "xs \<noteq> []"
  shows "\<exists>N. \<forall>n \<ge> N. parse_elements n (intercalate '','' (map stringify xs) @ CHR '']'' # rest) = Some (xs, rest)"
  using assms
proof (induction xs rule: induct_list012)
  case 1
  then show ?case by simp
next
  case (2 x)
  then obtain N where "\<forall>n \<ge> N. parse_value n (stringify x @ CHR '']'' # rest) = Some (x, CHR '']'' # rest)"
    using parses_backD [of x "CHR '']'' # rest"] by auto
  then have "parse_elements n (stringify x @ CHR '']'' # rest) = Some ([x], rest)" if "Suc N \<le> n" for n
    using Suc_leD_ex [OF that] by auto
  then show ?case by auto
next
  case (3 x y zs)
  let ?t = "intercalate '','' (map stringify (y # zs)) @ CHR '']'' # rest"
  obtain N where N: "\<forall>n \<ge> N. parse_value n (stringify x @ CHR '','' # ?t) = Some (x, CHR '','' # ?t)"
    using 3(3) parses_backD [of x "CHR '','' # ?t"] by auto
  obtain M where M: "\<forall>n \<ge> M. parse_elements n ?t = Some (y # zs, rest)"
    using 3(2) 3(3) by auto
  have "parse_elements n (stringify x @ CHR '','' # ?t) = Some (x # y # zs, rest)" if n: "Suc (max N M) \<le> n" for n
  proof -
    obtain k where k: "n = Suc k" "max N M \<le> k" using Suc_leD_ex [OF n] by blast
    have "parse_value k (stringify x @ CHR '','' # ?t) = Some (x, CHR '','' # ?t)" "parse_elements k ?t = Some (y # zs, rest)"
      using N M k(2) by auto
    then show ?thesis by (simp add: k(1))
  qed
  then show ?case by auto
qed

definition member_text :: "string \<times> json \<Rightarrow> string" where
  "member_text p = quote_string (fst p) @ '':'' @ stringify (snd p)"

lemma member_parse:
  assumes "parse_value k (stringify x @ d # rest) = Some (x, d # rest)" and "d = CHR '','' \<or> d = CHR ''}''"
  shows "parse_members (Suc k) (member_text (key, x) @ d # rest) =
    (if d = CHR ''}'' then Some ([(key, x)], rest)
     else map_option (\<lambda>(ps, r). ((key, x) # ps, r)) (parse_members k rest))"
  using assms by (auto simp: member_text_def quote_string_def parse_quote_string)

lemma members_back:
  assumes "list_all (\<lambda>p. parses_back (snd p)) ps" and "ps \<noteq> []"
  shows "\<exists>N. \<forall>n \<ge> N. parse_members n (intercalate '','' (map member_text ps) @ CHR ''}'' # rest) = Some (ps, rest)"
  using assms
proof (induction ps rule: induct_list012)
  case 1
  then show ?case by simp
next
  case (2 p)
  then obtain N where "\<forall>n \<ge> N. parse_value n (stringify (snd p) @ CHR ''}'' # rest) = Some (snd p, CHR ''}'' # rest)"
    using parses_backD [of "snd p" "CHR ''}'' # rest"] by auto
  then have "parse_members n (member_text p @ CHR ''}'' # rest) = Some ([p], rest)" if "Suc N \<le> n" for n
    using Suc_leD_ex [OF that] member_parse [of _ "snd p" "CHR ''}''" rest "fst p"] by auto
  then show ?case by auto
next
  case (3 p q ps)
  let ?t = "intercalate '','' (map member_text (q # ps)) @ CHR ''}'' # rest"
  obtain N where N: "\<forall>n \<ge> N. parse_value n (stringify (snd p) @ CHR '','' # ?t) = Some (snd p, CHR '','' # ?t)"
    using 3(3) parses_backD [of "snd p" "CHR '','' # ?t"] by auto
  obtain M where M: "\<forall>n \<ge> M. parse_members n ?t = Some (q # ps, rest)"
    using 3(2) 3(3) by auto
  have "parse_members n (member_text p @ CHR '','' # ?t) = Some (p # q # ps, rest)" if n: "Suc (max N M) \<le> n" for n
  proof -
    obtain k where k: "n = Suc k" "max N M \<le> k" using Suc_leD_ex [OF n] by blast
    have "parse_value k (stringify (snd p) @ CHR '','' # ?t) = Some (snd p, CHR '','' # ?t)" "parse_members k ?t = Some (q # ps, rest)"
      using N M k(2) by auto
    then show ?thesis using member_parse [of k "snd p" "CHR '',''" ?t "fst p"] by (simp add: k(1))
  qed
  then show ?case by auto
qed

lemma starts_value_skip: "starts_value s \<Longrightarrow> skip_ws s = s"
  by (cases s) (simp_all add: starts_value_def skip_ws_nonspace)

lemma array_back:
  assumes "list_all parses_back xs"
  shows "parses_back (JArr xs)"
  unfolding parses_back_def
proof (intro allI impI)
  fix rest assume "closes rest"
  show "\<exists>N. \<forall>n \<ge> N. parse_value n (stringify (JArr xs) @ rest) = Some (JArr xs, rest)"
  proof (cases xs)
    case Nil
    have "parse_value n (stringify (JArr xs) @ rest) = Some (JArr xs, rest)" if "1 \<le> n" for n
      using that Nil by (cases n) simp_all
    then show ?thesis by blast
  next
    case (Cons x ys)
    let ?t = "intercalate '','' (map stringify xs) @ CHR '']'' # rest"
    obtain N where N: "\<forall>n \<ge> N. parse_elements n ?t = Some (xs, rest)"
      using elements_back [OF assms, of rest] Cons by auto
    have "?t = stringify x @ (case ys of [] \<Rightarrow> CHR '']'' # rest | _ \<Rightarrow> CHR '','' # intercalate '','' (map stringify ys) @ CHR '']'' # rest)"
      using Cons by (cases ys) simp_all
    then have s: "starts_value ?t" by (metis stringify_first)
    then obtain d r where d: "?t = d # r" "d \<noteq> CHR '']''" by (cases ?t) (auto simp: starts_value_def)
    have "parse_value n (stringify (JArr xs) @ rest) = Some (JArr xs, rest)" if n: "Suc N \<le> n" for n
    proof -
      obtain k where k: "n = Suc k" "N \<le> k" using Suc_leD_ex [OF n] by blast
      have e: "parse_elements k ?t = Some (xs, rest)" using N k(2) by blast
      have t: "stringify (JArr xs) @ rest = CHR ''['' # ?t" by simp
      show ?thesis
        unfolding t k(1) parse_value.simps skip_ws_punctuation list.case starts_value_skip [OF s] e
        using d by simp
    qed
    then show ?thesis by blast
  qed
qed

lemma object_back:
  assumes "list_all (\<lambda>p. parses_back (snd p)) ps" and "distinct (map fst ps)"
  shows "parses_back (JObj ps)"
  unfolding parses_back_def
proof (intro allI impI)
  fix rest assume "closes rest"
  show "\<exists>N. \<forall>n \<ge> N. parse_value n (stringify (JObj ps) @ rest) = Some (JObj ps, rest)"
  proof (cases ps)
    case Nil
    have "parse_value n (stringify (JObj ps) @ rest) = Some (JObj ps, rest)" if "1 \<le> n" for n
      using that Nil by (cases n) simp_all
    then show ?thesis by blast
  next
    case (Cons p qs)
    let ?t = "intercalate '','' (map member_text ps) @ CHR ''}'' # rest"
    obtain N where N: "\<forall>n \<ge> N. parse_members n ?t = Some (ps, rest)"
      using members_back [OF assms(1), of rest] Cons by auto
    obtain r where r: "?t = CHR 0x22 # r"
      using Cons by (cases qs) (simp_all add: member_text_def quote_string_def)
    have "parse_value n (stringify (JObj ps) @ rest) = Some (JObj ps, rest)" if n: "Suc N \<le> n" for n
    proof -
      obtain k where k: "n = Suc k" "N \<le> k" using Suc_leD_ex [OF n] by blast
      have e: "parse_members k (CHR 0x22 # r) = Some (ps, rest)" using N k(2) r by metis
      have "stringify (JObj ps) @ rest = CHR ''{'' # ?t" by (simp add: member_text_def [abs_def])
      then have t: "stringify (JObj ps) @ rest = CHR ''{'' # CHR 0x22 # r" by (simp only: r)
      show ?thesis
        unfolding t k(1) using e assign_fresh [of "[]" ps] assms(2) by simp
    qed
    then show ?thesis by blast
  qed
qed

text \<open>A value that needs no further fuel.\<close>

lemma leaf_back:
  assumes "\<And>rest k. closes rest \<Longrightarrow> parse_value (Suc k) (stringify j @ rest) = Some (j, rest)"
  shows "parses_back j"
proof -
  have "parse_value n (stringify j @ rest) = Some (j, rest)" if "closes rest" "1 \<le> n" for n rest
    using assms [OF that(1), of "n - 1"] that(2) by simp
  then show ?thesis unfolding parses_back_def by blast
qed

lemma number_back: "parses_back (JNum i)"
proof (rule leaf_back)
  fix rest k assume c: "closes rest"
  obtain d ds where d: "show_int i = d # ds" using show_int_first [of i] by (cases "show_int i") auto
  then have "is_digit d \<or> d = CHR ''-''" using show_int_first [of i] by simp
  then have "\<not> is_ws d" "d \<noteq> CHR ''{''" "d \<noteq> CHR ''[''" "d \<noteq> CHR 0x22" "d \<noteq> CHR ''n''" "d \<noteq> CHR ''t''" "d \<noteq> CHR ''f''"
    by (auto simp: is_digit_def is_ws_def)
  then show "parse_value (Suc k) (stringify (JNum i) @ rest) = Some (JNum i, rest)"
    using parse_number_show [OF closes_no_digit [OF c], of i] d by (simp add: skip_ws_nonspace)
qed

lemma string_back: "parses_back (JStr s)"
  by (rule leaf_back) (simp add: quote_string_def parse_quote_string)

lemma word_back: "parses_back JNull" "parses_back (JBool b)"
  by (rule leaf_back, simp add: skip_ws_nonspace is_ws_def parse_word_def startsWith_def)
    (rule leaf_back, simp add: skip_ws_nonspace is_ws_def parse_word_def startsWith_def)

lemma well_formed_back: "well_formed j \<Longrightarrow> parses_back j"
proof (induction j)
  case (JArr xs)
  then show ?case by (intro array_back) (simp add: list_all_iff)
next
  case (JObj ps)
  have "list_all (\<lambda>p. parses_back (snd p)) ps"
    using JObj by (fastforce simp: list_all_iff snds.simps)
  then show ?case using JObj.prems by (intro object_back) simp_all
qed (simp_all add: word_back number_back string_back)

lemma parse_stringify: "well_formed j \<Longrightarrow> parse_json (stringify j) = Return j"
proof -
  assume "well_formed j"
  from parses_backD [OF well_formed_back [OF this], of "[]"] obtain N where
    "\<forall>n \<ge> N. parse_value n (stringify j) = Some (j, [])" by auto
  then have "parse_value (max N (2 * length (stringify j) + 1)) (stringify j) = Some (j, [])" by simp
  then have "parse_value (2 * length (stringify j) + 2) (stringify j) = Some (j, [])"
    by (subst (asm) parse_enough) simp_all
  then show ?thesis by (simp add: parse_json_def skip_ws_def)
qed

end
