(* ===== verification/Ws_Messages.thy ===== *)
theory Ws_Messages
  imports Ws_Properties Json_Parse
begin

text \<open>
  Messages from one \<open>WsTransport\<close> to another: what \<open>transmit\<close> writes into the socket and what the message
  handler of the other end makes of it.
\<close>

text \<open>\<open>this.ws.send(JSON.stringify(message), ...)\<close>: the text of a transmitted message.\<close>

definition frame :: "json \<Rightarrow> string" where
  "frame message = stringify message"

text \<open>The runtime's \<open>JSON.parse\<close>, as documented.\<close>

definition parses_json :: "('q, 'm, json) runtime \<Rightarrow> bool" where
  "parses_json R \<longleftrightarrow> (\<forall>j. well_formed j \<longrightarrow> parse_message R (stringify j) = Return j)"

text \<open>
  C30. Messages survive the connection: a message the queue worker transmits over an open socket is
  handed to that socket at once, and its text, received as a text or as a buffer by any transport that
  has a socket, is delivered to each message callback of that transport as the message itself, once and in the order of the
  callbacks.
\<close>

theorem message_round_trip:
  assumes "ws \<sigma> = Some n" and "readyState (sockets \<sigma> ! n) = OPEN" and "0 \<le> retries_in_use \<sigma>"
    and "parses_json R'" and "ws_reachable R' \<tau>" and "p < length (sockets \<tau>)" and "well_formed m"
  shows "\<exists>\<sigma>' \<tau>'. ws_step R (Work m) \<sigma> = Some \<sigma>' \<and> calls \<sigma>' = calls \<sigma> @ [Transmit n m]
    \<and> ws_step R' (Ws_data p (Text (frame m))) \<tau> = Some \<tau>'
    \<and> ws_step R' (Ws_data p (Buffer (frame m))) \<tau> = Some \<tau>'
    \<and> received \<tau>' = received \<tau> @ map (\<lambda>c. (c, m)) (message_callbacks \<tau>)"
proof -
  from transmit_sends_once [OF assms(1-3) refl, of R m None] obtain \<sigma>' where
    "ws_step R (Work m) \<sigma> = Some \<sigma>'" "calls \<sigma>' = calls \<sigma> @ [Transmit n m]" by blast
  moreover have "parse_message R' (frame m) = Return m"
    using assms(4,7) by (simp add: parses_json_def frame_def)
  ultimately show ?thesis using message_received [OF assms(5), of "frame m"] assms(6) by simp
qed

text \<open>A runtime with the reference parser and a list as the queue.\<close>

definition json_runtime :: "(bool \<times> json list, json, json) runtime" where
  "json_runtime =
     \<lparr>aq_create = (False, []), aq_push = (\<lambda>_ ms (p, q). (p, q @ ms)), aq_unshift = (\<lambda>m (p, q). (p, m # q)),
      aq_pause = (\<lambda>(p, q). (True, q)), aq_resume = (\<lambda>(p, q). (False, q)), aq_kill = (\<lambda>(p, q). (p, [])),
      aq_length = (\<lambda>(p, q). length q), ws_refuses = (\<lambda>_ _. None), parse_message = parse_json\<rparr>"

lemma json_runtime_parses: "parses_json json_runtime"
  by (simp add: parses_json_def json_runtime_def parse_stringify)

definition json_ws :: "(bool \<times> json list, json, json) ws_transport" where
  "json_ws = ws_onMessage 7 (ws_open json_runtime 0 (in_state 0 OPEN
     (connect json_runtime (sample_config LEAVE_OPEN 2) sample_opts new_transport)))"

lemma json_runtime_accepts [simp]: "ws_refuses json_runtime url hs = None"
  by (simp add: json_runtime_def)

lemma json_ws_simps [simp]:
  "ws json_ws = Some 0" "readyState (sockets json_ws ! 0) = OPEN" "length (sockets json_ws) = 1"
  "conf json_ws = Some (adjustConfByConnectionStrategy (sample_config LEAVE_OPEN 2))"
proof -
  define \<sigma>1 where "\<sigma>1 = connect json_runtime (sample_config LEAVE_OPEN 2) sample_opts new_transport"
  have s1: "ws \<sigma>1 = Some 0" "length (sockets \<sigma>1) = 1" "conf \<sigma>1 = Some (adjustConfByConnectionStrategy (sample_config LEAVE_OPEN 2))"
    by (simp_all add: \<sigma>1_def connect_def Let_def open_socket_fields)
  note f = ws_open_fields [of 0 \<sigma>1 json_runtime]
  show "ws json_ws = Some 0" "readyState (sockets json_ws ! 0) = OPEN" "length (sockets json_ws) = 1"
    "conf json_ws = Some (adjustConfByConnectionStrategy (sample_config LEAVE_OPEN 2))"
    unfolding json_ws_def \<sigma>1_def [symmetric] by (simp_all add: f s1 ws_onMessage_def)
qed

lemma json_ws_reachable: "ws_reachable json_runtime json_ws"
proof (rule ws_exec_reachable [OF ws_reachable.init])
  have "length (sockets (connect json_runtime (sample_config LEAVE_OPEN 2) sample_opts new_transport)) = 1"
    by (simp add: connect_def Let_def open_socket_fields)
  then show "ws_exec json_runtime [Do_connect (sample_config LEAVE_OPEN 2) sample_opts, Ws_open 0, Do_onMessage 7] new_transport = Some json_ws"
    by (simp add: json_ws_def)
qed

theorem message_round_trip_witness:
  "\<exists>\<tau>'. ws_step json_runtime (Ws_data 0 (Text (frame (JObj [(''id'', JStr ''a'')])))) json_ws = Some \<tau>'
    \<and> (7, JObj [(''id'', JStr ''a'')]) \<in> set (received \<tau>')"
proof -
  have r: "0 \<le> retries_in_use json_ws"
    by (simp add: retries_in_use_def adjustConfByConnectionStrategy_def sample_config_def ws_config_defs)
  have w: "well_formed (JObj [(''id'', JStr ''a'')])" by simp
  have c: "7 \<in> set (message_callbacks json_ws)"
    by (auto simp: message_callbacks_def json_ws_def ws_onMessage_def on_listeners)
  from message_round_trip [OF _ _ r json_runtime_parses json_ws_reachable _ w, of 0 0] c show ?thesis
    by (simp del: ws_step.simps) fastforce
qed

end
