(* ===== verification/Ums_Over_Ws.thy ===== *)
theory Ums_Over_Ws
  imports Ums_Properties Ums_Listeners Ws_Interface Ws_Messages
begin

text \<open>
  A \<open>UmsClient\<close> configured with a \<open>WsTransport\<close>: the client's calls on \<open>this.config.transport\<close>
  (\<open>packages/transport-client/src/client.ts\<close>) are the transport's operations, the promises of these
  calls are what the client waits for, and the messages the transport receives are the ones the
  client's callback gets.
\<close>

section \<open>State\<close>

text \<open>
  Of the client's configuration: the transport's configuration, and the options of a connection as
  the connection factory reads them from the session and the domain the client passes.
\<close>

record 's deployment =
  transportConfig :: ws_config
  connect_opts :: "'s option \<Rightarrow> js_value \<Rightarrow> connection_opts"

text \<open>
  \<open>attempt\<close> and \<open>closing\<close> are the numbers of the transport's promises the client has last asked for with
  \<open>connect\<close> and \<open>disconnect\<close>, \<open>posted\<close> the promise of the transport's \<open>sendMessage\<close> for each request that
  reached it.
\<close>

record ('s, 'n, 'q) linked =
  app :: "('s, 'n) ums"
  wire :: "('q, json, json) ws_transport"
  attempt :: nat
  closing :: nat
  posted :: "(nat \<times> nat) list"

definition new_linked :: "('s, 'n, 'q) linked" where
  "new_linked = \<lparr>app = new_ums, wire = new_transport, attempt = 0, closing = 0, posted = []\<rparr>"

abbreviation client_of :: "('s, 'n, 'q) linked \<Rightarrow> ('s, 'n) client" where
  "client_of L \<equiv> ums_this (app L)"

section \<open>The client's calls on its transport\<close>

text \<open>The connection the code in flight is waiting for, if any, and whether it waits for a disconnect.\<close>

fun awaited_connect :: "'s task list \<Rightarrow> ('s option \<times> js_value) option" where
  "awaited_connect [] = None"
| "awaited_connect ((org, c, is) # ts) =
     (case c of C_connect sess v \<Rightarrow> Some (sess, v) | _ \<Rightarrow> awaited_connect ts)"

definition awaits_disconnect :: "'s task list \<Rightarrow> bool" where
  "awaits_disconnect ts \<longleftrightarrow> list_ex (\<lambda>(org, c, is). case c of C_disconnect \<Rightarrow> True | _ \<Rightarrow> False) ts"

text \<open>
  What a step of the life cycle has called on the transport: \<open>onError\<close> and \<open>onMessage\<close> for a listener it
  registered, \<open>connect\<close> and \<open>disconnect\<close> when it came to wait for them.
\<close>

definition register_listeners :: "('s, 'n) client \<Rightarrow> ('s, 'n) client \<Rightarrow> ('q, 'm, 'r) ws_transport \<Rightarrow> ('q, 'm, 'r) ws_transport" where
  "register_listeners s s' =
     (if msg_listeners s < msg_listeners s' then ws_onMessage 0 else id) \<circ>
     (if err_listeners s < err_listeners s' then ws_onError 0 else id)"

definition called_transport ::
  "'s deployment \<Rightarrow> ('q, json, json) runtime \<Rightarrow> ('s, 'n) sys \<Rightarrow> ('s, 'n, 'q) linked \<Rightarrow> ('s, 'n, 'q) linked" where
  "called_transport D R \<sigma> L =
     (let \<sigma>' = core (app L); w = register_listeners (this \<sigma>) (this \<sigma>') (wire L)
      in case (awaited_connect (tasks \<sigma>), awaited_connect (tasks \<sigma>')) of
           (None, Some (sess, v)) \<Rightarrow>
             L\<lparr>wire := connect R (transportConfig D) (connect_opts D sess v) w, attempt := length (connects w)\<rparr>
         | _ \<Rightarrow>
             (if \<not> awaits_disconnect (tasks \<sigma>) \<and> awaits_disconnect (tasks \<sigma>')
              then L\<lparr>wire := disconnect R True w, closing := length (disconnects w)\<rparr>
              else L\<lparr>wire := w\<rparr>))"

text \<open>The answers of these two calls are the transport's.\<close>

fun transport_replies :: "('s, 'n, 'q) linked \<Rightarrow> 's call \<Rightarrow> 's reply \<Rightarrow> bool" where
  "transport_replies L (C_connect sess v) r =
     (case connects (wire L) ! attempt L of
        Connect_done \<Rightarrow> (case r of R_done \<Rightarrow> True | _ \<Rightarrow> False)
      | Connect_failed e \<Rightarrow> (case r of Rejected e' \<Rightarrow> e' = e | _ \<Rightarrow> False)
      | _ \<Rightarrow> False)"
| "transport_replies L C_disconnect r =
     (case disconnects (wire L) ! closing L of
        Resolved \<Rightarrow> (case r of R_done \<Rightarrow> True | _ \<Rightarrow> False)
      | Rejected_with e \<Rightarrow> (case r of Rejected e' \<Rightarrow> e' = e | _ \<Rightarrow> False)
      | Pending \<Rightarrow> False)"
| "transport_replies L _ r = True"

fun life_possible :: "('s, 'n, 'q) linked \<Rightarrow> 's event \<Rightarrow> bool" where
  "life_possible L (Reply k r) =
     (k < length (tasks (core (app L))) \<longrightarrow> transport_replies L (fst (snd (tasks (core (app L)) ! k))) r)"
| "life_possible L _ = True"

text \<open>
  \<open>sendMessage(req)\<close>: \<open>umsRequest\<close> registers the listener and calls the transport's \<open>sendMessage\<close>, unless
  the client is not started.
\<close>

definition linked_sendMessage ::
  "('q, json, json) runtime \<Rightarrow> string \<Rightarrow> json \<Rightarrow> ('s, 'n, 'q) linked \<Rightarrow> (js_error + nat) \<times> ('s, 'n, 'q) linked" where
  "linked_sendMessage R i req L =
     (case ums_sendMessage i (app L) of
        (Inl e, a) \<Rightarrow> (Throw e, L)
      | (Inr k, a) \<Rightarrow>
          (Return k,
           if started (client_of L)
           then L\<lparr>app := a, wire := ws_sendMessage R req (wire L), posted := (k, length (sends (wire L))) # posted L\<rparr>
           else L\<lparr>app := a\<rparr>))"

text \<open>
  An event of the transport: its message callbacks are the client's, so a message it hands to them
  is delivered to the client, once for each.
\<close>

definition transport_event ::
  "('q, json, json) ws_transport \<Rightarrow> ('s, 'n, 'q) linked \<Rightarrow> ('s, 'n, 'q) linked" where
  "transport_event w L =
     L\<lparr>wire := w,
       app := (case drop (length (received (wire L))) (received w) of
                 [] \<Rightarrow> app L
               | (c, v) # others \<Rightarrow> snd (deliver (Suc (length others)) v (app L)))\<rparr>"

section \<open>Steps\<close>

datatype ('s, 'n) linked_event =
    Living "'s event"                 \<comment> \<open>a step of the life cycle\<close>
  | Request json                      \<comment> \<open>\<open>sendMessage\<close>\<close>
  | Refused nat                       \<comment> \<open>the transport's promise for a request is rejected\<close>
  | Request_timer nat
  | Request_catch nat
  | Subscribing string 'n
  | Transport "json ws_event"         \<comment> \<open>an event of the transport, its socket, queue and timers\<close>

fun linked_step ::
  "'s deployment \<Rightarrow> ('q, json, json) runtime \<Rightarrow> jsm \<Rightarrow> int \<Rightarrow> ('s, 'n) linked_event \<Rightarrow>
     ('s, 'n, 'q) linked \<Rightarrow> ('s, 'n, 'q) linked option" where
  "linked_step D R J timeout (Living e) L =
     (if life_possible L e
      then map_option (\<lambda>a. called_transport D R (core (app L)) (L\<lparr>app := a\<rparr>)) (ums_step J timeout (Life e) (app L))
      else None)"
| "linked_step D R J timeout (Request req) L =
     (case prop_of req ''id'' of
        Some (JStr i) \<Rightarrow> Some (snd (linked_sendMessage R i req L)) | _ \<Rightarrow> None)"
| "linked_step D R J timeout (Refused k) L =
     (case map_of (posted L) k of
        None \<Rightarrow> None
      | Some p \<Rightarrow>
          (case sends (wire L) ! p of
             Rejected_with e \<Rightarrow> map_option (\<lambda>a. L\<lparr>app := a\<rparr>) (ums_step J timeout (Send_failed k e) (app L))
           | _ \<Rightarrow> None))"
| "linked_step D R J timeout (Request_timer k) L =
     map_option (\<lambda>a. L\<lparr>app := a\<rparr>) (ums_step J timeout (Timer k) (app L))"
| "linked_step D R J timeout (Request_catch k) L =
     map_option (\<lambda>a. L\<lparr>app := a\<rparr>) (ums_step J timeout (Catch k) (app L))"
| "linked_step D R J timeout (Subscribing t cb) L =
     map_option (\<lambda>a. L\<lparr>app := a\<rparr>) (ums_step J timeout (Subscribe t cb) (app L))"
| "linked_step D R J timeout (Transport e) L =
     (if own_event e then map_option (\<lambda>w. transport_event w L) (ws_step R e (wire L)) else None)"

fun linked_exec ::
  "'s deployment \<Rightarrow> ('q, json, json) runtime \<Rightarrow> jsm \<Rightarrow> int \<Rightarrow> ('s, 'n) linked_event list \<Rightarrow>
     ('s, 'n, 'q) linked \<Rightarrow> ('s, 'n, 'q) linked option" where
  "linked_exec D R J timeout [] L = Some L"
| "linked_exec D R J timeout (e # es) L =
     (case linked_step D R J timeout e L of None \<Rightarrow> None | Some L' \<Rightarrow> linked_exec D R J timeout es L')"

inductive linked_reachable ::
  "'s deployment \<Rightarrow> ('q, json, json) runtime \<Rightarrow> jsm \<Rightarrow> int \<Rightarrow> ('s, 'n, 'q) linked \<Rightarrow> bool" for D R J timeout where
  init: "linked_reachable D R J timeout new_linked"
| step: "linked_reachable D R J timeout L \<Longrightarrow> linked_step D R J timeout e L = Some L' \<Longrightarrow>
     linked_reachable D R J timeout L'"

lemma linked_exec_reachable:
  "linked_reachable D R J timeout L \<Longrightarrow> linked_exec D R J timeout es L = Some L' \<Longrightarrow>
     linked_reachable D R J timeout L'"
  by (induction es arbitrary: L) (auto intro: linked_reachable.step split: option.splits)

section \<open>Each part runs as it does on its own\<close>

text \<open>The listeners registered by a step arrive at the transport.\<close>

lemma register_reachable:
  assumes "ws_reachable R w"
  shows "ws_reachable R (register_listeners s s' w)
    \<and> message_callbacks (register_listeners s s' w) = message_callbacks w @ (if msg_listeners s < msg_listeners s' then [0] else [])"
proof -
  let ?w = "(if err_listeners s < err_listeners s' then ws_onError 0 else id) w"
  from wt.operated [OF assms ws_operations(4)] have "ws_reachable R ?w \<and> message_callbacks ?w = message_callbacks w"
    using assms by simp
  then show ?thesis using wt.registered [of R ?w 0] by (simp add: register_listeners_def)
qed

lemma called_transport_reachable:
  assumes w: "ws_reachable R (wire L)"
    and n: "msg_listeners (client_of L) = msg_listeners (this \<sigma>) \<or> msg_listeners (client_of L) = Suc (msg_listeners (this \<sigma>))"
    and c: "message_callbacks (wire L) = replicate (msg_listeners (this \<sigma>)) 0"
  shows "ws_reachable R (wire (called_transport D R \<sigma> L))
    \<and> message_callbacks (wire (called_transport D R \<sigma> L)) = replicate (msg_listeners (client_of L)) 0
    \<and> app (called_transport D R \<sigma> L) = app L"
proof -
  define w' where "w' = register_listeners (this \<sigma>) (client_of L) (wire L)"
  have w': "ws_reachable R w'" "message_callbacks w' = replicate (msg_listeners (client_of L)) 0"
    using register_reachable [OF w, of "this \<sigma>" "client_of L"] n c by (auto simp: w'_def replicate_append_same)
  have op: "ws_reachable R (f w') \<and> message_callbacks (f w') = message_callbacks w'" if "transport_operation (ws_itransport R) f" for f
    using wt.operated [OF w'(1) that] by simp
  have "wire (called_transport D R \<sigma> L) = w' \<or> (\<exists>f. transport_operation (ws_itransport R) f \<and> wire (called_transport D R \<sigma> L) = f w')"
    using ws_operations [of R]
    by (auto simp: called_transport_def Let_def w'_def [symmetric] split: option.splits)
  moreover have "app (called_transport D R \<sigma> L) = app L"
    by (simp add: called_transport_def Let_def split: option.splits)
  ultimately show ?thesis using op w' by auto
qed

text \<open>A message of the transport is an incoming message of the client.\<close>

lemma transport_event_incoming:
  assumes r: "ws_reachable R (wire L)" and c: "length (message_callbacks (wire L)) = msg_listeners (client_of L)"
    and e: "own_event e" "ws_step R e (wire L) = Some w"
  shows "ws_reachable R w \<and> message_callbacks w = message_callbacks (wire L)
    \<and> (app (transport_event w L) = app L \<or> (\<exists>v. ums_step J timeout (Incoming v) (app L) = Some (app (transport_event w L))))"
proof -
  have ev: "ws_event_of R (wire L) w" using e by (auto simp: ws_event_of_def)
  have "app (transport_event w L) = snd (deliver (msg_listeners (client_of L)) v (app L))"
    if d: "drop (length (received (wire L))) (received w) = (x, v) # others" for x v others
  proof -
    have "length ((x, v) # others) = length (message_callbacks (wire L))"
      using wt.delivery [OF r ev d] d by simp
    then show ?thesis using c d by (simp add: transport_event_def del: deliver.simps)
  qed
  then have "app (transport_event w L) = app L \<or> (\<exists>v. ums_step J timeout (Incoming v) (app L) = Some (app (transport_event w L)))"
    by (cases "drop (length (received (wire L))) (received w)") (auto simp: transport_event_def)
  then show ?thesis using wt.happened [OF r ev] by simp
qed

lemma ums_step_listeners:
  assumes "ums_step J timeout e \<sigma> = Some \<sigma>'" and "\<And>ev. e \<noteq> Life ev"
  shows "msg_listeners (ums_this \<sigma>') = msg_listeners (ums_this \<sigma>)"
proof -
  have "this (bare_sys (core \<sigma>')) = this (bare_sys (core \<sigma>))" using ums_step_bare [OF assms] by simp
  then have "bare (ums_this \<sigma>') = bare (ums_this \<sigma>)" by simp
  then show ?thesis by (metis bare_simps(8))
qed

definition parts_ok :: "('q, json, json) runtime \<Rightarrow> jsm \<Rightarrow> int \<Rightarrow> ('s, 'n, 'q) linked \<Rightarrow> bool" where
  "parts_ok R J timeout L \<longleftrightarrow> ums_reachable J timeout (app L) \<and> ws_reachable R (wire L)
     \<and> message_callbacks (wire L) = replicate (msg_listeners (client_of L)) 0"

lemma parts_ok_app:
  assumes "parts_ok R J timeout L" and "ums_step J timeout e (app L) = Some a" and "\<And>ev. e \<noteq> Life ev"
  shows "parts_ok R J timeout (L\<lparr>app := a\<rparr>)"
  using assms ums_step_listeners [OF assms(2,3)] by (auto simp: parts_ok_def intro: ums_reachable.step)

lemma sending_app: "ums_step J timeout (Send i) (app L) = Some (snd (ums_sendMessage i (app L)))"
  by simp

lemma parts_ok_send:
  assumes "parts_ok R J timeout L"
  shows "parts_ok R J timeout (snd (linked_sendMessage R i req L))"
proof (cases "fst (ums_sendMessage i (app L))")
  case (Inl e)
  then show ?thesis using assms by (cases "ums_sendMessage i (app L)") (auto simp: linked_sendMessage_def)
next
  case (Inr k)
  let ?a = "snd (ums_sendMessage i (app L))"
  have a: "parts_ok R J timeout (L\<lparr>app := ?a\<rparr>)" by (rule parts_ok_app [OF assms sending_app]) simp
  then have "parts_ok R J timeout (L\<lparr>app := ?a, wire := ws_sendMessage R req (wire L), posted := ps\<rparr>)" for ps
    using a wt.operated [OF _ ws_operations(3), of R "wire L" req] by (simp add: parts_ok_def)
  then show ?thesis using a Inr
    by (cases "ums_sendMessage i (app L)") (auto simp: linked_sendMessage_def)
qed

lemma parts_ok_step:
  assumes J: "jsm_documented J" and ok: "parts_ok R J timeout L" and step: "linked_step D R J timeout e L = Some L'"
  shows "parts_ok R J timeout L'"
proof (cases e)
  case (Living ev)
  then obtain c where c: "sys_step J UmsClient ev (core (app L)) = Some c"
    and L': "L' = called_transport D R (core (app L)) (L\<lparr>app := (app L)\<lparr>core := c\<rparr>\<rparr>)"
    using step by (auto split: if_splits)
  have u: "ums_reachable J timeout (app L)" "ws_reachable R (wire L)"
      "message_callbacks (wire L) = replicate (msg_listeners (client_of L)) 0"
    using ok by (simp_all add: parts_ok_def)
  have "ums_reachable J timeout ((app L)\<lparr>core := c\<rparr>)"
    by (rule ums_reachable.step [OF u(1), where e = "Life ev"]) (simp add: c)
  with called_transport_reachable [of R "L\<lparr>app := (app L)\<lparr>core := c\<rparr>\<rparr>" "core (app L)" D] u
    sys_step_listeners [OF c J ums_control_inv [OF u(1) J]]
  show ?thesis by (simp add: L' parts_ok_def)
next
  case (Request req)
  then show ?thesis using step parts_ok_send [OF ok] by (auto split: option.splits json.splits)
next
  case (Refused k)
  then obtain err where "L' = L\<lparr>app := (app L)\<lparr>requests := settle k (Rejecting err) (requests (app L))\<rparr>\<rparr>"
    using step by (auto split: option.splits settled.splits)
  then show ?thesis using parts_ok_app [OF ok, where e = "Send_failed k err"] by simp
next
  case (Transport ev)
  then obtain w where ev: "own_event ev" "ws_step R ev (wire L) = Some w" and L': "L' = transport_event w L"
    using step by (auto split: if_splits)
  have "ws_reachable R (wire L)" "length (message_callbacks (wire L)) = msg_listeners (client_of L)"
    using ok by (simp_all add: parts_ok_def)
  from transport_event_incoming [OF this ev]
  have w: "ws_reachable R w" "message_callbacks w = message_callbacks (wire L)"
    and "app L' = app L \<or> (\<exists>v. ums_step J timeout (Incoming v) (app L) = Some (app L'))"
    unfolding L' by blast+
  then have "parts_ok R J timeout (L\<lparr>app := app L'\<rparr>)"
  proof (elim disjE exE)
    assume "app L' = app L"
    then show ?thesis using ok by (simp add: parts_ok_def)
  next
    fix v assume "ums_step J timeout (Incoming v) (app L) = Some (app L')"
    then show ?thesis by (rule parts_ok_app [OF ok]) simp
  qed
  then show ?thesis using w by (simp add: L' parts_ok_def transport_event_def)
qed (use step in \<open>auto simp del: ums_step.simps intro: parts_ok_app [OF ok]\<close>)

lemma linked_parts_ok:
  fixes L :: "('a, 'b, 'c) linked"
  shows "linked_reachable D R J timeout L \<Longrightarrow> jsm_documented J \<Longrightarrow> parts_ok R J timeout L"
proof (induction rule: linked_reachable.induct)
  case init
  have "message_callbacks (new_transport :: ('c, json, json) ws_transport) = []"
    by (simp add: message_callbacks_def new_transport_def listeners_def)
  then show ?case
    by (simp add: parts_ok_def new_linked_def ums_reachable.init ws_reachable.init)
       (simp add: new_ums_def new_sys_def new_client_def)
next
  case (step L e L')
  then show ?case using parts_ok_step by blast
qed

text \<open>A message of the server, as the client gets it.\<close>

lemma wire_message:
  assumes ok: "parts_ok R J timeout L" and p: "p < length (sockets (wire L))"
    and parsed: "parse_message R raw = Return v" and n: "msg_listeners (client_of L) = Suc n"
  shows "linked_step D R J timeout (Transport (Ws_data p (Text raw))) L =
    Some (L\<lparr>app := snd (deliver (Suc n) v (app L)),
      wire := (wire L)\<lparr>received := received (wire L) @ map (\<lambda>c. (c, v)) (message_callbacks (wire L))\<rparr>\<rparr>)"
proof -
  have r: "ws_reachable R (wire L)" and len: "length (message_callbacks (wire L)) = Suc n"
    using ok n by (simp_all add: parts_ok_def)
  let ?w = "(wire L)\<lparr>received := received (wire L) @ map (\<lambda>c. (c, v)) (message_callbacks (wire L))\<rparr>"
  have w: "ws_step R (Ws_data p (Text raw)) (wire L) = Some ?w"
    using p parsed message_received [OF r, of raw] by simp
  obtain c cs where c: "message_callbacks (wire L) = c # cs" "length cs = n"
    using len by (cases "message_callbacks (wire L)") auto
  show ?thesis by (simp add: w transport_event_def c del: deliver.simps ws_step.simps)
qed

text \<open>The same for any number of callbacks, none included.\<close>

lemma wire_delivery:
  assumes ok: "parts_ok R J timeout L" and p: "p < length (sockets (wire L))"
    and parsed: "parse_message R raw = Return v"
  shows "\<exists>L'. linked_step D R J timeout (Transport (Ws_data p (Text raw))) L = Some L'
    \<and> app L' = snd (deliver (msg_listeners (client_of L)) v (app L))
    \<and> received (wire L') = received (wire L) @ replicate (msg_listeners (client_of L)) (0, v)"
proof (cases "msg_listeners (client_of L)")
  case 0
  then have r: "ws_reachable R (wire L)" and m: "message_callbacks (wire L) = []"
    using ok by (simp_all add: parts_ok_def)
  have "ws_step R (Ws_data p (Text raw)) (wire L) = Some (wire L)"
    using p parsed message_received [OF r, of raw] m by simp
  then show ?thesis using 0 by (simp add: transport_event_def del: ws_step.simps)
next
  case (Suc n)
  have "message_callbacks (wire L) = replicate (Suc n) 0" using ok Suc by (simp add: parts_ok_def)
  then show ?thesis using wire_message [OF ok p parsed Suc] Suc
    by (simp del: linked_step.simps deliver.simps)
qed

end
