(* ===== verification/Ums_Exchange.thy ===== *)
theory Ums_Exchange
  imports Ums_Over_Ws
begin

text \<open>
  Runs of a UMS client over its WebSocket transport: a start, a request, a stop, each for any state machine,
  queue and answers, and one concrete deployment.
\<close>

section \<open>Starting\<close>

text \<open>A start up to its last answer, and a whole one.\<close>

definition linked_starting :: "csds_response \<Rightarrow> 's \<Rightarrow> js_value \<Rightarrow> ('s, 'n) linked_event list" where
  "linked_starting d x v =
     map Living (Call START # map (Reply 0) [R_domains d, R_done, R_done, R_done, R_done, R_session x, R_done, R_service v])
     @ Transport (Ws_open 0) # map Living (map (Reply 0) [R_done, R_done])"

definition linked_start :: "csds_response \<Rightarrow> 's \<Rightarrow> js_value \<Rightarrow> ('s, 'n) linked_event list" where
  "linked_start d x v = linked_starting d x v @ [Living (Reply 0 R_done)]"

lemma linked_exec_append:
  "linked_exec D R J timeout (es @ es') L =
     (case linked_exec D R J timeout es L of None \<Rightarrow> None | Some L' \<Rightarrow> linked_exec D R J timeout es' L')"
  by (induction es arbitrary: L) (auto split: option.splits)

definition fresh_connection ::
  "'s deployment \<Rightarrow> ('q, json, json) runtime \<Rightarrow> 's \<Rightarrow> js_value \<Rightarrow> ('q, json, json) ws_transport" where
  "fresh_connection D R x v = connect R (transportConfig D) (connect_opts D (Some x) v) new_transport"

definition open_connection ::
  "'s deployment \<Rightarrow> ('q, json, json) runtime \<Rightarrow> 's \<Rightarrow> js_value \<Rightarrow> ('q, json, json) ws_transport" where
  "open_connection D R x v = ws_open R 0 (in_state 0 OPEN (fresh_connection D R x v))"

definition accepted :: "'s deployment \<Rightarrow> ('q, json, json) runtime \<Rightarrow> 's \<Rightarrow> js_value \<Rightarrow> bool" where
  "accepted D R x v \<longleftrightarrow>
     ws_refuses R (endpoint (connectionFactory (transportConfig D)) (connect_opts D (Some x) v))
       (headers (connectionFactory (transportConfig D)) (connect_opts D (Some x) v)) = None"

lemma listener_inv_new: "listener_inv new_transport"
  by (rule ws_inv_new [unfolded ws_inv_def, THEN conjunct1])

lemma fresh_connection_fields:
  assumes "accepted D R x v"
  shows "connects (fresh_connection D R x v) = [Opening 0]" "length (sockets (fresh_connection D R x v)) = 1"
    and "opened_by (sockets (fresh_connection D R x v) ! 0) = 0" "ws (fresh_connection D R x v) = Some 0"
    and "received (fresh_connection D R x v) = []" "listener_inv (fresh_connection D R x v)"
    and "sendingQueue (fresh_connection D R x v) = Some 0" "queues (fresh_connection D R x v) = [aq_create R]"
    and "conf (fresh_connection D R x v) = Some (adjustConfByConnectionStrategy (transportConfig D))"
    and "sends (fresh_connection D R x v) = []" "calls (fresh_connection D R x v) = []"
proof -
  note a = assms [unfolded accepted_def]
  show "connects (fresh_connection D R x v) = [Opening 0]" "length (sockets (fresh_connection D R x v)) = 1"
    "opened_by (sockets (fresh_connection D R x v) ! 0) = 0" "ws (fresh_connection D R x v) = Some 0"
    "sendingQueue (fresh_connection D R x v) = Some 0" "queues (fresh_connection D R x v) = [aq_create R]"
    "conf (fresh_connection D R x v) = Some (adjustConfByConnectionStrategy (transportConfig D))"
    "sends (fresh_connection D R x v) = []" "calls (fresh_connection D R x v) = []"
    by (simp_all add: fresh_connection_def connect_def Let_def open_socket_fields [OF a])
  have "quiet new_transport (fresh_connection D R x v)"
    unfolding fresh_connection_def by (rule quiet_connect [OF listener_inv_new])
  then show "received (fresh_connection D R x v) = []" by (simp add: quiet_def new_transport_def)
  have "ws_inv (fresh_connection D R x v)" unfolding fresh_connection_def by (rule ws_inv_connect [OF ws_inv_new])
  then show "listener_inv (fresh_connection D R x v)" by (simp add: ws_inv_def)
qed

lemma open_connection_fields:
  assumes "accepted D R x v"
  shows "connects (open_connection D R x v) = [Connect_done]" "length (sockets (open_connection D R x v)) = 1"
    and "ws (open_connection D R x v) = Some 0" "readyState (sockets (open_connection D R x v) ! 0) = OPEN"
    and "received (open_connection D R x v) = []"
    and "sendingQueue (open_connection D R x v) = Some 0" "queues (open_connection D R x v) = [aq_resume R (aq_create R)]"
    and "conf (open_connection D R x v) = Some (adjustConfByConnectionStrategy (transportConfig D))"
    and "sends (open_connection D R x v) = []" and "calls (open_connection D R x v) = []"
    and "listener_inv (open_connection D R x v)"
proof -
  note f = fresh_connection_fields [OF assms]
  have n: "0 < length (sockets (fresh_connection D R x v))" by (simp add: f)
  note o = ws_open_fields [OF n, of R, folded open_connection_def]
  show "connects (open_connection D R x v) = [Connect_done]" "length (sockets (open_connection D R x v)) = 1"
    "ws (open_connection D R x v) = Some 0" "readyState (sockets (open_connection D R x v) ! 0) = OPEN"
    "sendingQueue (open_connection D R x v) = Some 0" "queues (open_connection D R x v) = [aq_resume R (aq_create R)]"
    "conf (open_connection D R x v) = Some (adjustConfByConnectionStrategy (transportConfig D))"
    "sends (open_connection D R x v) = []"
    by (simp_all add: o f Let_def resume_queue_def on_queue_def)
  have "quiet (fresh_connection D R x v) (onConnectedHandler R (in_state 0 OPEN (fresh_connection D R x v)))"
    using f(6) by (intro quiet_trans [OF quiet_in_state quiet_connected]) simp
  then show "received (open_connection D R x v) = []"
    by (simp add: open_connection_def ws_open_def Let_def quiet_def f)
  show "calls (open_connection D R x v) = []"
    by (simp add: open_connection_def ws_open_def Let_def in_state_def f)
  have "ws_inv (fresh_connection D R x v)" unfolding fresh_connection_def by (rule ws_inv_connect [OF ws_inv_new])
  then have "ws_inv (open_connection D R x v)"
    unfolding open_connection_def by (intro ws_inv_open ws_inv_in_state) (simp_all add: f in_state_def)
  then show "listener_inv (open_connection D R x v)" by (simp add: ws_inv_def)
qed

text \<open>The two of them after a start.\<close>

definition started_wire :: "'s deployment \<Rightarrow> ('q, json, json) runtime \<Rightarrow> 's \<Rightarrow> js_value \<Rightarrow> ('q, json, json) ws_transport" where
  "started_wire D R x v = ws_onMessage 0 (ws_onError 0 (open_connection D R x v))"

definition linked_started :: "'s deployment \<Rightarrow> ('q, json, json) runtime \<Rightarrow> csds_response \<Rightarrow> 's \<Rightarrow> js_value \<Rightarrow> ('s, 'n, 'q) linked" where
  "linked_started D R d x v =
     \<lparr>app = \<lparr>core = after_start d x new_sys, requests = []\<rparr>,
      wire = started_wire D R x v, attempt = 0, closing = 0, posted = []\<rparr>"

lemma linked_starting_run:
  assumes "jsm_documented J" and "accepted D R x v"
  shows "\<exists>L. linked_exec D R J timeout (linked_starting d x v) new_linked = Some L \<and> outcomes (core (app L)) = []
    \<and> linked_step D R J timeout (Living (Reply 0 R_done)) L = Some (linked_started D R d x v)"
proof -
  note f = fresh_connection_fields [OF assms(2)] and o = open_connection_fields [OF assms(2)]
  show ?thesis
    using assms(1)
    by (simp add: linked_starting_def linked_started_def started_wire_def new_linked_def new_ums_def new_sys_def new_client_def
        called_transport_def register_listeners_def awaits_disconnect_def transport_event_def after_start_def run_simps
        fresh_connection_def [symmetric] open_connection_def [symmetric] f o)
qed

lemma linked_start_run:
  assumes "jsm_documented J" and "accepted D R x v"
  shows "linked_exec D R J timeout (linked_start d x v) new_linked = Some (linked_started D R d x v :: ('s, 'n, 'q) linked)"
proof -
  obtain L :: "('s, 'n, 'q) linked" where "linked_exec D R J timeout (linked_starting d x v) new_linked = Some L"
      "linked_step D R J timeout (Living (Reply 0 R_done)) L = Some (linked_started D R d x v)"
    using linked_starting_run [OF assms] by blast
  then show ?thesis by (simp add: linked_start_def linked_exec_append del: linked_step.simps)
qed

section \<open>Stopping\<close>

definition linked_stop :: "nat \<Rightarrow> ('s, 'n) linked_event list" where
  "linked_stop n =
     map Living (Call STOP # map (Reply 0) [R_done, R_done, R_done])
     @ Transport (Ws_close n) # map Living (map (Reply 0) [R_done, R_done, R_done])"

definition closed_connection :: "('q, json, json) runtime \<Rightarrow> nat \<Rightarrow> ('q, json, json) ws_transport \<Rightarrow> ('q, json, json) ws_transport" where
  "closed_connection R n w = onClosedHandler R (in_state n CLOSED (disconnect R True w))"

lemma closed_connection_fields:
  assumes "listener_inv w" and "ws w = Some n" and "readyState (sockets w ! n) = OPEN"
  shows "received (closed_connection R n w) = received (disconnect R True w)"
    and "disconnects (closed_connection R n w) ! length (disconnects w) = Resolved"
    and "ws (closed_connection R n w) = None" and "calls (closed_connection R n w) = calls w @ [Close n]"
proof -
  have "listener_inv (in_state n CLOSED (disconnect R True w))" using listener_inv_disconnect [OF assms(1)] by simp
  then have q: "quiet (in_state n CLOSED (disconnect R True w)) (closed_connection R n w)"
    unfolding closed_connection_def by (rule quiet_closed)
  then show "received (closed_connection R n w) = received (disconnect R True w)" by (simp add: quiet_def in_state_def)
  have l: "listener_inv (pause R (clearBeat (in_state n CLOSED (disconnect R True w))))"
    using listener_inv_disconnect [OF assms(1)] by simp
  have "disconnects (disconnect R True w) = disconnects w @ [Pending]"
    using assms(2,3) by (simp add: disconnect_eq Let_def)
  then show "disconnects (closed_connection R n w) ! length (disconnects w) = Resolved"
    using closed_disconnects [OF l] by (simp add: closed_connection_def onClosedHandler_def pause_def in_state_def nth_append)
  show "ws (closed_connection R n w) = None" by (simp add: closed_connection_def in_state_def)
  show "calls (closed_connection R n w) = calls w @ [Close n]"
    using assms(2,3) by (simp add: closed_connection_def in_state_def disconnect_eq Let_def)
qed

lemma linked_stop_run:
  assumes "jsm_documented J" and "idle STARTED (core (app L))" and "leSession (client_of L) = Some y"
    and "listener_inv (wire L)" and "ws (wire L) = Some n" and "readyState (sockets (wire L) ! n) = OPEN"
    and "n < length (sockets (wire L))"
  shows "\<exists>L'. linked_exec D R J timeout (linked_stop n) L = Some L' \<and> core (app L') = after_stop (core (app L))
    \<and> requests (app L') = requests (app L) \<and> wire L' = closed_connection R n (wire L)"
proof -
  note c = closed_connection_fields [OF assms(4-6), of R]
  show ?thesis
    using assms(1-3,7)
    by (simp add: linked_stop_def called_transport_def register_listeners_def awaits_disconnect_def transport_event_def
        Let_def after_stop_def run_simps closed_connection_def [symmetric] c
        cong: option.case_cong)
qed

section \<open>A request\<close>

lemma linked_started_reachable:
  assumes "jsm_documented J" and "accepted D R x v"
  shows "linked_reachable D R J timeout (linked_started D R d x v)"
  by (rule linked_exec_reachable [OF linked_reachable.init linked_start_run [OF assms]])

lemma linked_listener_inv:
  assumes "jsm_documented J" and "linked_reachable D R J timeout L"
  shows "listener_inv (wire L)"
proof -
  have "ws_reachable R (wire L)" using linked_parts_ok [OF assms(2,1)] by (simp add: parts_ok_def)
  then show ?thesis using ws_reachable_inv by (auto simp: ws_inv_def)
qed

lemma started_fields:
  assumes "accepted D R x v"
  shows "ws (started_wire D R x v) = Some 0" "length (sockets (started_wire D R x v)) = 1"
    and "readyState (sockets (started_wire D R x v) ! 0) = OPEN"
    and "sendingQueue (started_wire D R x v) = Some 0"
    and "queues (started_wire D R x v) = [aq_resume R (aq_create R)]"
    and "conf (started_wire D R x v) = Some (adjustConfByConnectionStrategy (transportConfig D))"
    and "sends (started_wire D R x v) = []" "calls (started_wire D R x v) = []"
    and "connects (started_wire D R x v) = [Connect_done]"
    and "received (started_wire D R x v) = []"
  by (simp_all add: started_wire_def ws_onMessage_def ws_onError_def open_connection_fields [OF assms])

lemma linked_started_simps [simp]:
  "wire (linked_started D R d x v) = started_wire D R x v" "posted (linked_started D R d x v) = []"
  "umsResponseHandler (client_of (linked_started D R d x v)) = []" "started (client_of (linked_started D R d x v))"
  "requests (app (linked_started D R d x v)) = []"
  by (simp_all add: linked_started_def after_start_def new_sys_def new_client_def started_def)

text \<open>The request, pushed onto the queue.\<close>

definition linked_requested ::
  "'s deployment \<Rightarrow> ('q, json, json) runtime \<Rightarrow> csds_response \<Rightarrow> 's \<Rightarrow> js_value \<Rightarrow> string \<Rightarrow> json \<Rightarrow> ('s, 'n, 'q) linked" where
  "linked_requested D R d x v i req =
     (let L = linked_started D R d x v
      in L\<lparr>app := snd (ums_sendMessage i (app L)), wire := ws_sendMessage R req (wire L), posted := [(0, 0)]\<rparr>)"

lemma request_run:
  assumes "prop_of req ''id'' = Some (JStr i)" and "accepted D R x v"
  shows "linked_step D R J timeout (Request req) (linked_started D R d x v) = Some (linked_requested D R d x v i req)"
    and "queues (wire (linked_requested D R d x v i req)) = [aq_push R (Some 0) [req] (aq_resume R (aq_create R))]"
    and "sends (wire (linked_requested D R d x v i req)) = [Pending]"
proof -
  show "linked_step D R J timeout (Request req) (linked_started D R d x v) = Some (linked_requested D R d x v i req)"
    using assms(1) by (simp add: linked_sendMessage_def ums_sendMessage_def listenerCount_def linked_requested_def
        Let_def started_fields(7) [OF assms(2)])
  show "queues (wire (linked_requested D R d x v i req)) = [aq_push R (Some 0) [req] (aq_resume R (aq_create R))]"
    "sends (wire (linked_requested D R d x v i req)) = [Pending]"
    by (simp_all add: linked_requested_def Let_def ws_sendMessage_def sendMessages_def sendWithCb_def on_queue_def
        started_fields [OF assms(2)])
qed

section \<open>A concrete deployment\<close>

definition sample_deployment :: "ConnectionStrategy \<Rightarrow> nat deployment" where
  "sample_deployment st = \<lparr>transportConfig = sample_config st 2, connect_opts = (\<lambda>_ _. sample_opts)\<rparr>"

definition request_for :: "string \<Rightarrow> json" where
  "request_for i = JObj [(''id'', JStr i)]"

lemma sample_deployment_accepted: "accepted (sample_deployment st) json_runtime x v"
  by (simp add: accepted_def)

lemma request_for_id: "prop_of (request_for i) ''id'' = Some (JStr i)"
  by (simp add: request_for_def prop_of_def)

lemma answer_to_id: "prop_of (answer_to i) ''reqId'' = Some (JStr i)" "well_formed (answer_to i)"
  by (simp_all add: answer_to_def prop_of_def)

abbreviation sample_started :: "ConnectionStrategy \<Rightarrow> (nat, nat, bool \<times> json list) linked" where
  "sample_started st \<equiv> linked_started (sample_deployment st) json_runtime [] 7 None"

abbreviation sample_requested :: "(nat, nat, bool \<times> json list) linked" where
  "sample_requested \<equiv> linked_requested (sample_deployment LEAVE_OPEN) json_runtime [] 7 None ''a'' (request_for ''a'')"

lemmas sample_started_reachable =
  linked_started_reachable [OF reference_jsm_documented sample_deployment_accepted]

lemma sample_requested_reachable:
  "linked_reachable (sample_deployment LEAVE_OPEN) json_runtime reference_jsm 5000 sample_requested"
  by (rule linked_reachable.step [OF sample_started_reachable request_run(1) [OF request_for_id sample_deployment_accepted]])

lemma sample_requested_waits:
  "listening (app sample_requested) 0" "rq_state (requests (app sample_requested) ! 0) = Racing"
  "rq_id (requests (app sample_requested) ! 0) = ''a''" "msg_listeners (client_of sample_requested) = Suc 0"
  "length (sockets (wire sample_requested)) = 1" "pendingMessages (app sample_requested) = 1"
proof -
  note f = started_fields [OF sample_deployment_accepted]
  show "listening (app sample_requested) 0" "rq_state (requests (app sample_requested) ! 0) = Racing"
    "rq_id (requests (app sample_requested) ! 0) = ''a''" "msg_listeners (client_of sample_requested) = Suc 0"
    "pendingMessages (app sample_requested) = 1"
    by (simp_all add: linked_requested_def Let_def ums_sendMessage_def listenerCount_def umsRequest_def checkStarted_def
        listening_def ee.hs_once pendingMessages_def eventNames_def once_def set_handlers_def handlers_def)
      (simp add: linked_started_def after_start_def new_sys_def new_client_def)
  show "length (sockets (wire sample_requested)) = 1"
    by (simp add: linked_requested_def Let_def ws_sendMessage_def sendMessages_def sendWithCb_def f)
qed

text \<open>The queue has told the transport that it is empty, and the drain timer is armed.\<close>

definition sample_draining :: "(nat, nat, bool \<times> json list) linked" where
  "sample_draining = (sample_started CLOSE_IMMEDIATE)\<lparr>wire := drainHandler (wire (sample_started CLOSE_IMMEDIATE))\<rparr>"

lemma sample_draining_reachable:
  "linked_reachable (sample_deployment CLOSE_IMMEDIATE) json_runtime reference_jsm 5000 sample_draining"
proof (rule linked_reachable.step [OF sample_started_reachable])
  show "linked_step (sample_deployment CLOSE_IMMEDIATE) json_runtime reference_jsm 5000 (Transport Drained)
      (sample_started CLOSE_IMMEDIATE) = Some sample_draining"
    by (simp add: transport_event_def sample_draining_def)
qed

lemma sample_draining_timer: "\<exists>h. map_of (timers (wire sample_draining)) h = Some Drain_timer"
proof -
  have s: "strategy_in_use (started_wire (sample_deployment CLOSE_IMMEDIATE) json_runtime 7 None) = CLOSE_IMMEDIATE"
    unfolding strategy_in_use_def started_fields(6) [OF sample_deployment_accepted]
    by (simp add: sample_deployment_def adjustConfByConnectionStrategy_def sample_config_def ws_config_defs)
  have "ws_reachable json_runtime (wire sample_draining)"
    using linked_parts_ok [OF sample_draining_reachable reference_jsm_documented] by (simp add: parts_ok_def)
  then have "timer_inv (wire sample_draining)" using ws_reachable_inv by (auto simp: ws_inv_def)
  moreover have "drainTimeoutHandle (wire sample_draining) \<noteq> None"
    using s by (simp add: sample_draining_def drainHandler_def Let_def ws_setTimeout_def strategy_in_use_def)
  ultimately show ?thesis by (auto simp: timer_inv_def)
qed

end
