(* ===== verification/Ums_Sessions.thy ===== *)
theory Ums_Sessions
  imports Ums_Exchange
begin

text \<open>
  What holds of a UMS client and its WebSocket transport together: how often the client hears a message, a
  start ends after the connection is there, responses come over the wire to the request they answer,
  and what happens when the transport has closed itself.
\<close>

section \<open>What the client hears\<close>



section \<open>Responses\<close>

text \<open>
  C9. A response reaches its caller: when a request of a client waits for a response, and the server sends
  the JSON text of a value with the request's id over any connection of the client's transport, the
  request is fulfilled with exactly this value; every other request and the life cycle are as before,
  and one message fewer is pending.
\<close>

theorem response_over_the_wire:
  assumes "jsm_documented J" and "linked_reachable D R J timeout L" and "parses_json R"
    and "listening (app L) k" and "rq_state (requests (app L) ! k) = Racing"
    and "well_formed v" and "prop_of v ''reqId'' = Some (JStr (rq_id (requests (app L) ! k)))"
    and "msg_listeners (client_of L) \<noteq> 0" and "p < length (sockets (wire L))"
  shows "\<exists>L'. linked_step D R J timeout (Transport (Ws_data p (Text (frame v)))) L = Some L'
    \<and> requests (app L') = (requests (app L))[k := (requests (app L) ! k)\<lparr>rq_state := Fulfilled v\<rparr>]
    \<and> pendingMessages (app L) = Suc (pendingMessages (app L'))
    \<and> bare_sys (core (app L')) = bare_sys (core (app L))"
proof -
  have ok: "parts_ok R J timeout L" by (rule linked_parts_ok [OF assms(2,1)])
  then have inv: "ums_inv (app L)" using ums_reachable_inv assms(1) by (auto simp: parts_ok_def)
  obtain n where n: "msg_listeners (client_of L) = Suc n" using assms(8) not0_implies_Suc by blast
  have "parse_message R (frame v) = Return v" using assms(3,6) by (simp add: parses_json_def frame_def)
  note step = wire_message [OF ok assms(9) this n]
  have "snd (deliver (Suc n) v (app L)) = answered k v (app L)" by (rule deliver_response [OF inv assms(4,7)])
  then show ?thesis
    using step answered_requests [OF assms(4,5)] answered_pending [OF inv assms(4)] deliver_bare [of "Suc n" v "app L"]
    by (simp del: linked_step.simps deliver.simps)
qed

theorem response_over_the_wire_witness:
  "\<exists>L'. linked_step (sample_deployment LEAVE_OPEN) json_runtime reference_jsm 5000
      (Transport (Ws_data 0 (Text (frame (answer_to ''a''))))) sample_requested = Some L' \<and> pendingMessages (app L') = 0"
proof -
  have "prop_of (answer_to ''a'') ''reqId'' = Some (JStr (rq_id (requests (app sample_requested) ! 0)))"
    "0 < length (sockets (wire sample_requested))" "msg_listeners (client_of sample_requested) \<noteq> 0"
    by (simp_all add: answer_to_id sample_requested_waits)
  from response_over_the_wire [OF reference_jsm_documented sample_requested_reachable json_runtime_parses
      sample_requested_waits(1,2) answer_to_id(2) this(1,3,2)]
  show ?thesis using sample_requested_waits(6) by (metis One_nat_def Suc_inject)
qed

section \<open>A start ends when the connection is there\<close>

text \<open>A start that has its connection behind it.\<close>

fun past_connect :: "'s task \<Rightarrow> bool" where
  "past_connect (org, c, is) \<longleftrightarrow> org = ByUser START \<and> Connect \<notin> set is \<and>
     (case c of C_resolveService _ _ \<Rightarrow> False | C_connect _ _ \<Rightarrow> False | C_unwind _ \<Rightarrow> False | _ \<Rightarrow> True)"

fun got_past :: "'s progress \<Rightarrow> bool" where
  "got_past Finished = True"
| "got_past (Crashed e) = False"
| "got_past (Blocked c is) = past_connect (ByUser START, c, is)"

lemma got_past_abort [simp]: "\<not> got_past (abort e is)"
  by (simp add: abort_def)

lemma run_past: "run J is s = (s', p) \<Longrightarrow> got_past p \<Longrightarrow> Connect \<notin> set is"
proof (induction J "is" s arbitrary: s' rule: run.induct)
  case (2 J i "is" s)
  obtain s1 out where e: "exec_instr J i s = (s1, out)" by fastforce
  show ?case
  proof (cases out)
    case Continue
    then have "i \<noteq> Connect" using e by (auto split: sum.splits)
    then show ?thesis using 2 e Continue by auto
  next
    case (Wait c)
    then have "i \<noteq> Connect \<or> (\<exists>svc ss. c = C_resolveService svc ss)" using e by (cases i) (auto split: sum.splits)
    then show ?thesis using 2 e Wait by auto
  next
    case (Raise x)
    then show ?thesis using 2 e by auto
  qed
qed simp

lemma resume_past:
  assumes "resume J c r is s = Some (s', p)" and "got_past p"
  shows "past_connect (ByUser START, c, is) \<or> (\<exists>ss v. c = C_connect ss v \<and> r = R_done)"
proof -
  obtain s1 out where a: "answer J c r s = Some (s1, out)"
    using assms(1) by (auto simp: resume_def split: option.splits)
  show ?thesis
  proof (cases out)
    case Continue
    then have "run J is s1 = (s', p)" using a assms(1) by (simp add: resume_def)
    then have "Connect \<notin> set is" using run_past assms(2) by blast
    then show ?thesis using a Continue by (cases c; cases r) auto
  next
    case (Wait c')
    then show ?thesis using a assms by (cases c; cases r) (auto simp: resume_def)
  next
    case (Raise e)
    then show ?thesis using a assms by (auto simp: resume_def)
  qed
qed

text \<open>The last connection the client asked for is there.\<close>

definition connection_made :: "('s, 'n, 'q) linked \<Rightarrow> bool" where
  "connection_made L \<longleftrightarrow> attempt L < length (connects (wire L)) \<and> connects (wire L) ! attempt L = Connect_done"

text \<open>A promise of the transport that is resolved stays resolved.\<close>

definition done_kept :: "('q, 'm, 'r) ws_transport \<Rightarrow> ('q, 'm, 'r) ws_transport \<Rightarrow> bool" where
  "done_kept \<sigma> \<sigma>' \<longleftrightarrow> length (connects \<sigma>) \<le> length (connects \<sigma>') \<and>
     (\<forall>c < length (connects \<sigma>). connects \<sigma> ! c = Connect_done \<longrightarrow> connects \<sigma>' ! c = Connect_done)"

lemma done_kept_same: "connects \<sigma>' = connects \<sigma> \<Longrightarrow> done_kept \<sigma> \<sigma>'"
  by (simp add: done_kept_def)

lemma done_kept_update: "connects \<sigma>' = (connects \<sigma>)[c := v] \<Longrightarrow>
    (c < length (connects \<sigma>) \<Longrightarrow> connects \<sigma> ! c = Connect_done \<Longrightarrow> v = Connect_done) \<Longrightarrow> done_kept \<sigma> \<sigma>'"
  by (simp add: done_kept_def) (metis nth_list_update nth_list_update_neq)

lemma done_kept_open: "connects \<sigma> ! c \<noteq> Connect_done \<Longrightarrow> done_kept \<sigma> (open_socket R c f opts \<sigma>)"
  by (cases "ws_refuses R (endpoint f opts) (headers f opts)")
     (auto simp: open_socket_def Let_def intro!: done_kept_update [where c = c])

lemma done_kept_own:
  assumes inv: "ws_inv \<sigma>" and "own_event e" and "ws_step R e \<sigma> = Some \<sigma>'"
  shows "done_kept \<sigma> \<sigma>'"
proof (cases e)
  case (Continue_connect c)
  then show ?thesis
    using assms(3)
    by (auto simp: continue_connect_def intro: done_kept_open done_kept_update [where c = c]
        split: if_splits connecting.splits settled.splits)
next
  case (Work m)
  then show ?thesis using assms(3)
    by (auto simp: transmit_def Let_def waitForSocketConnection_def socket_waited_def intro!: done_kept_same split: option.splits)
next
  case (Check k)
  then show ?thesis using assms(3)
    by (auto simp: waitForSocketConnection_def socket_waited_def Let_def intro!: done_kept_same
        split: if_splits transmission_state.splits option.splits)
next
  case (Ws_timeout h)
  then obtain t where t: "map_of (timers \<sigma>) h = Some t" "\<sigma>' = fire_timer R t (\<sigma>\<lparr>timers := del h (timers \<sigma>)\<rparr>)"
    using assms(3) by (auto split: option.splits)
  then have "t = Drain_timer" using inv by (auto simp: ws_inv_def timer_inv_def split: option.splits if_splits)
  then show ?thesis using t(2) by (simp add: done_kept_same)
next
  case (Ws_open n)
  then show ?thesis using assms(3)
    by (auto simp: ws_open_def Let_def in_state_def intro!: done_kept_update split: if_splits)
next
  case (Ws_error n err)
  then show ?thesis using assms(3)
    by (auto simp: ws_error_def Let_def intro: done_kept_same
        intro!: done_kept_update [where c = "opened_by (sockets \<sigma> ! n)"] split: if_splits)
next
  case (Ws_data n d)
  then show ?thesis using assms(3)
    by (auto simp: onMessageHandler_def intro!: done_kept_same split: if_splits sum.splits)
next
  case (Ws_pong n)
  then show ?thesis using assms(3) quiet_pong [OF inv] by (auto intro!: done_kept_same split: if_splits)
qed (use assms in \<open>auto simp: in_state_def intro!: done_kept_same split: if_splits\<close>)

text \<open>The transport's other operations keep it too; \<open>connect\<close> appends its own promise.\<close>

lemma done_kept_connect: "done_kept \<sigma> (connect R config opts \<sigma>) \<and> length (connects \<sigma>) < length (connects (connect R config opts \<sigma>))"
proof -
  have "\<exists>v. connects (connect R config opts \<sigma>) = connects \<sigma> @ [v]"
    by (auto simp: connect_def Let_def open_socket_def list_update_append split: option.splits)
  then show ?thesis by (auto simp: done_kept_def nth_append)
qed

lemma register_connects [simp]: "connects (register_listeners s s' w) = connects w"
  by (simp add: register_listeners_def ws_onMessage_def ws_onError_def)

lemma awaited_connect_Some:
  "awaited_connect ts = Some (sess, v) \<Longrightarrow> \<exists>org is. (org, C_connect sess v, is) \<in> set ts"
  by (induction ts rule: awaited_connect.induct) (auto split: call.splits)

lemma awaited_connect_None:
  "awaited_connect ts = None \<longleftrightarrow> (\<forall>(org, c, is) \<in> set ts. \<forall>ss v. c \<noteq> C_connect ss v)"
  by (induction ts rule: awaited_connect.induct) (auto split: call.splits)

lemma waits_connect: "waits i (C_connect ss v) \<longleftrightarrow> i = Connect"
  by (cases i) simp_all

lemma Connect_code: "Connect \<in> set (code_of cls org) \<Longrightarrow> org = ByUser START"
proof (cases org)
  case (ByUser t)
  then show "Connect \<in> set (code_of cls org) \<Longrightarrow> org = ByUser START"
    by (cases cls; cases t; simp add: handler_code_defs)
qed (cases cls; simp add: handler_code_defs)

text \<open>Only a start connects, and then it is the only start in flight.\<close>

lemma connecting_task:
  assumes inv: "control_inv cls \<sigma>" and t: "(org, C_connect ss v, is) \<in> set (tasks \<sigma>)"
  shows "org = ByUser START" and "\<tau> \<in> set (tasks \<sigma>) \<Longrightarrow> \<not> past_connect \<tau>"
proof -
  have "code_point (code_of cls org) (C_connect ss v) is" by (rule control_inv_task(1) [OF inv t])
  then have "Connect \<in> set (code_of cls org)" by (auto simp: code_point_def waits_connect)
  then show org: "org = ByUser START" by (rule Connect_code)
  show "\<not> past_connect \<tau>" if \<tau>: "\<tau> \<in> set (tasks \<sigma>)"
  proof
    obtain o' c' is' where \<tau>': "\<tau> = (o', c', is')" by (cases \<tau>) auto
    assume past: "past_connect \<tau>"
    then have o': "o' = ByUser START" "c' \<noteq> C_connect ss v" by (auto simp: \<tau>')
    have h: "holding (C_connect ss v) is" using user_code_holding control_inv_task(1) [OF inv t] org by blast
    have h': "holding c' is'"
      using user_code_holding control_inv_task(1) [OF inv \<tau> [unfolded \<tau>']] o' by blast
    obtain pre suf where split: "tasks \<sigma> = pre @ (org, C_connect ss v, is) # suf" using t split_list by metis
    have "\<forall>x \<in> set (pre @ suf). \<not> in_transition x" by (rule control_inv_unique [OF inv split h])
    then show False using \<tau> \<tau>' h' o'(2) unfolding split by (auto simp: in_transition_def)
  qed
qed

section \<open>The invariant of starting\<close>

definition starting_inv :: "('s, 'n, 'q) linked \<Rightarrow> bool" where
  "starting_inv L \<longleftrightarrow>
     ((\<exists>\<tau> \<in> set (tasks (core (app L))). past_connect \<tau>) \<longrightarrow> connection_made L) \<and>
     (awaited_connect (tasks (core (app L))) \<noteq> None \<longrightarrow> attempt L < length (connects (wire L)))"

lemma connection_made_kept:
  "connection_made L \<Longrightarrow> done_kept (wire L) (wire L') \<Longrightarrow> attempt L' = attempt L \<Longrightarrow> connection_made L'"
  by (auto simp: connection_made_def done_kept_def)

lemma starting_inv_kept:
  assumes "starting_inv L" and "tasks (core (app L')) = tasks (core (app L))" and "attempt L' = attempt L"
    and "done_kept (wire L) (wire L')"
  shows "starting_inv L'"
  using assms connection_made_kept [OF _ assms(4,3)] by (auto simp: starting_inv_def done_kept_def)

text \<open>What a step of the life cycle did before it called the transport.\<close>

lemma progress_past:
  assumes "\<tau> \<in> set (tasks (put_progress org pre suf outs y))" and "past_connect \<tau>"
  shows "\<tau> \<in> set (pre @ suf) \<or> org = ByUser START \<and> got_past (snd y)"
  using assms by (cases y; cases "snd y") auto

lemma progress_started:
  assumes "outcomes (put_progress org pre suf outs y) = (ByUser START, Inr ()) # outs"
  shows "org = ByUser START \<and> got_past (snd y)"
  using assms by (cases y; cases "snd y") auto

lemma fresh_not_past: "\<not> got_past (snd (run J (code_of UmsClient (ByUser START)) s))"
proof
  assume g: "got_past (snd (run J (code_of UmsClient (ByUser START)) s))"
  obtain s' p where r: "run J (code_of UmsClient (ByUser START)) s = (s', p)" by fastforce
  from run_past [OF r] g show False by (simp add: r) (simp add: handler_code_defs)
qed

lemma step_past:
  assumes step: "sys_step J UmsClient e (core (app L)) = Some c" and J: "jsm_documented J"
    and inv: "starting_inv L" and poss: "life_possible L e"
    and new: "(\<exists>\<tau> \<in> set (tasks c). past_connect \<tau>) \<or> outcomes c = (ByUser START, Inr ()) # outcomes (core (app L))"
  shows "connection_made L"
proof -
  let ?\<sigma> = "core (app L)"
  have old: "connection_made L" if "\<tau> \<in> set (tasks ?\<sigma>)" "past_connect \<tau>" for \<tau>
    using that inv by (auto simp: starting_inv_def)
  have put: "connection_made L \<or> org = ByUser START \<and> got_past (snd y)"
    if "c = put_progress org pre suf (outcomes ?\<sigma>) y" "set (pre @ suf) \<subseteq> set (tasks ?\<sigma>)" for org pre suf y
    using new progress_past [of _ org pre suf "outcomes ?\<sigma>" y] progress_started [of org pre suf "outcomes ?\<sigma>" y] old that
    by blast
  from step J show ?thesis
  proof (cases rule: sys_step_cases)
    case (called t m)
    then show ?thesis using put [OF called(3)] fresh_not_past [of J "(client_of L)\<lparr>machine := m\<rparr>"] by auto
  next
    case (answered k r org d "is" pre suf y)
    have "connection_made L" if past: "org = ByUser START" "got_past (snd y)"
    proof -
      have "resume J d r is (this ?\<sigma>) = Some (fst y, snd y)" using answered(3) by simp
      from resume_past [OF this past(2)] show ?thesis
      proof (elim disjE exE conjE)
        assume "past_connect (ByUser START, d, is)"
        then show ?thesis using old [of "(org, d, is)"] answered(2) past(1) by simp
      next
        fix ss v assume d: "d = C_connect ss v" "r = R_done"
        have "transport_replies L d R_done" using poss answered(1,2,5) d by simp
        moreover have "awaited_connect (tasks ?\<sigma>) \<noteq> None"
          using answered(2) d by (auto simp: awaited_connect_None)
        ultimately show ?thesis using inv d by (auto simp: starting_inv_def connection_made_def split: connecting.splits)
      qed
    qed
    then show ?thesis using put [OF answered(4)] answered(2) by auto
  next
    case (refreshed h m)
    then show ?thesis using put [OF refreshed(4)] by auto
  qed (use new old in auto)
qed

lemma starting_inv_called:
  assumes inv: "starting_inv L" and past: "(\<exists>\<tau> \<in> set (tasks c). past_connect \<tau>) \<Longrightarrow> connection_made L"
    and ctl: "control_inv UmsClient c"
  shows "starting_inv (called_transport D R (core (app L)) (L\<lparr>app := (app L)\<lparr>core := c\<rparr>\<rparr>))"
proof -
  let ?L' = "called_transport D R (core (app L)) (L\<lparr>app := (app L)\<lparr>core := c\<rparr>\<rparr>)"
  define w where "w = register_listeners (client_of L) (this c) (wire L)"
  have w: "connects w = connects (wire L)" by (simp add: w_def)
  have core: "core (app ?L') = c" by (simp add: called_transport_def Let_def split: option.splits)
  show ?thesis
  proof (cases "awaited_connect (tasks (core (app L))) = None \<and> awaited_connect (tasks c) \<noteq> None")
    case True
    then obtain sess v where a: "awaited_connect (tasks c) = Some (sess, v)" by auto
    have L': "wire ?L' = connect R (transportConfig D) (connect_opts D sess v) w" "attempt ?L' = length (connects w)"
      using True a by (simp_all add: called_transport_def Let_def w_def)
    obtain org "is" where "(org, C_connect sess v, is) \<in> set (tasks c)" using awaited_connect_Some [OF a] by blast
    from connecting_task(2) [OF ctl this] show ?thesis
      using done_kept_connect [of w R "transportConfig D" "connect_opts D sess v"] by (auto simp: starting_inv_def core L')
  next
    case False
    have L': "connects (wire ?L') = connects (wire L) \<and> attempt ?L' = attempt L"
      using False w by (auto simp: called_transport_def Let_def w_def [symmetric] split: option.splits)
    then have "connection_made ?L' = connection_made L" by (simp add: connection_made_def)
    then show ?thesis using inv past False L' by (auto simp: starting_inv_def core)
  qed
qed

lemma life_step:
  assumes "linked_step D R J timeout (Living ev) L = Some L'"
  obtains c where "life_possible L ev" "sys_step J UmsClient ev (core (app L)) = Some c"
    and "L' = called_transport D R (core (app L)) (L\<lparr>app := (app L)\<lparr>core := c\<rparr>\<rparr>)" and "core (app L') = c"
proof -
  obtain c where c: "life_possible L ev" "sys_step J UmsClient ev (core (app L)) = Some c"
      "L' = called_transport D R (core (app L)) (L\<lparr>app := (app L)\<lparr>core := c\<rparr>\<rparr>)"
    using assms by (auto split: if_splits)
  moreover have "core (app L') = c" unfolding c(3) by (simp add: called_transport_def Let_def split: option.splits)
  ultimately show thesis using that by blast
qed

lemma other_step:
  assumes "linked_step D R J timeout e L = Some L'" and "\<And>ev. e \<noteq> Living ev" and "ws_inv (wire L)"
  shows "bare_sys (core (app L')) = bare_sys (core (app L)) \<and> attempt L' = attempt L \<and> done_kept (wire L) (wire L')"
proof (cases e)
  case (Request req)
  have sends: "connects (ws_sendMessage R req w) = connects w" for w
    by (simp add: ws_sendMessage_def sendMessages_def sendWithCb_def split: option.splits)
  have b: "bare_sys (core a) = bare_sys (core (app L))" if "ums_sendMessage i (app L) = (r, a)" for i r a
    using ums_step_bare [of J timeout "Send i" "app L" a] that by simp
  show ?thesis using Request assms(1)
    by (auto simp: linked_sendMessage_def sends done_kept_same dest: b split: option.splits json.splits prod.splits sum.splits)
next
  case (Transport ev)
  then obtain w where w: "own_event ev" "ws_step R ev (wire L) = Some w" "L' = transport_event w L"
    using assms(1) by (auto split: if_splits)
  have "bare_sys (core (app L')) = bare_sys (core (app L))"
    unfolding w(3) by (simp add: transport_event_def deliver_bare del: deliver.simps split: list.splits)
  then show ?thesis using done_kept_own [OF assms(3) w(1,2)] w(3) by (simp add: transport_event_def)
next
  case (Refused k)
  then show ?thesis using assms(1)
    by (auto simp: done_kept_same simp del: ums_step.simps dest!: ums_step_bare split: option.splits settled.splits)
qed (use assms in \<open>auto simp: done_kept_same simp del: ums_step.simps dest!: ums_step_bare\<close>)

lemma starting_inv_step:
  assumes J: "jsm_documented J" and ok: "parts_ok R J timeout L" and inv: "starting_inv L"
    and step: "linked_step D R J timeout e L = Some L'"
  shows "starting_inv L'"
proof (cases "\<exists>ev. e = Living ev")
  case True
  then obtain ev where ev: "linked_step D R J timeout (Living ev) L = Some L'" using step by blast
  obtain c where c: "life_possible L ev" "sys_step J UmsClient ev (core (app L)) = Some c"
      "L' = called_transport D R (core (app L)) (L\<lparr>app := (app L)\<lparr>core := c\<rparr>\<rparr>)"
    by (rule life_step [OF ev])
  have "control_inv UmsClient c"
    using control_inv_step [OF c(2) J] ums_control_inv J ok by (auto simp: parts_ok_def)
  then show ?thesis unfolding c(3) using step_past [OF c(2) J inv c(1)] by (intro starting_inv_called [OF inv]) auto
next
  case False
  have "ws_inv (wire L)" using ok ws_reachable_inv by (auto simp: parts_ok_def)
  from other_step [OF step _ this] False
  have o: "bare_sys (core (app L')) = bare_sys (core (app L))" "attempt L' = attempt L" "done_kept (wire L) (wire L')"
    by auto
  have "tasks (core (app L')) = tasks (core (app L))" using arg_cong [OF o(1), of tasks] by simp
  then show ?thesis by (rule starting_inv_kept [OF inv _ o(2,3)])
qed

lemma linked_starting_inv:
  "linked_reachable D R J timeout L \<Longrightarrow> jsm_documented J \<Longrightarrow> starting_inv L"
proof (induction rule: linked_reachable.induct)
  case init
  show ?case by (simp add: starting_inv_def new_linked_def new_ums_def new_sys_def)
next
  case (step L e L')
  then show ?case using starting_inv_step [OF step.prems linked_parts_ok] by blast
qed

text \<open>
  C11. A start ends after the connection is there: whenever the promise of a \<open>start()\<close> is resolved, the
  transport's promise for the connection that start asked for has been resolved before, that is, the
  connection's socket has opened.
\<close>

theorem started_when_connected:
  assumes "jsm_documented J" and "linked_reachable D R J timeout L"
    and "linked_step D R J timeout e L = Some L'"
    and "outcomes (core (app L')) = (ByUser START, Return ()) # outcomes (core (app L))"
  shows "attempt L < length (connects (wire L)) \<and> connects (wire L) ! attempt L = Connect_done
    \<and> (\<exists>ev. e = Living ev)"
proof -
  have ok: "parts_ok R J timeout L" by (rule linked_parts_ok [OF assms(2,1)])
  have "\<exists>ev. e = Living ev"
  proof (rule ccontr)
    assume "\<not> (\<exists>ev. e = Living ev)"
    moreover have "ws_inv (wire L)" using ok ws_reachable_inv by (auto simp: parts_ok_def)
    ultimately have "bare_sys (core (app L')) = bare_sys (core (app L))" using other_step [OF assms(3)] by blast
    from arg_cong [OF this, of outcomes] show False using assms(4) by simp
  qed
  then obtain ev where e: "e = Living ev" by blast
  obtain c where c: "life_possible L ev" "sys_step J UmsClient ev (core (app L)) = Some c" "core (app L') = c"
    by (rule life_step [OF assms(3) [unfolded e]])
  have "connection_made L"
    using step_past [OF c(2) assms(1) linked_starting_inv [OF assms(2,1)] c(1)] assms(4) c(3) by simp
  then show ?thesis using e by (simp add: connection_made_def)
qed

theorem started_when_connected_witness:
  "\<exists>(L :: (nat, nat, bool \<times> json list) linked).
     linked_step (sample_deployment LEAVE_OPEN) json_runtime reference_jsm 5000 (Living (Reply 0 R_done)) L
       = Some (sample_started LEAVE_OPEN) \<and> connects (wire L) ! attempt L = Connect_done"
proof -
  let ?D = "sample_deployment LEAVE_OPEN" and ?R = json_runtime and ?J = reference_jsm
  obtain L where L: "linked_exec ?D ?R ?J 5000 (linked_starting [] 7 None) new_linked = Some L" "outcomes (core (app L)) = []"
      and last: "linked_step ?D ?R ?J 5000 (Living (Reply 0 R_done)) L = Some (sample_started LEAVE_OPEN)"
    using linked_starting_run [OF reference_jsm_documented sample_deployment_accepted] by blast
  have r: "linked_reachable ?D ?R ?J 5000 L" by (rule linked_exec_reachable [OF linked_reachable.init L(1)])
  have "outcomes (core (app (sample_started LEAVE_OPEN))) = (ByUser START, Return ()) # outcomes (core (app L))"
    by (simp add: L(2)) (simp add: linked_started_def after_start_def new_sys_def)
  from started_when_connected [OF reference_jsm_documented r last this] last show ?thesis by blast
qed

section \<open>A session\<close>

text \<open>
  C2. A whole session, on fresh objects, whatever the state machine and the queue do within their
  documented behaviour: a start connects to the endpoint and resolves; a request puts itself, as the
  only message, into the transport's queue; when the queue works on it, the open socket gets it, once;
  when the server answers with the request's id, the request is fulfilled with this answer; a stop then closes
  the socket and resolves, and neither listeners nor pending messages are left.
\<close>

theorem session_run:
  assumes "jsm_documented J" and "accepted D R x v" and "parses_json R"
    and "0 \<le> messagingMaxRetries (adjustConfByConnectionStrategy (transportConfig D))"
    and "prop_of req ''id'' = Some (JStr i)" and "prop_of resp ''reqId'' = Some (JStr i)" and "well_formed resp"
  shows "\<exists>L1 L2 L3 L4 :: ('s, 'n, 'q) linked.
      linked_exec D R J timeout (linked_start d x v) new_linked = Some L1
    \<and> isConnected (wire L1) \<and> outcomes (core (app L1)) = [(ByUser START, Return ())]
    \<and> linked_step D R J timeout (Request req) L1 = Some L2
    \<and> queues (wire L2) = [aq_push R (Some 0) [req] (aq_resume R (aq_create R))]
    \<and> map rq_state (requests (app L2)) = [Racing]
    \<and> linked_exec D R J timeout [Transport (Work req), Transport (Ws_data 0 (Text (frame resp)))] L2 = Some L3
    \<and> calls (wire L3) = [Transmit 0 req] \<and> map rq_state (requests (app L3)) = [Fulfilled resp]
    \<and> linked_exec D R J timeout (linked_stop 0) L3 = Some L4
    \<and> calls (wire L4) = [Transmit 0 req, Close 0] \<and> \<not> isConnected (wire L4)
    \<and> outcomes (core (app L4)) = [(ByUser STOP, Return ()), (ByUser START, Return ())]
    \<and> requests (app L4) = requests (app L3) \<and> pendingMessages (app L4) = 0"
proof -
  define L1 where "L1 = (linked_started D R d x v :: ('s, 'n, 'q) linked)"
  define L2 where "L2 = (linked_requested D R d x v i req :: ('s, 'n, 'q) linked)"
  have w1: "wire L1 = started_wire D R x v" by (simp add: L1_def)
  note f = started_fields [OF assms(2), folded w1]
  have r1: "linked_reachable D R J timeout L1" unfolding L1_def by (rule linked_started_reachable [OF assms(1,2)])
  have step2: "linked_step D R J timeout (Request req) L1 = Some L2"
    unfolding L1_def L2_def by (rule request_run(1) [OF assms(5,2)])
  have r2: "linked_reachable D R J timeout L2" by (rule linked_reachable.step [OF r1 step2])
  have w2: "wire L2 = ws_sendMessage R req (wire L1)" "app L2 = snd (ums_sendMessage i (app L1))"
    by (simp_all add: L2_def L1_def linked_requested_def Let_def)
  have f2: "ws (wire L2) = Some 0" "sockets (wire L2) = sockets (wire L1)" "conf (wire L2) = conf (wire L1)"
    "calls (wire L2) = []" "received (wire L2) = []"
    using f by (simp_all add: w2 ws_sendMessage_def sendMessages_def sendWithCb_def)
  have a2: "requests (app L2) = [\<lparr>rq_id = i, rq_state = Racing, rq_timer = True\<rparr>]" "listening (app L2) 0"
    "msg_listeners (client_of L2) = Suc 0"
    by (simp_all add: w2 L1_def linked_started_def after_start_def new_sys_def new_client_def ums_sendMessage_def
        listenerCount_def umsRequest_def Let_def checkStarted_def started_def listening_def ee.hs_once)
  define L2' where "L2' = L2\<lparr>wire := transmit R req (wire L2)\<rparr>"
  have q: "quiet (wire L2) (wire L2')" unfolding L2'_def by (simp add: quiet_transmit)
  have f3: "calls (wire L2') = [Transmit 0 req]" "sockets (wire L2') = sockets (wire L1)" "ws (wire L2') = Some 0"
    using f f2 assms(4)
    by (simp_all add: L2'_def transmit_def Let_def waitForSocketConnection_def retries_in_use_def socket_waited_def)
  have work: "linked_step D R J timeout (Transport (Work req)) L2 = Some L2'"
    using q f2 by (simp add: transport_event_def L2'_def quiet_def)
  have r2': "linked_reachable D R J timeout L2'" by (rule linked_reachable.step [OF r2 work])
  have app2': "app L2' = app L2" by (simp add: L2'_def)
  have ok: "parts_ok R J timeout L2'" by (rule linked_parts_ok [OF r2' assms(1)])
  have inv: "ums_inv (app L2')" using ok ums_reachable_inv assms(1) by (auto simp: parts_ok_def)
  have parse: "parse_message R (frame resp) = Return resp" using assms(3,7) by (simp add: parses_json_def frame_def)
  have p: "0 < length (sockets (wire L2'))" by (simp add: f3 f)
  have m: "msg_listeners (client_of L2') = Suc 0" by (simp add: app2' a2)
  define L3 where "L3 = L2'\<lparr>app := snd (deliver (Suc 0) resp (app L2')), wire := (wire L2')\<lparr>received :=
      received (wire L2') @ map (\<lambda>c. (c, resp)) (message_callbacks (wire L2'))\<rparr>\<rparr>"
  note data = wire_message [OF ok p parse m, folded L3_def]
  have l: "listening (app L2') 0" "prop_of resp ''reqId'' = Some (JStr (rq_id (requests (app L2') ! 0)))"
    using a2 assms(6) by (simp_all add: app2')
  have app3: "app L3 = answered 0 resp (app L2')"
    using deliver_response [OF inv l, of 0] by (simp add: L3_def del: deliver.simps)
  have a3: "map rq_state (requests (app L3)) = [Fulfilled resp]"
    using answered_requests [OF l(1)] by (simp add: app3 app2' a2)
  have core3: "idle STARTED (core (app L3))" "leSession (client_of L3) = Some x"
    "outcomes (core (app L3)) = [(ByUser START, Return ())]"
    by (simp_all add: app3 answered_def app2' w2 L1_def linked_started_def after_start_def new_sys_def new_client_def
        ums_sendMessage_def listenerCount_def umsRequest_def Let_def idle_def with_this_def)
  have f4: "listener_inv (wire L3)" "ws (wire L3) = Some 0" "readyState (sockets (wire L3) ! 0) = OPEN"
    "0 < length (sockets (wire L3))" "calls (wire L3) = [Transmit 0 req]"
    using f3 f linked_listener_inv [OF assms(1) linked_reachable.step [OF r2' data]] by (simp_all add: L3_def)
  obtain L4 where stop: "linked_exec D R J timeout (linked_stop 0) L3 = Some L4" "core (app L4) = after_stop (core (app L3))"
      "requests (app L4) = requests (app L3)" "wire L4 = closed_connection R 0 (wire L3)"
    using linked_stop_run [OF assms(1) core3(1,2) f4(1-4)] by blast
  have end4: "calls (wire L4) = [Transmit 0 req, Close 0]" "\<not> isConnected (wire L4)"
    "outcomes (core (app L4)) = [(ByUser STOP, Return ()), (ByUser START, Return ())]" "pendingMessages (app L4) = 0"
    using closed_connection_fields [OF f4(1-3), of R] f4(5) core3(3)
    by (simp_all add: stop isConnected_def after_stop_def pendingMessages_def removeUmsListeners_def
        removeAllListeners_def eventNames_def)
  have start: "linked_exec D R J timeout (linked_start d x v) new_linked = Some L1"
    unfolding L1_def by (rule linked_start_run [OF assms(1,2)])
  have s1: "isConnected (wire L1)" "outcomes (core (app L1)) = [(ByUser START, Return ())]"
    using f by (simp_all add: isConnected_def) (simp add: L1_def linked_started_def after_start_def new_sys_def)
  have mid: "linked_exec D R J timeout [Transport (Work req), Transport (Ws_data 0 (Text (frame resp)))] L2 = Some L3"
    using work data by (simp del: linked_step.simps)
  have s2: "queues (wire L2) = [aq_push R (Some 0) [req] (aq_resume R (aq_create R))]" "map rq_state (requests (app L2)) = [Racing]"
    by (simp_all add: L2_def request_run(2) [OF assms(5,2)]) (simp add: L2_def [symmetric] a2)
  show ?thesis
    by (intro exI [of _ L1] exI [of _ L2] exI [of _ L3] exI [of _ L4] conjI)
       (rule start s1 step2 s2 mid f4(5) a3 stop(1,3) end4)+
qed

theorem session_run_witness:
  "\<exists>L :: (nat, nat, bool \<times> json list) linked. map rq_state (requests (app L)) = [Fulfilled (answer_to ''a'')]
     \<and> calls (wire L) = [Transmit 0 (request_for ''a'')]"
proof -
  have "0 \<le> messagingMaxRetries (adjustConfByConnectionStrategy (transportConfig (sample_deployment LEAVE_OPEN)))"
    by (simp add: sample_deployment_def adjustConfByConnectionStrategy_def sample_config_def ws_config_defs)
  from session_run [OF reference_jsm_documented sample_deployment_accepted json_runtime_parses this request_for_id
      answer_to_id, where timeout = 5000 and 'n = nat and d = "[]" and x = 7 and v = None and i = "''a''"]
  show ?thesis by (elim exE conjE) (intro exI conjI, assumption, assumption)
qed

section \<open>A transport that has closed itself\<close>

lemma drain_step:
  assumes ok: "parts_ok R J timeout L" and h: "map_of (timers (wire L)) h = Some t"
  shows "\<exists>w. linked_step D R J timeout (Transport (Ws_timeout h)) L = Some (L\<lparr>wire := w\<rparr>)
    \<and> ws w = None \<and> sendingQueue w = None \<and> sends w = sends (wire L)"
proof -
  have inv: "ws_inv (wire L)" using ok ws_reachable_inv by (auto simp: parts_ok_def)
  let ?w = "fire_timer R t ((wire L)\<lparr>timers := del h (timers (wire L))\<rparr>)"
  have t: "t = Drain_timer" using inv h by (auto simp: ws_inv_def timer_inv_def split: option.splits if_splits)
  have "received ?w = received (wire L)" using quiet_fired [OF inv h] by (simp add: quiet_def)
  then have "linked_step D R J timeout (Transport (Ws_timeout h)) L = Some (L\<lparr>wire := ?w\<rparr>)"
    using h by (simp add: transport_event_def)
  then show ?thesis using t by (intro exI [of _ ?w]) simp
qed

text \<open>
  C12. A transport that closes itself leaves a client that looks started: when the transport's drain timer
  fires, which it does after the configured time without a message, the client is not told; it stays in
  the state it is in, and from then on every request is rejected with the transport's queue-not-ready
  error, with nothing sent and no listener left behind.
\<close>

theorem drained_transport_fails_requests:
  assumes "jsm_documented J" and "linked_reachable D R J timeout L"
    and "map_of (timers (wire L)) h = Some t" and "started (client_of L)"
    and "prop_of req ''id'' = Some (JStr i)" and "listenerCount i (umsResponseHandler (client_of L)) = 0"
    and "k = length (requests (app L))"
  shows "\<exists>L1 L2. linked_step D R J timeout (Transport (Ws_timeout h)) L = Some L1
    \<and> app L1 = app L \<and> started (client_of L1) \<and> \<not> isConnected (wire L1)
    \<and> linked_exec D R J timeout [Request req, Refused k, Request_catch k] L1 = Some L2
    \<and> requests (app L2) = requests (app L) @ [\<lparr>rq_id = i, rq_state = Failed queue_not_ready, rq_timer = True\<rparr>]
    \<and> calls (wire L2) = calls (wire L1)
    \<and> handlers (umsResponseHandler (client_of L2)) = handlers (umsResponseHandler (client_of L))"
proof -
  obtain w where w: "linked_step D R J timeout (Transport (Ws_timeout h)) L = Some (L\<lparr>wire := w\<rparr>)"
      "ws w = None" "sendingQueue w = None"
    using drain_step [OF linked_parts_ok [OF assms(2,1)] assms(3), of D] by blast
  let ?w = "ws_sendMessage R req w"
  have s: "sends ?w ! length (sends w) = Rejected_with queue_not_ready" "calls ?w = calls w"
    using w(3) by (simp_all add: ws_sendMessage_def sendMessages_def sendWithCb_def settle_first_def list_update_append)
  have i: "handlers (umsResponseHandler (client_of L)) i = []" using assms(6) by (simp add: ee.hs_count)
  let ?a = "umsRequest i (app L)"
  have a: "requests ?a = requests (app L) @ [\<lparr>rq_id = i, rq_state = Racing, rq_timer = True\<rparr>]"
    "handlers (umsResponseHandler (ums_this ?a)) = (handlers (umsResponseHandler (client_of L)))(i := [(True, k)])"
    using assms(4,7) i by (simp_all add: umsRequest_def Let_def checkStarted_def ee.hs_once)
  define L2 where "L2 = L\<lparr>wire := ?w, posted := (k, length (sends w)) # posted L,
    app := catch_rejection k queue_not_ready (?a\<lparr>requests := settle k (Rejecting queue_not_ready) (requests ?a)\<rparr>)\<rparr>"
  have run: "linked_exec D R J timeout [Request req, Refused k, Request_catch k] (L\<lparr>wire := w\<rparr>) = Some L2"
    using assms(4,5,7) i s a(1)
    by (simp add: linked_sendMessage_def ums_sendMessage_def ee.hs_count settle_def L2_def)
  have "requests (app L2) = requests (app L) @ [\<lparr>rq_id = i, rq_state = Failed queue_not_ready, rq_timer = True\<rparr>]"
    "handlers (umsResponseHandler (client_of L2)) = handlers (umsResponseHandler (client_of L))"
    using a assms(7) i by (simp_all add: L2_def catch_rejection_def settle_def ee.hs_clear fun_eq_iff)
  moreover have "calls (wire L2) = calls w" by (simp add: L2_def s(2))
  ultimately show ?thesis
    using w run assms(4)
    by (intro exI [of _ "L\<lparr>wire := w\<rparr>"] exI [of _ L2]) (simp add: isConnected_def del: linked_exec.simps linked_step.simps)
qed

theorem drained_transport_fails_requests_witness:
  "\<exists>(L :: (nat, nat, bool \<times> json list) linked) h L1 L2. linked_step (sample_deployment CLOSE_IMMEDIATE) json_runtime reference_jsm 5000 (Transport (Ws_timeout h)) L = Some L1
    \<and> started (client_of L1) \<and> linked_exec (sample_deployment CLOSE_IMMEDIATE) json_runtime reference_jsm 5000
        [Request (request_for ''a''), Refused 0, Request_catch 0] L1 = Some L2
    \<and> map rq_state (requests (app L2)) = [Failed queue_not_ready]"
proof -
  obtain h where h: "map_of (timers (wire sample_draining)) h = Some Drain_timer" using sample_draining_timer by blast
  have c: "started (client_of sample_draining)" "listenerCount ''a'' (umsResponseHandler (client_of sample_draining)) = 0"
    "0 = length (requests (app sample_draining))" "requests (app sample_draining) = []"
    by (simp_all add: sample_draining_def listenerCount_def)
  note drained = drained_transport_fails_requests [OF reference_jsm_documented sample_draining_reachable h c(1) request_for_id c(2,3)]
  then obtain L1 L2 where r:
    "linked_step (sample_deployment CLOSE_IMMEDIATE) json_runtime reference_jsm 5000 (Transport (Ws_timeout h)) sample_draining = Some L1"
    "started (client_of L1)" "linked_exec (sample_deployment CLOSE_IMMEDIATE) json_runtime reference_jsm 5000
        [Request (request_for ''a''), Refused 0, Request_catch 0] L1 = Some L2"
    "map rq_state (requests (app L2)) = [Failed queue_not_ready]"
    using c(4) by (auto simp del: linked_step.simps linked_exec.simps)
  show ?thesis by (intro exI conjI) (rule r)+
qed

end
