(* ===== verification/Csds_Caching.thy ===== *)
theory Csds_Caching
  imports Csds_Resolver
begin

text \<open>
  \<open>packages/csds-caching-resolver/src/resolver.ts\<close>: the simple resolver with its \<open>resolve\<close> memorized by the
  account and the service asked for. The memorizing is the \<open>mem\<close> package's: a record of operations with
  what the package documents as the hypothesis \<open>mem_documented\<close>.
\<close>

section \<open>The cache key\<close>

definition DEFAULT_CACHE_MAX_AGE :: int where
  "DEFAULT_CACHE_MAX_AGE = 1000 * 60 * 10"

text \<open>The key under which an answer is memorized.\<close>

definition cacheKey :: "csds_config \<Rightarrow> string" where
  "cacheKey options =
     (case service options of
        Some (c # cs) \<Rightarrow> accountId options @ ''_'' @ (c # cs)
      | _ \<Rightarrow> accountId options)"

text \<open>
  An account id may contain an underscore, so the key does not determine the account: equal keys are
  those of the same request, or of two accounts one of which is the other one with an underscore and
  more behind it.
\<close>

lemma cacheKey_segment: "\<exists>rest. cacheKey c = accountId c @ rest \<and> (rest = [] \<or> (\<exists>s. rest = CHR ''_'' # s))"
  by (auto simp: cacheKey_def split: option.splits list.splits)

lemma cacheKey_same_account:
  "cacheKey c = cacheKey c' \<Longrightarrow> accountId c = accountId c' \<Longrightarrow> service_segment c = service_segment c'"
  by (auto simp: cacheKey_def service_segment_def hasService_def split: option.splits list.splits)

lemma cacheKey_other_account:
  assumes "cacheKey c = cacheKey c'" and "accountId c \<noteq> accountId c'"
  shows "\<exists>rest. accountId c = accountId c' @ CHR ''_'' # rest \<or> accountId c' = accountId c @ CHR ''_'' # rest"
proof -
  obtain r r' where r: "cacheKey c = accountId c @ r" "r = [] \<or> (\<exists>s. r = CHR ''_'' # s)"
      "cacheKey c' = accountId c' @ r'" "r' = [] \<or> (\<exists>s. r' = CHR ''_'' # s)"
    using cacheKey_segment [of c] cacheKey_segment [of c'] by blast
  then have "accountId c @ r = accountId c' @ r'" using assms(1) by simp
  then obtain us where "accountId c = accountId c' @ us \<and> us @ r = r' \<or> accountId c @ us = accountId c' \<and> r = us @ r'"
    by (auto simp: append_eq_append_conv2)
  then show ?thesis using assms(2) r(2,4) by (auto simp: append_eq_Cons_conv Cons_eq_append_conv) metis+
qed

text \<open>Within one directory, equal keys of one account mean equal requests.\<close>

lemma cache_key_url:
  assumes "cacheKey c = cacheKey c'" and "csdsDomain c = csdsDomain c'" and "accountId c = accountId c'"
  shows "baseURI_url c = baseURI_url c'"
  using cacheKey_same_account [OF assms(1,3)] assms(2,3) by (simp add: baseURI_url_def)

section \<open>Memorizing\<close>

text \<open>
  \<open>memorize(fn, {maxAge, cacheKey})\<close> for a function that returns promises, which are numbers here.
  \<open>mem_call maxAge now key fresh m\<close> is a call with arguments of the key: it gives a promise of an earlier
  call, or else calls the function, which makes the promise \<open>fresh\<close>. \<open>mem_rejected key p m\<close> is what
  happens when the promise \<open>p\<close> of a call with that key is rejected. \<open>mem_kept\<close> is what is memorized: for a
  key, the time of the call and its promise.
\<close>

record 'm mem_package =
  mem_new :: 'm
  mem_call :: "int \<Rightarrow> int \<Rightarrow> string \<Rightarrow> nat \<Rightarrow> 'm \<Rightarrow> nat \<times> 'm"
  mem_rejected :: "string \<Rightarrow> nat \<Rightarrow> 'm \<Rightarrow> 'm"
  mem_kept :: "'m \<Rightarrow> string \<Rightarrow> (int \<times> nat) option"

text \<open>
  Documented: nothing is memorized at first; a memorized promise is given until it is \<open>maxAge\<close> old, and
  after that, or when there is none, the function is called and its promise memorized; rejected
  promises are not kept.
\<close>

definition gives_kept :: "'m mem_package \<Rightarrow> bool" where
  "gives_kept M \<longleftrightarrow>
     (\<forall>maxAge now key fresh m t p. mem_kept M m key = Some (t, p) \<longrightarrow> now < t + maxAge \<longrightarrow>
        mem_call M maxAge now key fresh m = (p, m))"

definition keeps_called :: "'m mem_package \<Rightarrow> bool" where
  "keeps_called M \<longleftrightarrow>
     (\<forall>maxAge now key fresh m. (\<forall>t p. mem_kept M m key = Some (t, p) \<longrightarrow> t + maxAge \<le> now) \<longrightarrow>
        (\<exists>m'. mem_call M maxAge now key fresh m = (fresh, m') \<and> mem_kept M m' = (mem_kept M m)(key \<mapsto> (now, fresh))))"

definition drops_rejected :: "'m mem_package \<Rightarrow> bool" where
  "drops_rejected M \<longleftrightarrow>
     (\<forall>key p m k t q. mem_kept M (mem_rejected M key p m) k = Some (t, q) \<longrightarrow>
        mem_kept M m k = Some (t, q) \<and> (k = key \<longrightarrow> q \<noteq> p))"

definition mem_documented :: "'m mem_package \<Rightarrow> bool" where
  "mem_documented M \<longleftrightarrow>
     mem_kept M (mem_new M) = Map.empty \<and> gives_kept M \<and> keeps_called M \<and> drops_rejected M"

lemma mem_documented_new: "mem_documented M \<Longrightarrow> mem_kept M (mem_new M) k = None"
  by (simp add: mem_documented_def)

lemma mem_documented_hit:
  "mem_documented M \<Longrightarrow> mem_kept M m key = Some (t, p) \<Longrightarrow> now < t + maxAge \<Longrightarrow>
     mem_call M maxAge now key fresh m = (p, m)"
  unfolding mem_documented_def gives_kept_def by blast

lemma mem_documented_miss:
  assumes "mem_documented M" and "\<And>t p. mem_kept M m key = Some (t, p) \<Longrightarrow> t + maxAge \<le> now"
  shows "\<exists>m'. mem_call M maxAge now key fresh m = (fresh, m') \<and> mem_kept M m' = (mem_kept M m)(key \<mapsto> (now, fresh))"
proof -
  have "keeps_called M" using assms(1) by (simp add: mem_documented_def)
  then show ?thesis using assms(2) unfolding keeps_called_def by meson
qed

lemma mem_documented_rejected:
  assumes "mem_documented M" and "mem_kept M (mem_rejected M key p m) k = Some (t, q)"
  shows "mem_kept M m k = Some (t, q) \<and> (k = key \<longrightarrow> q \<noteq> p)"
proof -
  have "drops_rejected M" using assms(1) by (simp add: mem_documented_def)
  then show ?thesis using assms(2) unfolding drops_rejected_def by (elim allE impE) (assumption, blast)
qed

text \<open>A call, by whether it is answered from the memory.\<close>

lemma mem_call_cases:
  assumes "mem_documented M"
  obtains (hit) t p where "mem_kept M m key = Some (t, p)" "now < t + maxAge"
      "mem_call M maxAge now key fresh m = (p, m)"
    | (miss) m' where "mem_call M maxAge now key fresh m = (fresh, m')"
      "mem_kept M m' = (mem_kept M m)(key \<mapsto> (now, fresh))"
proof (cases "\<exists>t p. mem_kept M m key = Some (t, p) \<and> now < t + maxAge")
  case True
  then show ?thesis using hit mem_documented_hit [OF assms] by blast
next
  case False
  then have "t + maxAge \<le> now" if "mem_kept M m key = Some (t, p)" for t p using that by fastforce
  then have "\<exists>m'. mem_call M maxAge now key fresh m = (fresh, m') \<and> mem_kept M m' = (mem_kept M m)(key \<mapsto> (now, fresh))"
    by (rule mem_documented_miss [OF assms])
  then show ?thesis using miss by blast
qed

definition reference_mem :: "(string \<Rightarrow> (int \<times> nat) option) mem_package" where
  "reference_mem = \<lparr>mem_new = Map.empty,
     mem_call = (\<lambda>maxAge now key fresh m.
       case m key of
         Some (t, p) \<Rightarrow> if now < t + maxAge then (p, m) else (fresh, m(key \<mapsto> (now, fresh)))
       | None \<Rightarrow> (fresh, m(key \<mapsto> (now, fresh)))),
     mem_rejected = (\<lambda>key p m. m(key := None)),
     mem_kept = (\<lambda>m. m)\<rparr>"

lemma reference_mem_documented: "mem_documented reference_mem"
  by (auto simp: mem_documented_def gives_kept_def keeps_called_def drops_rejected_def reference_mem_def
      split: option.splits if_splits)

section \<open>The resolver\<close>

text \<open>
  An object of the class: the maximal age and the memory the constructor gives it, and the promises
  \<open>super.resolve\<close> has made, each with the time and the options of its call and its answer, if it has one.
\<close>

type_synonym csds_answer = "js_error + csds_response"

record 'm caching_resolver =
  maxAge :: int
  memory :: 'm
  asked :: "(int \<times> csds_config \<times> csds_answer option) list"

definition CachingCsdsResolver :: "'m mem_package \<Rightarrow> int option \<Rightarrow> 'm caching_resolver" where
  "CachingCsdsResolver M age =
     \<lparr>maxAge = (case age of None \<Rightarrow> DEFAULT_CACHE_MAX_AGE | Some a \<Rightarrow> a), memory = mem_new M, asked = []\<rparr>"

text \<open>\<open>resolve\<close> at a time: the promise it returns.\<close>

definition caching_resolve ::
  "'m mem_package \<Rightarrow> int \<Rightarrow> csds_config \<Rightarrow> 'm caching_resolver \<Rightarrow> nat \<times> 'm caching_resolver" where
  "caching_resolve M now options c =
     (let fresh = length (asked c);
          (p, m) = mem_call M (maxAge c) now (cacheKey options) fresh (memory c)
      in (p, c\<lparr>memory := m, asked := asked c @ (if p = fresh then [(now, options, None)] else [])\<rparr>))"

text \<open>The directory answers a request, being in the state \<open>w\<close>.\<close>

definition caching_answered ::
  "'m mem_package \<Rightarrow> 'w got_fn \<Rightarrow> nat \<Rightarrow> 'w \<Rightarrow> 'm caching_resolver \<Rightarrow> 'm caching_resolver" where
  "caching_answered M getFn p w c =
     (case asked c ! p of
        (t, options, Some a) \<Rightarrow> c
      | (t, options, None) \<Rightarrow>
          (let a = fst (simple_resolve getFn options w)
           in c\<lparr>asked := (asked c)[p := (t, options, Some a)],
                memory := (case a of Inl e \<Rightarrow> mem_rejected M (cacheKey options) p (memory c) | Inr r \<Rightarrow> memory c)\<rparr>))"

text \<open>The states of a resolver that is asked about accounts of one directory.\<close>

definition account_of :: "string \<Rightarrow> csds_config \<Rightarrow> bool" where
  "account_of directory options \<longleftrightarrow> csdsDomain options = directory"

inductive caching_reachable ::
  "'m mem_package \<Rightarrow> 'w got_fn \<Rightarrow> string \<Rightarrow> int option \<Rightarrow> 'm caching_resolver \<Rightarrow> bool" for M getFn directory age where
  new: "caching_reachable M getFn directory age (CachingCsdsResolver M age)"
| resolve: "caching_reachable M getFn directory age c \<Longrightarrow> account_of directory options \<Longrightarrow>
     caching_reachable M getFn directory age (snd (caching_resolve M now options c))"
| answered: "caching_reachable M getFn directory age c \<Longrightarrow> p < length (asked c) \<Longrightarrow>
     caching_reachable M getFn directory age (caching_answered M getFn p w c)"

section \<open>What the memory holds\<close>

text \<open>
  A request's answer is the simple resolver's, and what is memorized for a key is a request of that
  key, with its time, that has not failed.
\<close>

definition request_ok :: "'w got_fn \<Rightarrow> string \<Rightarrow> int \<times> csds_config \<times> csds_answer option \<Rightarrow> bool" where
  "request_ok getFn directory r \<longleftrightarrow>
     (case r of (t, options, out) \<Rightarrow> account_of directory options
        \<and> (\<forall>a. out = Some a \<longrightarrow> (\<exists>w. fst (simple_resolve getFn options w) = a)))"

definition kept_ok :: "'m mem_package \<Rightarrow> 'm caching_resolver \<Rightarrow> bool" where
  "kept_ok M c \<longleftrightarrow>
     (\<forall>key t p. mem_kept M (memory c) key = Some (t, p) \<longrightarrow>
        p < length (asked c) \<and> (\<exists>options out. asked c ! p = (t, options, out) \<and> cacheKey options = key
          \<and> (\<forall>e. out \<noteq> Some (Throw e))))"

definition caching_inv :: "'m mem_package \<Rightarrow> 'w got_fn \<Rightarrow> string \<Rightarrow> 'm caching_resolver \<Rightarrow> bool" where
  "caching_inv M getFn directory c \<longleftrightarrow> kept_ok M c \<and> list_all (request_ok getFn directory) (asked c)"

lemma kept_okD:
  assumes "kept_ok M c" and "mem_kept M (memory c) key = Some (t, p)"
  shows "p < length (asked c) \<and> (\<exists>options out. asked c ! p = (t, options, out) \<and> cacheKey options = key
    \<and> (\<forall>e. out \<noteq> Some (Throw e)))"
  using assms unfolding kept_ok_def by blast

text \<open>A call is answered with a memorized promise, or makes a request.\<close>

lemma caching_resolve_cases:
  assumes "mem_documented M" and "kept_ok M c"
  obtains (hit) t p where "mem_kept M (memory c) (cacheKey options) = Some (t, p)" "now < t + maxAge c"
      "caching_resolve M now options c = (p, c)"
    | (miss) m where "mem_kept M m = (mem_kept M (memory c))(cacheKey options \<mapsto> (now, length (asked c)))"
      "caching_resolve M now options c =
         (length (asked c), c\<lparr>memory := m, asked := asked c @ [(now, options, None)]\<rparr>)"
proof (cases rule: mem_call_cases [OF assms(1), of "memory c" "cacheKey options" now "maxAge c" "length (asked c)"])
  case (1 t p)
  then have "p < length (asked c)" using kept_okD [OF assms(2)] by blast
  then show ?thesis using hit 1 by (simp add: caching_resolve_def)
next
  case (2 m)
  then show ?thesis using miss by (simp add: caching_resolve_def)
qed

lemma kept_ok_resolve:
  assumes "mem_documented M" and "kept_ok M c"
  shows "kept_ok M (snd (caching_resolve M now options c))"
proof (cases rule: caching_resolve_cases [OF assms, of options now])
  case (2 m)
  show ?thesis
    unfolding 2(2) kept_ok_def
  proof (intro allI impI)
    fix key t p
    assume "mem_kept M (memory (snd (length (asked c), c\<lparr>memory := m, asked := asked c @ [(now, options, None)]\<rparr>))) key = Some (t, p)"
    then have k: "((mem_kept M (memory c))(cacheKey options \<mapsto> (now, length (asked c)))) key = Some (t, p)"
      by (simp add: 2(1))
    show "p < length (asked (snd (length (asked c), c\<lparr>memory := m, asked := asked c @ [(now, options, None)]\<rparr>)))
      \<and> (\<exists>options' out. asked (snd (length (asked c), c\<lparr>memory := m, asked := asked c @ [(now, options, None)]\<rparr>)) ! p
          = (t, options', out) \<and> cacheKey options' = key \<and> (\<forall>e. out \<noteq> Some (Throw e)))"
    proof (cases "key = cacheKey options")
      case False
      then show ?thesis using k kept_okD [OF assms(2), of key t p] by (auto simp: nth_append)
    qed (use k in \<open>auto simp: nth_append\<close>)
  qed
qed (use assms(2) in simp)

lemma caching_inv_resolve:
  assumes "mem_documented M" and "caching_inv M getFn directory c" and "account_of directory options"
  shows "caching_inv M getFn directory (snd (caching_resolve M now options c))"
proof -
  have k: "kept_ok M c" using assms(2) by (simp add: caching_inv_def)
  have "list_all (request_ok getFn directory) (asked (snd (caching_resolve M now options c)))"
    using assms(2,3) by (auto simp: caching_resolve_def Let_def caching_inv_def request_ok_def split: prod.splits)
  then show ?thesis using kept_ok_resolve [OF assms(1) k] by (simp add: caching_inv_def)
qed

lemma maxAge_kept [simp]:
  "maxAge (snd (caching_resolve M now options c)) = maxAge c" "maxAge (caching_answered M getFn p w c) = maxAge c"
  by (simp_all add: caching_resolve_def caching_answered_def Let_def split: prod.splits option.splits)

lemma caching_inv_answered:
  assumes M: "mem_documented M" and inv: "caching_inv M getFn directory c" and p: "p < length (asked c)"
  shows "caching_inv M getFn directory (caching_answered M getFn p w c)"
proof -
  obtain t options out where r: "asked c ! p = (t, options, out)" by (cases "asked c ! p") auto
  show ?thesis
  proof (cases out)
    case None
    let ?c = "caching_answered M getFn p w c" and ?a = "fst (simple_resolve getFn options w)"
    have a: "asked ?c = (asked c)[p := (t, options, Some ?a)]"
      using r None by (simp add: caching_answered_def Let_def)
    have ok: "list_all (request_ok getFn directory) (asked c)" "kept_ok M c" using inv by (simp_all add: caching_inv_def)
    have "request_ok getFn directory (asked c ! p)" using ok(1) p by (simp add: list_all_length)
    then have "request_ok getFn directory (t, options, Some ?a)" by (auto simp: request_ok_def r)
    then have "list_all (request_ok getFn directory) (asked ?c)"
      using ok(1) p by (auto simp: a list_all_length nth_list_update)
    moreover have "kept_ok M ?c"
      unfolding kept_ok_def
    proof (intro allI impI)
      fix key s q
      assume "mem_kept M (memory ?c) key = Some (s, q)"
      then have k: "mem_kept M (memory c) key = Some (s, q) \<and> (key = cacheKey options \<longrightarrow> q = p \<longrightarrow> (\<forall>e. ?a \<noteq> Throw e))"
      proof (cases ?a)
        case (Inl e)
        then have "memory ?c = mem_rejected M (cacheKey options) p (memory c)"
          using r None by (simp add: caching_answered_def Let_def)
        with \<open>mem_kept M (memory ?c) key = Some (s, q)\<close> show ?thesis
          using mem_documented_rejected [OF M, of "cacheKey options" p "memory c" key s q] by simp
      qed (use r None in \<open>simp add: caching_answered_def Let_def\<close>)
      then show "q < length (asked ?c) \<and> (\<exists>options out. asked ?c ! q = (s, options, out) \<and> cacheKey options = key
          \<and> (\<forall>e. out \<noteq> Some (Throw e)))"
        using kept_okD [OF ok(2), of key s q] r p by (cases "q = p") (auto simp: a)
    qed
    ultimately show ?thesis by (simp add: caching_inv_def)
  qed (use inv r in \<open>simp add: caching_answered_def\<close>)
qed

lemma caching_reachable_inv:
  assumes "mem_documented M" and "caching_reachable M getFn directory age c"
  shows "caching_inv M getFn directory c \<and> maxAge c = maxAge (CachingCsdsResolver M age)"
  using assms(2)
proof induction
  case new
  then show ?case
    using mem_documented_new [OF assms(1)] by (simp add: caching_inv_def kept_ok_def CachingCsdsResolver_def)
next
  case (resolve c options now)
  then show ?case using caching_inv_resolve [OF assms(1), of getFn directory] by simp
next
  case (answered c p w)
  then show ?case using caching_inv_answered [OF assms(1), of getFn directory] by simp
qed

section \<open>What a caller gets\<close>

text \<open>
  C34. A cached answer is recent, and right but for one defect of the key. As long as the accounts are of
  one directory, the promise \<open>resolve\<close> returns is that of a request of the same key, either the one it
  makes now for the caller's options, or one made less than the maximal age ago that has not failed;
  what a request is answered with is what the simple resolver gives for the options it was made with.
  That request has the very URL of the caller's options, so that the simple resolver gives the same for
  both, unless it was made for another account and one of the two account ids is the other one followed
  by an underscore. In this case the key is no help: a caller that asks for such an account without a
  service gets the answer for the shorter account's service, which has another URL.
\<close>

theorem cached_answers_fresh:
  assumes "mem_documented M" and "caching_reachable M getFn directory age c" and "account_of directory options"
    and "caching_resolve M now options c = (p, c')"
  shows "(\<exists>t asked_for out. p < length (asked c') \<and> asked c' ! p = (t, asked_for, out) \<and> cacheKey asked_for = cacheKey options
      \<and> (if p = length (asked c) then t = now \<and> asked_for = options \<and> out = None
         else c' = c \<and> now < t + (case age of None \<Rightarrow> DEFAULT_CACHE_MAX_AGE | Some a \<Rightarrow> a) \<and> (\<forall>e. out \<noteq> Some (Throw e)))
      \<and> (\<forall>a. out = Some a \<longrightarrow> (\<exists>w. fst (simple_resolve getFn asked_for w) = a))
      \<and> (baseURI_url asked_for = baseURI_url options \<and> (\<forall>w. simple_resolve getFn asked_for w = simple_resolve getFn options w)
         \<or> (\<exists>rest. accountId asked_for = accountId options @ CHR ''_'' # rest \<or> accountId options = accountId asked_for @ CHR ''_'' # rest)))
    \<and> (\<forall>s now' longer. service options = Some s \<longrightarrow> s \<noteq> [] \<longrightarrow> p = length (asked c) \<longrightarrow>
        now' < now + (case age of None \<Rightarrow> DEFAULT_CACHE_MAX_AGE | Some a \<Rightarrow> a) \<longrightarrow>
        longer = options\<lparr>accountId := accountId options @ CHR ''_'' # s, service := None\<rparr> \<longrightarrow>
        caching_resolve M now' longer c' = (p, c') \<and> baseURI_url longer \<noteq> baseURI_url options)"
proof -
  have inv: "kept_ok M c" "list_all (request_ok getFn directory) (asked c)"
      "maxAge c = (case age of None \<Rightarrow> DEFAULT_CACHE_MAX_AGE | Some a \<Rightarrow> a)"
    using caching_reachable_inv [OF assms(1,2)] by (simp_all add: caching_inv_def CachingCsdsResolver_def)
  show ?thesis
  proof (cases rule: caching_resolve_cases [OF assms(1) inv(1), of options now])
    case (1 t q)
    then obtain asked_for out where q: "q < length (asked c)" "asked c ! q = (t, asked_for, out)" "cacheKey asked_for = cacheKey options"
        "\<forall>e. out \<noteq> Some (Throw e)"
      using kept_okD [OF inv(1)] by blast
    then have of: "account_of directory asked_for" "\<forall>a. out = Some a \<longrightarrow> (\<exists>w. fst (simple_resolve getFn asked_for w) = a)"
      using inv(2) by (auto simp: list_all_length request_ok_def)
    have "baseURI_url asked_for = baseURI_url options \<and> (\<forall>w. simple_resolve getFn asked_for w = simple_resolve getFn options w)
        \<or> (\<exists>rest. accountId asked_for = accountId options @ CHR ''_'' # rest \<or> accountId options = accountId asked_for @ CHR ''_'' # rest)"
    proof (cases "accountId asked_for = accountId options")
      case True
      then have url: "baseURI_url asked_for = baseURI_url options"
        using of(1) assms(3) by (intro cache_key_url q(3)) (simp_all add: account_of_def)
      show ?thesis using simple.resolve_by_url [OF url, of getFn] url by blast
    next
      case False
      from cacheKey_other_account [OF q(3) False] show ?thesis by blast
    qed
    then show ?thesis using 1 q of(2) assms(4) by (auto simp: inv(3))
  next
    case (2 m)
    then have p: "p = length (asked c)" "c' = c\<lparr>memory := m, asked := asked c @ [(now, options, None)]\<rparr>"
      using assms(4) by simp_all
    have "caching_resolve M now' longer c' = (p, c') \<and> baseURI_url longer \<noteq> baseURI_url options"
      if s: "service options = Some s" "s \<noteq> []"
        and recent: "now' < now + (case age of None \<Rightarrow> DEFAULT_CACHE_MAX_AGE | Some a \<Rightarrow> a)"
        and longer: "longer = options\<lparr>accountId := accountId options @ CHR ''_'' # s, service := None\<rparr>" for s now' longer
    proof
      have key: "cacheKey longer = cacheKey options" using s by (cases s) (simp_all add: longer cacheKey_def)
      have "mem_call M (maxAge c) now' (cacheKey options) (Suc (length (asked c))) m = (length (asked c), m)"
        by (rule mem_documented_hit [OF assms(1), of _ _ now]) (use 2(1) recent inv(3) in simp_all)
      then show "caching_resolve M now' longer c' = (p, c')"
        by (simp add: caching_resolve_def key p Let_def)
      show "baseURI_url longer \<noteq> baseURI_url options"
        using s by (cases s) (simp_all add: longer baseURI_url_def)
    qed
    then show ?thesis using p by simp
  qed
qed

text \<open>Two calls a second apart, the first one answered.\<close>

definition two_services :: "unit got_fn" where
  "two_services url os w =
     (Inr \<lparr>resp_body = Some (JObj [(''service'', JStr ''idp''), (''baseURI'', JStr ''a'')]),
       resp_statusCode = 200, resp_statusMessage = None, resp_headers = []\<rparr>, w)"

definition idp_options :: csds_config where
  "idp_options = DefaultCsdsServiceConfig \<lparr>base_accountId = ''1'', base_csdsDomain = None\<rparr> ''idp''"

definition cached_once :: "(string \<Rightarrow> (int \<times> nat) option) caching_resolver" where
  "cached_once = caching_answered reference_mem two_services 0 ()
     (snd (caching_resolve reference_mem 0 idp_options (CachingCsdsResolver reference_mem None)))"

lemma idp_options_account: "account_of (csdsDomain idp_options) idp_options"
  by (simp add: account_of_def idp_options_def DefaultCsdsServiceConfig_def DefaultCsdsConfig_def)

theorem cached_answers_fresh_witness:
  "\<exists>resp. caching_resolve reference_mem 1000 idp_options cached_once = (0, cached_once)
     \<and> asked cached_once ! 0 = (0, idp_options, Some (Return resp))
     \<and> (\<exists>w. fst (simple_resolve two_services idp_options w) = Return resp)"
proof -
  let ?M = reference_mem and ?c = "CachingCsdsResolver reference_mem None"
  have one: "asked (snd (caching_resolve ?M 0 idp_options ?c)) = [(0, idp_options, None)]"
    by (simp add: caching_resolve_def CachingCsdsResolver_def reference_mem_def)
  have r: "caching_reachable ?M two_services (csdsDomain idp_options) None cached_once"
    unfolding cached_once_def
    by (intro caching_reachable.intros idp_options_account) (simp add: one)
  have a: "fst (simple_resolve two_services idp_options ()) = Return [(''idp'', Some (JStr ''a''))]"
    by (simp add: simple_resolve_def get_def doRequest_first two_services_def settle_response_def response_entries_def
        String_of_def)
  have s: "asked cached_once ! 0 = (0, idp_options, Some (Return [(''idp'', Some (JStr ''a''))]))"
    using a one by (simp add: cached_once_def caching_answered_def Let_def)
  have call: "caching_resolve ?M 1000 idp_options cached_once = (0, cached_once)"
    using a one
    by (simp add: cached_once_def caching_answered_def caching_resolve_def CachingCsdsResolver_def reference_mem_def
        DEFAULT_CACHE_MAX_AGE_def Let_def)
  from cached_answers_fresh [OF reference_mem_documented r idp_options_account call] s call show ?thesis by auto
qed

text \<open>
  C35. The cache mixes up directories: the key leaves out the domain of the directory, so a call for an
  account in one directory is answered with the request that was sent to another, as long as that
  request is memorized; the two requests have different URLs.
\<close>

theorem cache_mixes_directories:
  assumes "mem_documented M" and "caching_reachable M getFn directory age c" and "account_of directory options"
    and "caching_resolve M now options c = (length (asked c), c')" and "d \<noteq> directory"
    and "now' < now + (case age of None \<Rightarrow> DEFAULT_CACHE_MAX_AGE | Some a \<Rightarrow> a)"
  shows "caching_resolve M now' (options\<lparr>csdsDomain := d\<rparr>) c' = (length (asked c), c')
    \<and> asked c' ! length (asked c) = (now, options, None)
    \<and> baseURI_url (options\<lparr>csdsDomain := d\<rparr>) \<noteq> baseURI_url options"
proof -
  have inv: "kept_ok M c" "maxAge c = (case age of None \<Rightarrow> DEFAULT_CACHE_MAX_AGE | Some a \<Rightarrow> a)"
    using caching_reachable_inv [OF assms(1,2)] by (simp_all add: caching_inv_def CachingCsdsResolver_def)
  have key: "cacheKey (options\<lparr>csdsDomain := d\<rparr>) = cacheKey options"
    by (simp add: cacheKey_def cong: option.case_cong list.case_cong)
  obtain m where m: "mem_kept M m = (mem_kept M (memory c))(cacheKey options \<mapsto> (now, length (asked c)))"
      "c' = c\<lparr>memory := m, asked := asked c @ [(now, options, None)]\<rparr>"
    using assms(4) kept_okD [OF inv(1)]
    by (cases rule: caching_resolve_cases [OF assms(1) inv(1), of options now]) fastforce+
  have "mem_call M (maxAge c) now' (cacheKey options) (Suc (length (asked c))) m = (length (asked c), m)"
    by (rule mem_documented_hit [OF assms(1), of _ _ now]) (use m(1) assms(6) inv(2) in simp_all)
  then have "caching_resolve M now' (options\<lparr>csdsDomain := d\<rparr>) c' = (length (asked c), c')"
    by (simp add: caching_resolve_def key m(2) Let_def)
  moreover have "baseURI_url (options\<lparr>csdsDomain := d\<rparr>) \<noteq> baseURI_url options"
    using assms(3,5) by (auto simp: baseURI_url_def account_of_def service_segment_def hasService_def)
  ultimately show ?thesis by (simp add: m(2))
qed

theorem cache_mixes_directories_witness:
  "\<exists>c'. caching_resolve reference_mem 0 idp_options (CachingCsdsResolver reference_mem None) = (0, c')
     \<and> caching_resolve reference_mem 1000 (idp_options\<lparr>csdsDomain := ''d''\<rparr>) c' = (0, c')"
proof -
  let ?c = "CachingCsdsResolver reference_mem None"
  obtain c' where c: "caching_resolve reference_mem 0 idp_options ?c = (length (asked ?c), c')"
    by (simp add: caching_resolve_def CachingCsdsResolver_def reference_mem_def)
  have d: "''d'' \<noteq> csdsDomain idp_options"
    by (simp add: idp_options_def DefaultCsdsServiceConfig_def DefaultCsdsConfig_def getCsdsDomain_def)
  have age: "1000 < 0 + (case None of None \<Rightarrow> DEFAULT_CACHE_MAX_AGE | Some a \<Rightarrow> a)" by (simp add: DEFAULT_CACHE_MAX_AGE_def)
  from cache_mixes_directories [OF reference_mem_documented caching_reachable.new idp_options_account c d age] c
  show ?thesis by (simp add: CachingCsdsResolver_def)
qed

end
