(* ===== verification/Http_Properties.thy ===== *)
theory Http_Properties
  imports Csds_Caching
begin

text \<open>
  What the callers of the HTTP helper and of the CSDS resolvers can rely on.
\<close>

section \<open>Requests\<close>

text \<open>What a request comes to, written down independently: one attempt, a second one exactly when
  the first was answered with 503, and the last answer decides.\<close>

definition http_outcome :: "'w got_fn \<Rightarrow> string \<Rightarrow> options \<Rightarrow> 'w \<Rightarrow> (js_error + response) \<times> 'w" where
  "http_outcome send url os w =
     (let (a1, w1) = send url os w; (a2, w2) = send url os w1
      in if (\<exists>r. a1 = Inr r \<and> resp_statusCode r = 503) then (settle_response a2, w2) else (settle_response a1, w1))"

text \<open>
  C32. An API request is sent at most twice: \<open>get\<close>, \<open>post\<close> and \<open>request\<close> try once, try once more exactly
  when the first answer has status 503, and settle with the last answer: the response when its
  status is 200, an error otherwise; a failed connection is never retried.
\<close>

theorem request_outcome:
  "get f url opts w = http_outcome f url (request_options opts) w
   \<and> post f url opts w = http_outcome f url (request_options opts) w
   \<and> request f url os w = http_outcome f url (request_options (Some os)) w"
proof -
  have "doRequest f url opts False w = http_outcome f url (request_options opts) w" for opts
    by (auto simp: http_outcome_def doRequest_first doRequest_second settle_response_def Let_def
        split: prod.splits sum.splits)
  then show ?thesis by (simp add: get_def post_def request_def)
qed

text \<open>
  The helper's own options win: every request asks for UTF-8 and JSON and for no exceptions on
  HTTP errors, whatever the caller passes; all other options are the caller's.
\<close>

theorem options_forced:
  "map_of (request_options opts) ''encoding'' = Some (JStr ''utf8'')
   \<and> map_of (request_options opts) ''json'' = Some (JBool True)
   \<and> map_of (request_options opts) ''throwHttpErrors'' = Some (JBool False)
   \<and> (\<forall>k. k \<notin> {''encoding'', ''json'', ''throwHttpErrors'', ''headers''} \<longrightarrow>
        map_of (request_options opts) k = (case opts of None \<Rightarrow> None | Some os \<Rightarrow> map_of (rev os) k))"
  by (auto simp: map_of_request_options split: option.splits)

theorem options_forced_witness:
  "map_of (request_options (Some [(''json'', JBool False), (''body'', JStr ''x'')])) ''body'' = Some (JStr ''x'')"
proof -
  have "''body'' \<notin> {''encoding'', ''json'', ''throwHttpErrors'', ''headers''}" by simp
  then show ?thesis
    using options_forced [of "Some [(''json'', JBool False), (''body'', JStr ''x'')]"] by simp
qed

text \<open>
  The error of a failed request: the API's own \<open>error\<close> property when the body is an object that has
  a truthy one, else the status code and message.
\<close>

theorem response_error_text:
  "response_error r = Error
     (case resp_body r of
        Some (JObj ps) \<Rightarrow>
          (case map_of ps ''error'' of
             Some e \<Rightarrow> if truthy (Some e) then js_String e
                       else show_int (resp_statusCode r) @ '' - '' @ or_str (resp_statusMessage r) []
           | None \<Rightarrow> show_int (resp_statusCode r) @ '' - '' @ or_str (resp_statusMessage r) [])
      | _ \<Rightarrow> show_int (resp_statusCode r) @ '' - '' @ or_str (resp_statusMessage r) [])"
  by (auto simp: response_error_def String_of_def split: option.splits json.splits)

section \<open>The resolvers\<close>

text \<open>
  C33. The simple resolver's answer: for a directory response with an array \<open>baseURIs\<close> of entries, the
  result has one value per service name, that of the last entry with the name.
\<close>

theorem simple_resolve_entries:
  assumes "get getFn (baseURI_url c) None w = (Inr r, w')"
    and "resp_body r = Some (JObj ps)" and "map_of ps ''baseURIs'' = Some (JArr es)" and "JNull \<notin> set es"
  shows "\<exists>resp. simple_resolve getFn c w = (Inr resp, w') \<and> distinct (map fst resp)
    \<and> map_of resp = map_of (rev (map entry_pair es))"
proof -
  have "simple_resolve getFn c w = (Return (assign [] (map entry_pair es)), w')"
    using assms by (simp add: simple_resolve_def response_entries_def collect_entries_eq)
  moreover have "distinct (map fst (assign [] (map entry_pair es)))" by (rule distinct_assign) simp
  ultimately show ?thesis by (simp add: map_of_assign)
qed

text \<open>A directory with two entries.\<close>

definition entry :: "string \<Rightarrow> string \<Rightarrow> json" where
  "entry s u = JObj [(''service'', JStr s), (''baseURI'', JStr u)]"

definition directory :: "unit got_fn" where
  "directory url os w =
     (Inr \<lparr>resp_body = Some (JObj [(''baseURIs'', JArr [entry ''idp'' ''a'', entry ''agentVep'' ''b''])]),
       resp_statusCode = 200, resp_statusMessage = None, resp_headers = []\<rparr>, w)"

lemma directory_get:
  "get directory url opts w = (Inr \<lparr>resp_body = Some (JObj [(''baseURIs'', JArr [entry ''idp'' ''a'', entry ''agentVep'' ''b''])]),
       resp_statusCode = 200, resp_statusMessage = None, resp_headers = []\<rparr>, w)"
  by (simp add: get_def doRequest_first directory_def settle_response_def)

theorem simple_resolve_entries_witness:
  "\<exists>resp. simple_resolve directory (DefaultCsdsConfig \<lparr>base_accountId = ''1'', base_csdsDomain = None\<rparr>) () = (Inr resp, ())
     \<and> map_of resp ''agentVep'' = Some (Some (JStr ''b''))"
proof -
  let ?c = "DefaultCsdsConfig \<lparr>base_accountId = ''1'', base_csdsDomain = None\<rparr>"
  have "map_of (rev (map entry_pair [entry ''idp'' ''a'', entry ''agentVep'' ''b''])) ''agentVep'' = Some (Some (JStr ''b''))"
    by (simp add: entry_pair_def entry_def String_of_def)
  then show ?thesis
    using simple_resolve_entries [OF directory_get [of "baseURI_url ?c"],
        of "[(''baseURIs'', JArr [entry ''idp'' ''a'', entry ''agentVep'' ''b''])]" "[entry ''idp'' ''a'', entry ''agentVep'' ''b'']"]
    by (auto simp: entry_def)
qed

text \<open>
  Asking for one service: when the directory answers with a single entry for it, \<open>resolveService\<close>
  gives the entry's base URI.
\<close>

theorem resolve_single_service:
  assumes "service c = Some s" and "get getFn (baseURI_url c) None w = (Inr r, w')"
    and "resp_body r = Some (JObj ps)" and "\<not> truthy (map_of ps ''baseURIs'')"
    and "map_of ps ''service'' = Some (JStr s)"
  shows "resolveService (simple_resolve getFn) c w = (Inr (map_of ps ''baseURI''), w')"
proof (rule simple.service_from_answer)
  show "simple_resolve getFn c w = (Inr [(s, map_of ps ''baseURI'')], w')"
    using assms(2-5)
    by (simp add: simple_resolve_def response_entries_def collect_entries_eq entry_pair_def String_of_def)
qed (use assms(1) in simp_all)

definition single_directory :: "unit got_fn" where
  "single_directory url os w =
     (Inr \<lparr>resp_body = Some (entry ''idp'' ''a''), resp_statusCode = 200, resp_statusMessage = None,
       resp_headers = []\<rparr>, w)"

theorem resolve_single_service_witness:
  "resolveService (simple_resolve single_directory)
     (DefaultCsdsServiceConfig \<lparr>base_accountId = ''1'', base_csdsDomain = None\<rparr> ''idp'') () = (Inr (Some (JStr ''a'')), ())"
proof -
  let ?c = "DefaultCsdsServiceConfig \<lparr>base_accountId = ''1'', base_csdsDomain = None\<rparr> ''idp''"
  let ?ps = "[(''service'', JStr ''idp''), (''baseURI'', JStr ''a'')]"
  have "get single_directory (baseURI_url ?c) None () = (Inr \<lparr>resp_body = Some (JObj ?ps), resp_statusCode = 200,
      resp_statusMessage = None, resp_headers = []\<rparr>, ())"
    by (simp add: get_def doRequest_first single_directory_def settle_response_def entry_def)
  from resolve_single_service [OF _ this, of "''idp''" ?ps] show ?thesis
    by (simp add: DefaultCsdsServiceConfig_def)
qed

section \<open>The directory's domain\<close>

text \<open>
  The directory an account is looked up in: the caller's domain when it is not empty, else the QA
  directory for accounts whose id starts with \<open>le\<close> or \<open>qa\<close> and the production one for all others;
  a configuration without a service never asks for one, and adding a service changes nothing else.
\<close>

theorem directory_domain:
  "csdsDomain (DefaultCsdsServiceConfig c s) =
     (case base_csdsDomain c of
        Some (d # ds) \<Rightarrow> d # ds
      | _ \<Rightarrow> if \<exists>rest. base_accountId c = ''le'' @ rest \<or> base_accountId c = ''qa'' @ rest
            then ''hc1n.dev.lrnd.net'' else ''adminlogin.liveperson.net'')
   \<and> hasService (DefaultCsdsServiceConfig c s) \<and> \<not> hasService (DefaultCsdsConfig c)
   \<and> csdsDomain (DefaultCsdsServiceConfig c s) = csdsDomain (DefaultCsdsConfig c)
   \<and> accountId (DefaultCsdsServiceConfig c s) = base_accountId c"
  using csdsDomain_cases [of c] by (simp add: DefaultCsdsServiceConfig_def hasService_def)

end
