(* ===== verification/Session_Providers.thy ===== *)
theory Session_Providers
  imports Csds_Resolver Json_Text
begin

text \<open>
  The session providers: \<open>packages/le-agent-session-provider/src/provider.ts\<close> (agents, by cookies and
  a CSRF token) and \<open>packages/le-consumer-session-provider/src/provider.ts\<close> (consumers, by a JSON web
  token). The cookie functions are the \<open>cookie\<close> package's, \<open>postFn\<close> is \<open>got\<close>'s: parameters. So are
  three functions of the runtime: the decoding of base64 text, \<open>JSON.parse\<close> and \<open>inspect\<close>.
\<close>

text \<open>\<open>ISessionProviderOptions\<close>: the directory configuration and the resolver.\<close>

record 'w provider_options =
  csdsConfig :: csds_config
  csdsResolver :: "csds_config \<Rightarrow> 'w \<Rightarrow> (js_error + csds_response) \<times> 'w"

record cookie_package =
  cookie_parse :: "string \<Rightarrow> (string \<times> string) list"
  cookie_serialize :: "string \<Rightarrow> string \<Rightarrow> js_error + string"

text \<open>The domain of a service, as it appears in a template literal.\<close>

definition service_domain :: "'w provider_options \<Rightarrow> string \<Rightarrow> 'w \<Rightarrow> (js_error + string) \<times> 'w" where
  "service_domain options svc w =
     (case resolveService (csdsResolver options)
         \<lparr>accountId = accountId (csdsConfig options), csdsDomain = csdsDomain (csdsConfig options), service = Some svc\<rparr> w of
        (Inl e, w') \<Rightarrow> (Throw e, w')
      | (Inr v, w') \<Rightarrow> (Return (String_of v), w'))"

section \<open>Agents\<close>

type_synonym agent_credentials = "(string \<times> json) list"

record agent_session =
  as_credentials :: js_value
  as_cookies :: "(string \<times> string) list"
  as_accountId :: string
  as_token :: js_value

text \<open>\<open>map\<close> over values that may throw; the first exception wins.\<close>

fun map_throw :: "('a \<Rightarrow> js_error + 'b) \<Rightarrow> 'a list \<Rightarrow> js_error + 'b list" where
  "map_throw f [] = Return []"
| "map_throw f (x # xs) =
     (case f x of Inl e \<Rightarrow> Throw e
      | Inr y \<Rightarrow> (case map_throw f xs of Inl e \<Rightarrow> Throw e | Inr ys \<Rightarrow> Return (y # ys)))"

definition agent_doRequest ::
  "'w got_fn \<Rightarrow> cookie_package \<Rightarrow> (string \<times> json) list \<Rightarrow> (string \<times> string) list \<Rightarrow> 'w provider_options \<Rightarrow>
     string \<Rightarrow> 'w \<Rightarrow> (js_error + response) \<times> 'w" where
  "agent_doRequest postFn C body cookies options path w =
     (case service_domain options ''agentVep'' w of
        (Inl e, w1) \<Rightarrow> (Throw e, w1)
      | (Inr domain, w1) \<Rightarrow>
          (let url = ''https://'' @ domain @ ''/api/account/'' @ accountId (csdsConfig options) @ ''/'' @ path @ ''?v=1.3''
           in case map_throw (\<lambda>(key, v). cookie_serialize C key v) cookies of
                Inl e \<Rightarrow> (Throw e, w1)
              | Inr cs \<Rightarrow>
                  post postFn url (Some [(''body'', JStr (stringify (JObj body))),
                    (''headers'', JObj [(''cookie'', JArr (map JStr cs))])]) w1))"

text \<open>\<open>headers["set-cookie"] || []\<close>, parsed and merged.\<close>

definition set_cookies :: "cookie_package \<Rightarrow> (string \<times> json) list \<Rightarrow> js_error + (string \<times> string) list" where
  "set_cookies C hs =
     (case map_of hs ''set-cookie'' of
        None \<Rightarrow> Return []
      | Some v \<Rightarrow>
          (if \<not> truthy (Some v) then Return []
           else case v of
                  JArr xs \<Rightarrow>
                    (case map_throw (\<lambda>x. case x of JStr s \<Rightarrow> Return (cookie_parse C s) | _ \<Rightarrow> Throw TypeError) xs of
                       Inl e \<Rightarrow> Throw e
                     | Inr entries \<Rightarrow> Return (fold (\<lambda>entry obj. assign obj entry) entries []))
                | _ \<Rightarrow> Throw TypeError))"

text \<open>\<open>Object.assign(credentials, ...)\<close> changes the caller's object: the second component is the
  credentials object after the call.\<close>

definition login_body :: "agent_credentials \<Rightarrow> csds_config \<Rightarrow> agent_credentials" where
  "login_body credentials config =
     assign credentials [(''accountId'', JStr (accountId config)), (''csdsDomain'', JStr (csdsDomain config))]"

definition agent_login ::
  "'w got_fn \<Rightarrow> cookie_package \<Rightarrow> agent_credentials \<Rightarrow> 'w provider_options \<Rightarrow> 'w \<Rightarrow>
     ((js_error + agent_session) \<times> agent_credentials) \<times> 'w" where
  "agent_login postFn C credentials options w =
     (let reqBody = login_body credentials (csdsConfig options)
      in case agent_doRequest postFn C reqBody [] options ''login'' w of
           (Inl e, w') \<Rightarrow> ((Throw e, reqBody), w')
         | (Inr r, w') \<Rightarrow>
             ((case set_cookies C (resp_headers r) of
                 Inl e \<Rightarrow> Throw e
               | Inr cookies \<Rightarrow>
                   (case get_prop ''bearer'' (resp_body r) of
                      Inl e \<Rightarrow> Throw e
                    | Inr bearer \<Rightarrow>
                        Return \<lparr>as_credentials = resp_body r, as_cookies = cookies,
                          as_accountId = accountId (csdsConfig options), as_token = bearer\<rparr>), reqBody), w'))"

definition agent_doSessionRequest ::
  "'w got_fn \<Rightarrow> cookie_package \<Rightarrow> agent_session \<Rightarrow> 'w provider_options \<Rightarrow> string \<Rightarrow> 'w \<Rightarrow> (js_error + unit) \<times> 'w" where
  "agent_doSessionRequest postFn C session options path w =
     (case get_prop ''csrf'' (as_credentials session) of
        Inl e \<Rightarrow> (Throw e, w)
      | Inr csrf \<Rightarrow>
          (case agent_doRequest postFn C (case csrf of None \<Rightarrow> [] | Some j \<Rightarrow> [(''csrf'', j)])
              (as_cookies session) options path w of
             (Inl e, w') \<Rightarrow> (Throw e, w')
           | (Inr _, w') \<Rightarrow> (Return (), w')))"

definition agent_refresh ::
  "'w got_fn \<Rightarrow> cookie_package \<Rightarrow> agent_session \<Rightarrow> 'w provider_options \<Rightarrow> 'w \<Rightarrow> (js_error + unit) \<times> 'w" where
  "agent_refresh postFn C session options w = agent_doSessionRequest postFn C session options ''refresh'' w"

definition agent_logout ::
  "'w got_fn \<Rightarrow> cookie_package \<Rightarrow> agent_session \<Rightarrow> 'w provider_options \<Rightarrow> 'w \<Rightarrow> (js_error + unit) \<times> 'w" where
  "agent_logout postFn C session options w = agent_doSessionRequest postFn C session options ''logout'' w"

section \<open>Consumers\<close>

record text_runtime =
  base64_text :: "string \<Rightarrow> string"
  json_parse :: "string \<Rightarrow> js_error + json"
  inspect :: "js_value \<Rightarrow> string"

text \<open>\<open>s.split(c)\<close> for a one-character separator.\<close>

fun split_on :: "char \<Rightarrow> string \<Rightarrow> string list" where
  "split_on c [] = [[]]"
| "split_on c (x # xs) =
     (if x = c then [] # split_on c xs
      else case split_on c xs of [] \<Rightarrow> [[x]] | p # ps \<Rightarrow> (x # p) # ps)"

text \<open>The own properties \<open>Object.assign\<close> copies from a value.\<close>

definition own_props :: "json \<Rightarrow> (string \<times> json) list" where
  "own_props v =
     (case v of
        JObj ps \<Rightarrow> ps
      | JArr xs \<Rightarrow> map (\<lambda>(i, x). (show_nat i, x)) (enumerate 0 xs)
      | JStr s \<Rightarrow> map (\<lambda>(i, c). (show_nat i, JStr [c])) (enumerate 0 s)
      | _ \<Rightarrow> [])"

text \<open>The token's payload is its second part.\<close>

definition jwt_payload :: "text_runtime \<Rightarrow> string \<Rightarrow> js_error + json" where
  "jwt_payload T jwt =
     (case split_on (CHR ''.'') jwt of
        _ # payload # _ \<Rightarrow> json_parse T (base64_text T payload)
      | _ \<Rightarrow> Throw TypeError)"

definition parseJwt :: "text_runtime \<Rightarrow> js_value \<Rightarrow> string \<Rightarrow> js_error + (string \<times> json) list" where
  "parseJwt T body account =
     (case get_prop ''jwt'' body of
        Inl e \<Rightarrow> Throw e
      | Inr jwt \<Rightarrow>
          (if \<not> truthy jwt then Throw (Error (''Unprocessable response: '' @ inspect T body))
           else case jwt of
                  Some (JStr s) \<Rightarrow>
                    (case jwt_payload T s of
                       Inl e \<Rightarrow> Throw e
                     | Inr v \<Rightarrow> Return (assign [(''token'', JStr s), (''accountId'', JStr account)] (own_props v)))
                | _ \<Rightarrow> Throw TypeError))"

record consumer_credentials =
  userId :: string
  redirectUri :: "string option"

definition unauthenticated_doLogin :: "'w got_fn \<Rightarrow> string \<Rightarrow> string \<Rightarrow> 'w \<Rightarrow> (js_error + response) \<times> 'w" where
  "unauthenticated_doLogin postFn idpDomain account w =
     post postFn (''https://'' @ idpDomain @ ''/api/account/'' @ account @ ''/signup'') None w"

definition authenticated_doLogin ::
  "'w got_fn \<Rightarrow> consumer_credentials \<Rightarrow> string \<Rightarrow> string \<Rightarrow> 'w \<Rightarrow> (js_error + response) \<times> 'w" where
  "authenticated_doLogin postFn credentials idpDomain account w =
     post postFn (''https://'' @ idpDomain @ ''/api/account/'' @ account @ ''/app/default/authenticate?v=2.0'')
       (Some [(''body'', JStr (stringify (JObj [(''code'', JStr (userId credentials)),
          (''redirect_uri'', JStr (or_str (redirectUri credentials) ''https://liveperson.net''))])))]) w"

text \<open>\<open>login\<close>, with \<open>doLogin\<close> and \<open>parseJwt\<close> as the subclass has them.\<close>

definition consumer_login ::
  "(string \<Rightarrow> string \<Rightarrow> 'w \<Rightarrow> (js_error + response) \<times> 'w) \<Rightarrow> (js_value \<Rightarrow> string \<Rightarrow> js_error + (string \<times> json) list) \<Rightarrow>
     'w provider_options \<Rightarrow> 'w \<Rightarrow> (js_error + (string \<times> json) list) \<times> 'w" where
  "consumer_login doLogin parse options w =
     (case service_domain options ''idp'' w of
        (Inl e, w1) \<Rightarrow> (Throw e, w1)
      | (Inr domain, w1) \<Rightarrow>
          (case doLogin domain (accountId (csdsConfig options)) w1 of
             (Inl e, w2) \<Rightarrow> (Throw e, w2)
           | (Inr r, w2) \<Rightarrow> (parse (resp_body r) (accountId (csdsConfig options)), w2)))"

definition unauthenticated_login ::
  "'w got_fn \<Rightarrow> text_runtime \<Rightarrow> 'w provider_options \<Rightarrow> 'w \<Rightarrow> (js_error + (string \<times> json) list) \<times> 'w" where
  "unauthenticated_login postFn T = consumer_login (unauthenticated_doLogin postFn) (parseJwt T)"

definition authenticated_parseJwt ::
  "text_runtime \<Rightarrow> consumer_credentials \<Rightarrow> js_value \<Rightarrow> string \<Rightarrow> js_error + (string \<times> json) list" where
  "authenticated_parseJwt T credentials body account =
     (case parseJwt T body account of
        Inl e \<Rightarrow> Throw e
      | Inr session \<Rightarrow> Return (assign [(''userId'', JStr (userId credentials))] session))"

definition authenticated_login ::
  "'w got_fn \<Rightarrow> text_runtime \<Rightarrow> consumer_credentials \<Rightarrow> 'w provider_options \<Rightarrow> 'w \<Rightarrow>
     (js_error + (string \<times> json) list) \<times> 'w" where
  "authenticated_login postFn T credentials =
     consumer_login (authenticated_doLogin postFn credentials) (authenticated_parseJwt T credentials)"

text \<open>Consumers have nothing to refresh and nothing to log out of.\<close>

definition consumer_refresh :: "'w \<Rightarrow> (js_error + unit) \<times> 'w" where
  "consumer_refresh w = (Return (), w)"

definition consumer_logout :: "'w \<Rightarrow> (js_error + unit) \<times> 'w" where
  "consumer_logout w = (Return (), w)"

end
