(* ===== verification/Base64.thy ===== *)
theory Base64
  imports Json_Parse
begin

text \<open>
  Base64 as \<open>Buffer.from(s, "base64")\<close> decodes it: both alphabets are accepted, other characters are
  skipped, the padding character ends the text. The encoding is the one of web tokens, with the URL
  alphabet and without padding.
\<close>

definition b64_char :: "nat \<Rightarrow> char" where
  "b64_char n =
     char_of (if n < 26 then 65 + n else if n < 52 then 71 + n else if n < 62 then n - 4 else if n = 62 then 45 else 95)"

definition b64_value :: "char \<Rightarrow> nat option" where
  "b64_value c =
     (let n = of_char c :: nat
      in if 65 \<le> n \<and> n \<le> 90 then Some (n - 65)
         else if 97 \<le> n \<and> n \<le> 122 then Some (n - 71)
         else if 48 \<le> n \<and> n \<le> 57 then Some (n + 4)
         else if n = 43 \<or> n = 45 then Some 62
         else if n = 47 \<or> n = 95 then Some 63
         else None)"

fun encode_sextets :: "nat list \<Rightarrow> nat list" where
  "encode_sextets (a # b # c # bytes) =
     a div 4 # (a mod 4 * 16 + b div 16) # (b mod 16 * 4 + c div 64) # c mod 64 # encode_sextets bytes"
| "encode_sextets [a, b] = [a div 4, a mod 4 * 16 + b div 16, b mod 16 * 4]"
| "encode_sextets [a] = [a div 4, a mod 4 * 16]"
| "encode_sextets [] = []"

fun decode_sextets :: "nat list \<Rightarrow> nat list" where
  "decode_sextets (w # x # y # z # sextets) =
     (4 * w + x div 16) # (x mod 16 * 16 + y div 4) # (y mod 4 * 64 + z) # decode_sextets sextets"
| "decode_sextets [w, x, y] = [4 * w + x div 16, x mod 16 * 16 + y div 4]"
| "decode_sextets [w, x] = [4 * w + x div 16]"
| "decode_sextets _ = []"

definition base64url :: "string \<Rightarrow> string" where
  "base64url s = map b64_char (encode_sextets (map of_char s))"

definition base64_decode :: "string \<Rightarrow> string" where
  "base64_decode s = map char_of (decode_sextets (List.map_filter b64_value (takeWhile (\<lambda>c. c \<noteq> CHR ''='') s)))"

lemma b64_value_char: "n < 64 \<Longrightarrow> b64_value (b64_char n) = Some n"
  by (auto simp: b64_value_def b64_char_def Let_def)

lemma b64_char_plain: "n < 64 \<Longrightarrow> of_char (b64_char n) \<notin> {46, 61 :: nat}"
  by (auto simp: b64_char_def)

lemma encode_bound: "list_all (\<lambda>b. b < 256) bytes \<Longrightarrow> list_all (\<lambda>n. n < 64) (encode_sextets bytes)"
  by (induction bytes rule: encode_sextets.induct) auto

lemma sextets_round_trip: "list_all (\<lambda>b. b < 256) bytes \<Longrightarrow> decode_sextets (encode_sextets bytes) = bytes"
  by (induction bytes rule: encode_sextets.induct) auto

lemma values_of_chars: "list_all (\<lambda>n. n < 64) ns \<Longrightarrow>
    takeWhile (\<lambda>c. c \<noteq> CHR ''='') (map b64_char ns) = map b64_char ns \<and> List.map_filter b64_value (map b64_char ns) = ns"
proof (induction ns)
  case Nil
  then show ?case by (simp add: map_filter_simps)
next
  case (Cons n ns)
  have "b64_char n \<noteq> CHR ''=''" using b64_char_plain [of n] Cons.prems by auto
  then show ?case using Cons by (simp add: map_filter_simps b64_value_char)
qed

lemma of_chars_bound: "list_all (\<lambda>b. b < 256) (map of_char s :: nat list)"
  by (induction s) auto

lemma base64_round_trip: "base64_decode (base64url s) = s"
proof -
  note b = encode_bound [OF of_chars_bound, of s]
  show ?thesis
    unfolding base64_decode_def base64url_def conjunct1 [OF values_of_chars [OF b]] conjunct2 [OF values_of_chars [OF b]]
      sextets_round_trip [OF of_chars_bound] by (simp add: comp_def)
qed

lemma base64url_no_dot: "CHR ''.'' \<notin> set (base64url s)"
proof
  assume "CHR ''.'' \<in> set (base64url s)"
  then obtain n where "n \<in> set (encode_sextets (map of_char s))" "CHR ''.'' = b64_char n"
    by (auto simp: base64url_def)
  moreover have "n < 64" using calculation(1) encode_bound [OF of_chars_bound, of s] by (simp add: list_all_iff)
  moreover have "of_char (CHR ''.'') = (46 :: nat)" by simp
  ultimately show False using b64_char_plain [of n] by simp
qed

end
