(* ===== verification/Session_Properties.thy ===== *)
theory Session_Properties
  imports Session_Providers Base64
begin

text \<open>
  What a login gives, what the later requests of a session carry, and which answers of a login are
  refused.
\<close>

section \<open>Consumers\<close>

lemma parseJwt_object:
  assumes "get_prop ''jwt'' body = Return (Some (JStr jwt))" and "jwt \<noteq> []"
    and "jwt_payload T jwt = Return (JObj claims)"
  shows "parseJwt T body account =
    Return (assign [(''token'', JStr jwt), (''accountId'', JStr account)] claims)"
  using assms by (simp add: parseJwt_def own_props_def)

lemma split_on_parts:
  assumes "c \<notin> set a" and "c \<notin> set b"
  shows "split_on c (a @ c # b @ c # rest) = a # b # split_on c rest"
proof -
  have one: "split_on c (p @ c # q) = p # split_on c q" if "c \<notin> set p" for p q
    using that by (induction p) auto
  show ?thesis using one [OF assms(1), of "b @ c # rest"] one [OF assms(2), of rest] by simp
qed

text \<open>A consumer's session from a token whose payload is a JSON object: the claims win over what the login
  adds.\<close>

lemma consumer_session_claims:
  assumes "get_prop ''jwt'' body = Return (Some (JStr (h @ CHR ''.'' # p @ CHR ''.'' # sig)))"
    and "CHR ''.'' \<notin> set h" and "CHR ''.'' \<notin> set p"
    and "json_parse T (base64_text T p) = Return (JObj claims)"
  shows "\<exists>session. authenticated_parseJwt T credentials body account = Return session
    \<and> (\<forall>k. map_of session k =
        (case map_of (rev claims) k of
           Some v \<Rightarrow> Some v
         | None \<Rightarrow>
             if k = ''token'' then Some (JStr (h @ CHR ''.'' # p @ CHR ''.'' # sig))
             else if k = ''accountId'' then Some (JStr account)
             else if k = ''userId'' then Some (JStr (userId credentials)) else None))"
proof -
  let ?jwt = "h @ CHR ''.'' # p @ CHR ''.'' # sig"
  let ?base = "assign [(''token'', JStr ?jwt), (''accountId'', JStr account)] claims"
  have "jwt_payload T ?jwt = Return (JObj claims)"
    using assms(4) by (simp add: jwt_payload_def split_on_parts [OF assms(2,3)])
  then have "authenticated_parseJwt T credentials body account =
      Return (assign [(''userId'', JStr (userId credentials))] ?base)"
    using parseJwt_object [OF assms(1)] by (simp add: authenticated_parseJwt_def)
  moreover have "distinct (map fst ?base)" by (rule distinct_assign) simp
  then have "map_of (rev ?base) = map_of ?base" by (rule map_of_rev_distinct)
  ultimately show ?thesis
    by (auto simp: map_of_assign map_add_def split: option.splits)
qed

text \<open>
  What the runtime documents: \<open>JSON.parse\<close> undoes \<open>JSON.stringify\<close>, and decoding a base64 text gives
  back the encoded one. Texts are ASCII, where UTF-8 is one byte for each character.
\<close>

definition ascii :: "string \<Rightarrow> bool" where
  "ascii s \<longleftrightarrow> list_all (\<lambda>c. (of_char c :: nat) < 128) s"

definition text_runtime_documented :: "text_runtime \<Rightarrow> bool" where
  "text_runtime_documented T \<longleftrightarrow>
     (\<forall>j. well_formed j \<longrightarrow> ascii (stringify j) \<longrightarrow> json_parse T (stringify j) = Return j)
     \<and> (\<forall>s. ascii s \<longrightarrow> base64_text T (base64url s) = s)"

definition reference_text_runtime :: text_runtime where
  "reference_text_runtime = \<lparr>base64_text = base64_decode, json_parse = parse_json, inspect = (\<lambda>_. [])\<rparr>"

lemma reference_text_runtime_documented: "text_runtime_documented reference_text_runtime"
  by (simp add: text_runtime_documented_def reference_text_runtime_def parse_stringify base64_round_trip)

lemma token_payload:
  assumes "text_runtime_documented T"
    and "well_formed (JObj claims)" and "ascii (stringify (JObj claims))" and "CHR ''.'' \<notin> set h"
  shows "jwt_payload T (h @ CHR ''.'' # base64url (stringify (JObj claims)) @ CHR ''.'' # sig) = Return (JObj claims)"
proof -
  have "json_parse T (base64_text T (base64url (stringify (JObj claims)))) = Return (JObj claims)"
    using assms(1-3) unfolding text_runtime_documented_def by (metis (no_types))
  then show ?thesis by (simp add: jwt_payload_def split_on_parts [OF assms(4) base64url_no_dot])
qed

text \<open>
  C36. A web token survives the login: when the answer's token carries claims as its payload (the
  claims' JSON text in base64), the session has exactly these claims, besides the token, the account
  and the user id the login was for, which it has unless a claim of that name replaces them.
\<close>

theorem token_round_trip:
  assumes "text_runtime_documented T"
    and "well_formed (JObj claims)" and "ascii (stringify (JObj claims))" and "CHR ''.'' \<notin> set h"
    and "get_prop ''jwt'' body = Return (Some (JStr (h @ CHR ''.'' # base64url (stringify (JObj claims)) @ CHR ''.'' # sig)))"
  shows "\<exists>session. authenticated_parseJwt T credentials body account = Return session
    \<and> (\<forall>k. map_of session k =
        (case map_of claims k of
           Some v \<Rightarrow> Some v
         | None \<Rightarrow>
             if k = ''token'' then Some (JStr (h @ CHR ''.'' # base64url (stringify (JObj claims)) @ CHR ''.'' # sig))
             else if k = ''accountId'' then Some (JStr account)
             else if k = ''userId'' then Some (JStr (userId credentials)) else None))"
proof -
  have "json_parse T (base64_text T (base64url (stringify (JObj claims)))) = Return (JObj claims)"
    using assms(1-3) unfolding text_runtime_documented_def by (metis (no_types))
  from consumer_session_claims [OF assms(5,4) base64url_no_dot this]
  show ?thesis using assms(2) by (simp add: map_of_rev_distinct)
qed

theorem token_round_trip_witness:
  "\<exists>session. authenticated_parseJwt reference_text_runtime \<lparr>userId = ''u'', redirectUri = None\<rparr>
      (Some (JObj [(''jwt'', JStr (''h'' @ CHR ''.'' # base64url (stringify (JObj [(''sub'', JStr ''b'')])) @ CHR ''.'' # ''s''))])) ''1''
        = Return session
    \<and> map_of session ''sub'' = Some (JStr ''b'') \<and> map_of session ''userId'' = Some (JStr ''u'')"
proof -
  let ?c = "[(''sub'', JStr ''b'')]"
  have w: "well_formed (JObj ?c)" by simp
  have a: "ascii (stringify (JObj ?c))" by code_simp
  have h: "CHR ''.'' \<notin> set ''h''" by simp
  have p: "get_prop ''jwt'' (Some (JObj [(''jwt'', JStr (''h'' @ CHR ''.'' # base64url (stringify (JObj ?c)) @ CHR ''.'' # ''s''))])) =
      Return (Some (JStr (''h'' @ CHR ''.'' # base64url (stringify (JObj ?c)) @ CHR ''.'' # ''s'')))" by simp
  from token_round_trip [OF reference_text_runtime_documented w a h p, of "\<lparr>userId = ''u'', redirectUri = None\<rparr>" "''1''"]
  show ?thesis by (elim exE conjE) (rule exI, rule conjI, assumption, simp)
qed

text \<open>
  Unusable login answers are refused: without a \<open>jwt\<close> property the login fails with the
  unprocessable-response error, with one that has no payload part with a type error, and an answer
  without a body with a type error; none of them gives a session.
\<close>

theorem consumer_login_refusals:
  "parseJwt T (Some (JObj [])) account = Throw (Error (''Unprocessable response: '' @ inspect T (Some (JObj []))))
   \<and> parseJwt T None account = Throw TypeError
   \<and> parseJwt T (Some (JObj [(''jwt'', JStr [])])) account =
       Throw (Error (''Unprocessable response: '' @ inspect T (Some (JObj [(''jwt'', JStr [])]))))
   \<and> parseJwt T (Some (JObj [(''jwt'', JStr ''token'')])) account = Throw TypeError"
  by (simp add: parseJwt_def jwt_payload_def)

section \<open>Agents\<close>

text \<open>The header \<open>set-cookie\<close>, when there is one, is a list of strings; each is parsed, the last value of a cookie wins.\<close>

lemma set_cookies_none: "map_of hs ''set-cookie'' = None \<Longrightarrow> set_cookies C hs = Return []"
  by (simp add: set_cookies_def)

lemma set_cookies_list:
  "map_of hs ''set-cookie'' = Some (JArr (map JStr cs)) \<Longrightarrow>
     set_cookies C hs = Return (assign [] (concat (map (cookie_parse C) cs)))"
proof -
  assume hs: "map_of hs ''set-cookie'' = Some (JArr (map JStr cs))"
  have m: "map_throw (\<lambda>x. case x of JStr s \<Rightarrow> Return (cookie_parse C s) | _ \<Rightarrow> Throw TypeError) (map JStr cs)
      = Return (map (cookie_parse C) cs)"
    by (induction cs) auto
  have "fold (\<lambda>entry obj. assign obj entry) xs obj = assign obj (concat xs)" for xs and obj :: "(string \<times> string) list"
    by (induction xs arbitrary: obj) (simp_all add: assign_append)
  then show ?thesis using hs m by (simp add: set_cookies_def)
qed

text \<open>The options of an agent's request.\<close>

definition agent_request :: "(string \<times> json) list \<Rightarrow> string list \<Rightarrow> options" where
  "agent_request body cs =
     [(''body'', JStr (stringify (JObj body))), (''headers'', JObj [(''cookie'', JArr (map JStr cs))])]"

text \<open>A login whose request is answered, and the requests of the session it makes.\<close>

lemma agent_login_run:
  assumes "service_domain options ''agentVep'' w = (Inr dm, w1)"
    and "post postFn (''https://'' @ dm @ ''/api/account/'' @ accountId (csdsConfig options) @ ''/login?v=1.3'')
        (Some (agent_request (login_body cred (csdsConfig options)) [])) w1 = (Inr r, w2)"
    and "resp_body r = Some (JObj ps)"
  shows "agent_login postFn C cred options w =
    ((case set_cookies C (resp_headers r) of
        Inl e \<Rightarrow> Throw e
      | Inr cookies \<Rightarrow> Return \<lparr>as_credentials = Some (JObj ps), as_cookies = cookies,
          as_accountId = accountId (csdsConfig options), as_token = map_of ps ''bearer''\<rparr>,
      login_body cred (csdsConfig options)), w2)"
  using assms by (simp add: agent_login_def agent_doRequest_def agent_request_def Let_def split: sum.split)

text \<open>
  What a request of the session is to do: it fails with the error of the resolver, or of \<open>serialize\<close> for a
  cookie that the package refuses, and then posts nothing; otherwise it posts the CSRF token and the
  serialized cookies to the account's endpoint, and succeeds exactly when that post does.
\<close>

definition csrf_post ::
  "'w got_fn \<Rightarrow> cookie_package \<Rightarrow> json \<Rightarrow> (string \<times> string) list \<Rightarrow> 'w provider_options \<Rightarrow> string \<Rightarrow> 'w \<Rightarrow> (js_error + unit) \<times> 'w" where
  "csrf_post postFn C csrf cookies options path w =
     (case service_domain options ''agentVep'' w of
        (Inl e, w1) \<Rightarrow> (Throw e, w1)
      | (Inr dm, w1) \<Rightarrow>
          (case map_throw (\<lambda>(key, v). cookie_serialize C key v) cookies of
             Inl e \<Rightarrow> (Throw e, w1)
           | Inr cs \<Rightarrow>
               (case post postFn (''https://'' @ dm @ ''/api/account/'' @ accountId (csdsConfig options) @ ''/'' @ path @ ''?v=1.3'')
                   (Some (agent_request [(''csrf'', csrf)] cs)) w1 of
                  (Inl e, w') \<Rightarrow> (Throw e, w') | (Inr _, w') \<Rightarrow> (Return (), w'))))"

lemma agent_session_request_run:
  assumes "as_credentials s = Some (JObj ps)" and "map_of ps ''csrf'' = Some csrf"
  shows "agent_doSessionRequest postFn C s options path w = csrf_post postFn C csrf (as_cookies s) options path w"
  using assms
  by (simp add: agent_doSessionRequest_def agent_doRequest_def agent_request_def csrf_post_def Let_def split: prod.splits sum.splits)

text \<open>A cookie package that, as the documented one, refuses a cookie without a name.\<close>

definition plain_cookies :: cookie_package where
  "plain_cookies = \<lparr>cookie_parse = (\<lambda>s. [(s, s)]), cookie_serialize = (\<lambda>k v. if k = [] then Throw TypeError else Return (k @ ''='' @ v))\<rparr>"

definition sample_options :: "unit provider_options" where
  "sample_options = \<lparr>csdsConfig = \<lparr>accountId = ''1'', csdsDomain = ''d'', service = None\<rparr>,
     csdsResolver = (\<lambda>c w. (Inr [], w))\<rparr>"

end
