(* ===== verification/Session_Types.thy ===== *)
theory Session_Types
  imports Session_Properties Ts_Types
begin

text \<open>
  The interfaces of \<open>packages/le-agent-session-provider/src/provider.ts\<close> and
  \<open>packages/le-consumer-session-provider/src/provider.ts\<close> as types, and what a login makes of an answer
  that has the type the code gives it: for an agent a session that works, for a consumer one whose
  type depends on the claims of the token.
\<close>

section \<open>Agents\<close>

text \<open>The credentials; a kind of credentials has the properties of what it extends.\<close>

definition IAgentCredentials :: ts_type where
  "IAgentCredentials = TObject [(''username'', Required, TString)] False"

definition IAgentPasswordCredentials :: ts_type where
  "IAgentPasswordCredentials = TObject
    [(''username'', Required, TString),
     (''password'', Required, TString)] False"

definition IAgentTokenCredentials :: ts_type where
  "IAgentTokenCredentials = TObject
    [(''username'', Required, TString),
     (''appKey'', Required, TString),
     (''secret'', Required, TString),
     (''accessToken'', Required, TString),
     (''accessTokenSecret'', Required, TString)] False"

text \<open>What the login answers.\<close>

definition IAgentLoginConfig :: ts_type where
  "IAgentLoginConfig = TObject
    [(''loginName'', Required, TString),
     (''userId'', Required, TString),
     (''userPid'', Required, TString),
     (''userPrivileges'', Required, TArray TNumber),
     (''serverCurrentTime'', Required, TNumber),
     (''timeDiff'', Required, TNumber),
     (''serverTimeZoneName'', Required, TString),
     (''serverTimeGMTDiff'', Required, TNumber),
     (''isLPA'', Required, TBoolean),
     (''isAdmin'', Required, TBoolean),
     (''accountTimeZoneId'', Required, TString)] True"

definition IBaseURI :: ts_type where
  "IBaseURI = TObject
    [(''account'', Required, TString),
     (''baseURI'', Required, TString),
     (''service'', Required, TString)] True"

definition ICsdsCollectionResponse :: ts_type where
  "ICsdsCollectionResponse = TObject [(''baseURIs'', Required, TArray IBaseURI)] True"

definition IAgentLoginAgentGroupsDataItem :: ts_type where
  "IAgentLoginAgentGroupsDataItem = TObject
    [(''id'', Required, TNumber),
     (''deleted'', Required, TBoolean),
     (''name'', Required, TString)] True"

definition IAgentLoginAgentGroupsData :: ts_type where
  "IAgentLoginAgentGroupsData = TObject
    [(''items'', Required, TArray IAgentLoginAgentGroupsDataItem),
     (''revision'', Required, TNumber)] True"

definition IAgentLoginAccountData :: ts_type where
  "IAgentLoginAccountData = TObject [(''agentGroupsData'', Required, IAgentLoginAgentGroupsData)] True"

definition IAgentLoginCredentials :: ts_type where
  "IAgentLoginCredentials = TObject
    [(''csrf'', Required, TString),
     (''wsuk'', Required, TNumber),
     (''config'', Required, IAgentLoginConfig),
     (''csdsCollectionResponse'', Required, ICsdsCollectionResponse),
     (''accountData'', Required, IAgentLoginAccountData),
     (''sessionTTl'', Required, TString),
     (''bearer'', Required, TString)] True"

lemmas agent_type_defs = IAgentLoginConfig_def IBaseURI_def ICsdsCollectionResponse_def
  IAgentLoginAgentGroupsDataItem_def IAgentLoginAgentGroupsData_def IAgentLoginAccountData_def
  IAgentLoginCredentials_def

text \<open>\<open>IAgentSession\<close>: the login's answer and a string as token; the account and the cookies are strings in
  any case.\<close>

definition IAgentSession :: "agent_session \<Rightarrow> bool" where
  "IAgentSession s \<longleftrightarrow>
     (\<exists>v. as_credentials s = Some v \<and> conforms IAgentLoginCredentials v)
     \<and> (\<exists>t. as_token s = Some (JStr t))"

text \<open>Both kinds of credentials are credentials.\<close>

lemma credentials_extend:
  "subtype IAgentPasswordCredentials IAgentCredentials" "subtype IAgentTokenCredentials IAgentCredentials"
  by (simp_all add: IAgentCredentials_def IAgentPasswordCredentials_def IAgentTokenCredentials_def)

lemma login_credentials_strings:
  assumes "conforms IAgentLoginCredentials body"
  obtains ps csrf bearer where "body = JObj ps" "map_of ps ''csrf'' = Some (JStr csrf)"
    "map_of ps ''bearer'' = Some (JStr bearer)"
proof -
  note r = conforms_required_string [OF assms [unfolded IAgentLoginCredentials_def]]
  from r [of "''csrf''"] r [of "''bearer''"] show ?thesis using that by auto
qed

text \<open>
  C39. What a login answer of the type \<open>IAgentLoginCredentials\<close> makes, whatever its headers and whatever
  the cookie package does with a cookie. If its \<open>set-cookie\<close> header cannot be read, the login fails with
  that error. Otherwise it returns a session of type \<open>IAgentSession\<close> whose token is the answer's bearer
  token, a string, and whose cookies are the ones read: none without the header, and for a list of strings
  those of all the strings, each with the value set last. Every later request of the session (\<open>refresh\<close> and
  \<open>logout\<close> are such requests) fails with the error of the resolver, or of \<open>serialize\<close> for a cookie that
  the package refuses, and then posts nothing; otherwise it posts exactly the answer's CSRF token and the
  serialized cookies to the account's endpoint, and succeeds exactly when that post does.
\<close>

theorem typed_agent_session:
  assumes "conforms IAgentLoginCredentials body" and "resp_body r = Some body"
    and "service_domain options ''agentVep'' w = (Inr dm, w1)"
    and "post postFn (''https://'' @ dm @ ''/api/account/'' @ accountId (csdsConfig options) @ ''/login?v=1.3'')
        (Some (agent_request (login_body cred (csdsConfig options)) [])) w1 = (Inr r, w2)"
  shows "\<exists>csrf bearer.
      get_prop ''csrf'' (Some body) = Return (Some (JStr csrf)) \<and> get_prop ''bearer'' (Some body) = Return (Some (JStr bearer))
    \<and> (case set_cookies C (resp_headers r) of
         Inl e \<Rightarrow> agent_login postFn C cred options w = ((Throw e, login_body cred (csdsConfig options)), w2)
       | Inr cookies \<Rightarrow>
           (\<exists>s. agent_login postFn C cred options w = ((Return s, login_body cred (csdsConfig options)), w2)
             \<and> IAgentSession s \<and> as_accountId s = accountId (csdsConfig options)
             \<and> as_token s = Some (JStr bearer) \<and> as_cookies s = cookies
             \<and> (\<forall>path options' w'. agent_doSessionRequest postFn C s options' path w' =
                  csrf_post postFn C (JStr csrf) cookies options' path w')))
    \<and> (map_of (resp_headers r) ''set-cookie'' = None \<longrightarrow> set_cookies C (resp_headers r) = Return [])
    \<and> (\<forall>setc. map_of (resp_headers r) ''set-cookie'' = Some (JArr (map JStr setc)) \<longrightarrow>
         (\<exists>cookies. set_cookies C (resp_headers r) = Return cookies
           \<and> map_of cookies = map_of (rev (concat (map (cookie_parse C) setc)))))"
proof -
  obtain ps csrf bearer where b: "body = JObj ps" "map_of ps ''csrf'' = Some (JStr csrf)"
      "map_of ps ''bearer'' = Some (JStr bearer)"
    using assms(1) by (rule login_credentials_strings)
  have login: "agent_login postFn C cred options w =
      ((case set_cookies C (resp_headers r) of
          Inl e \<Rightarrow> Throw e
        | Inr cookies \<Rightarrow> Return \<lparr>as_credentials = Some (JObj ps), as_cookies = cookies,
            as_accountId = accountId (csdsConfig options), as_token = map_of ps ''bearer''\<rparr>,
        login_body cred (csdsConfig options)), w2)"
    by (rule agent_login_run [OF assms(3,4)]) (simp add: assms(2) b)
  let ?s = "\<lambda>cookies. \<lparr>as_credentials = Some (JObj ps), as_cookies = cookies,
      as_accountId = accountId (csdsConfig options), as_token = map_of ps ''bearer''\<rparr>"
  have later: "agent_doSessionRequest postFn C (?s cookies) options' path w' = csrf_post postFn C (JStr csrf) cookies options' path w'"
    for cookies options' path w'
    using agent_session_request_run [of "?s cookies", OF _ b(2)] by simp
  have typed: "IAgentSession (?s cookies)" for cookies
    using assms(1) b by (simp add: IAgentSession_def)
  have "case set_cookies C (resp_headers r) of
         Inl e \<Rightarrow> agent_login postFn C cred options w = ((Throw e, login_body cred (csdsConfig options)), w2)
       | Inr cookies \<Rightarrow>
           (\<exists>s. agent_login postFn C cred options w = ((Return s, login_body cred (csdsConfig options)), w2)
             \<and> IAgentSession s \<and> as_accountId s = accountId (csdsConfig options)
             \<and> as_token s = Some (JStr bearer) \<and> as_cookies s = cookies
             \<and> (\<forall>path options' w'. agent_doSessionRequest postFn C s options' path w' =
                  csrf_post postFn C (JStr csrf) cookies options' path w'))"
  proof (cases "set_cookies C (resp_headers r)")
    case (Inr cookies)
    show ?thesis
      unfolding Inr sum.case
      by (intro exI [of _ "?s cookies"] conjI allI) (simp_all add: login Inr typed [unfolded b(3)] later [unfolded b(3)] b(3))
  qed (simp add: login)
  moreover have "\<exists>cookies. set_cookies C (resp_headers r) = Return cookies
      \<and> map_of cookies = map_of (rev (concat (map (cookie_parse C) setc)))"
    if "map_of (resp_headers r) ''set-cookie'' = Some (JArr (map JStr setc))" for setc
    using set_cookies_list [OF that] by (simp add: map_of_assign)
  ultimately show ?thesis
    using b set_cookies_none [of "resp_headers r" C]
    by (intro exI [of _ csrf] exI [of _ bearer] conjI allI impI) simp_all
qed

text \<open>An answer of the type.\<close>

definition login_answer :: json where
  "login_answer = JObj
    [(''csrf'', JStr ''c''), (''wsuk'', JNum 1), (''sessionTTl'', JStr ''10''), (''bearer'', JStr ''b''),
     (''config'', JObj
       [(''loginName'', JStr ''n''), (''userId'', JStr ''u''), (''userPid'', JStr ''p''), (''userPrivileges'', JArr [JNum 7]),
        (''serverCurrentTime'', JNum 5), (''timeDiff'', JNum 0), (''serverTimeZoneName'', JStr ''Z''), (''serverTimeGMTDiff'', JNum 0),
        (''isLPA'', JBool False), (''isAdmin'', JBool True), (''accountTimeZoneId'', JStr ''Z'')]),
     (''csdsCollectionResponse'', JObj [(''baseURIs'', JArr
       [JObj [(''account'', JStr ''1''), (''baseURI'', JStr ''x''), (''service'', JStr ''idp'')]])]),
     (''accountData'', JObj [(''agentGroupsData'', JObj [(''items'', JArr
       [JObj [(''id'', JNum 3), (''deleted'', JBool False), (''name'', JStr ''g'')]]), (''revision'', JNum 2)])])]"

lemma login_answer_typed: "conforms IAgentLoginCredentials login_answer"
  by (simp add: agent_type_defs login_answer_def)

definition typed_agent_api :: "unit got_fn" where
  "typed_agent_api url os w =
     (Inr \<lparr>resp_body = Some login_answer, resp_statusCode = 200, resp_statusMessage = None,
       resp_headers = [(''set-cookie'', JArr [JStr ''x'', JStr ''y''])]\<rparr>, w)"

theorem typed_agent_session_witness:
  "\<exists>s. agent_login typed_agent_api plain_cookies [] sample_options () =
      ((Return s, login_body [] (csdsConfig sample_options)), ()) \<and> IAgentSession s \<and> as_token s = Some (JStr ''b'')
    \<and> as_cookies s = [(''x'', ''x''), (''y'', ''y'')]
    \<and> agent_doSessionRequest typed_agent_api plain_cookies s sample_options ''refresh'' () = (Return (), ())"
proof -
  have d: "service_domain sample_options ''agentVep'' () = (Inr ''undefined'', ())"
    by (simp add: service_domain_def sample_options_def resolveService_def domain_of_def String_of_def)
  let ?hs = "[(''set-cookie'', JArr [JStr ''x'', JStr ''y''])]"
  let ?r = "\<lparr>resp_body = Some login_answer, resp_statusCode = 200, resp_statusMessage = None, resp_headers = ?hs\<rparr>"
  have p: "post typed_agent_api url opts () = (Inr ?r, ())" for url opts
    by (simp add: post_def doRequest_first typed_agent_api_def settle_response_def)
  have b: "resp_body ?r = Some login_answer" by simp
  have h: "map_of ?hs ''set-cookie'' = Some (JArr (map JStr [''x'', ''y'']))" by simp
  have c: "set_cookies plain_cookies (resp_headers ?r) = Return [(''x'', ''x''), (''y'', ''y'')]"
    using set_cookies_list [OF h, of plain_cookies] by (simp add: plain_cookies_def)
  from typed_agent_session [OF login_answer_typed b d p, of plain_cookies, unfolded c sum.case] obtain s bearer csrf where
    "get_prop ''bearer'' (Some login_answer) = Return (Some (JStr bearer))"
    "agent_login typed_agent_api plain_cookies [] sample_options () = ((Return s, login_body [] (csdsConfig sample_options)), ())"
    "IAgentSession s" "as_token s = Some (JStr bearer)" "as_cookies s = [(''x'', ''x''), (''y'', ''y'')]"
    "agent_doSessionRequest typed_agent_api plain_cookies s sample_options ''refresh'' () =
       csrf_post typed_agent_api plain_cookies (JStr csrf) [(''x'', ''x''), (''y'', ''y'')] sample_options ''refresh'' ()"
    by blast
  moreover have "csrf_post typed_agent_api plain_cookies j [(''x'', ''x''), (''y'', ''y'')] sample_options ''refresh'' () = (Return (), ())" for j
    by (simp add: csrf_post_def d p plain_cookies_def)
  ultimately show ?thesis by (auto simp: login_answer_def)
qed

section \<open>Consumers\<close>

definition IConsumerCredentials :: ts_type where
  "IConsumerCredentials = TObject [] False"

definition IAuthenticatedConsumerCredentials :: ts_type where
  "IAuthenticatedConsumerCredentials = TObject
    [(''userId'', Required, TString),
     (''redirectUri'', Optional, TString)] False"

text \<open>A session has the properties of \<open>IUserSession\<close> and the claims of the token.\<close>

definition IConsumerSession :: ts_type where
  "IConsumerSession = TObject
    [(''accountId'', Required, TString),
     (''token'', Required, TString),
     (''sub'', Required, TString),
     (''aud'', Required, TString),
     (''iss'', Required, TString),
     (''exp'', Required, TString),
     (''iat'', Required, TString)] True"

definition IAuthenticatedConsumerSession :: ts_type where
  "IAuthenticatedConsumerSession = TObject
    [(''accountId'', Required, TString),
     (''token'', Required, TString),
     (''sub'', Required, TString),
     (''aud'', Required, TString),
     (''iss'', Required, TString),
     (''exp'', Required, TString),
     (''iat'', Required, TString),
     (''userId'', Required, TString)] True"

definition ILoginResponse :: ts_type where
  "ILoginResponse = TObject [(''jwt'', Required, TString)] True"

lemmas consumer_type_defs = IConsumerSession_def IAuthenticatedConsumerSession_def ILoginResponse_def

lemma consumer_extend:
  "subtype IAuthenticatedConsumerCredentials IConsumerCredentials" "subtype IAuthenticatedConsumerSession IConsumerSession"
  by (simp_all add: IConsumerCredentials_def IAuthenticatedConsumerCredentials_def consumer_type_defs)

text \<open>The claims that decide: those without a default must be there, and none may be anything but a string.\<close>

definition claim_string :: "(string \<times> json) list \<Rightarrow> bool \<Rightarrow> string \<Rightarrow> bool" where
  "claim_string claims required k =
     (case map_of (rev claims) k of Some (JStr s) \<Rightarrow> True | None \<Rightarrow> \<not> required | _ \<Rightarrow> False)"

text \<open>
  C40. What the type of a consumer's login answer promises and what it does not: an answer of the type
  \<open>ILoginResponse\<close> has a token, and only an empty one is refused as unprocessable; otherwise the login
  gives what the token's payload makes of it. When the payload is a JSON object of claims, this is a
  session, and it is of the type the code gives it, \<open>IAuthenticatedConsumerSession\<close>, exactly when the
  claims happen to be: \<open>sub\<close>, \<open>aud\<close>, \<open>iss\<close>, \<open>exp\<close> and \<open>iat\<close> are there and strings, and \<open>token\<close>, \<open>accountId\<close> and
  \<open>userId\<close> are strings if they are there. Nothing in the code checks this.
\<close>

theorem consumer_session_type:
  assumes "conforms ILoginResponse body"
  shows "\<exists>jwt. get_prop ''jwt'' (Some body) = Return (Some (JStr jwt))
    \<and> parseJwt T (Some body) account =
        (if jwt = [] then Throw (Error (''Unprocessable response: '' @ inspect T (Some body)))
         else case jwt_payload T jwt of
           Inl e \<Rightarrow> Throw e
         | Inr payload \<Rightarrow> Return (assign [(''token'', JStr jwt), (''accountId'', JStr account)] (own_props payload)))
    \<and> (\<forall>claims. jwt \<noteq> [] \<longrightarrow> jwt_payload T jwt = Return (JObj claims) \<longrightarrow>
        (\<exists>session. authenticated_parseJwt T credentials (Some body) account = Return session
          \<and> (conforms IAuthenticatedConsumerSession (JObj session) \<longleftrightarrow>
               list_all (claim_string claims True) [''sub'', ''aud'', ''iss'', ''exp'', ''iat'']
               \<and> list_all (claim_string claims False) [''token'', ''accountId'', ''userId''])))"
proof -
  obtain jwt where v: "get_prop ''jwt'' (Some body) = Return (Some (JStr jwt))"
    using conforms_required_string [OF assms [unfolded ILoginResponse_def], of "''jwt''"] by auto
  moreover have "parseJwt T (Some body) account =
        (if jwt = [] then Throw (Error (''Unprocessable response: '' @ inspect T (Some body)))
         else case jwt_payload T jwt of
           Inl e \<Rightarrow> Throw e
         | Inr payload \<Rightarrow> Return (assign [(''token'', JStr jwt), (''accountId'', JStr account)] (own_props payload)))"
    using v by (simp add: parseJwt_def)
  moreover have "\<exists>session. authenticated_parseJwt T credentials (Some body) account = Return session
          \<and> (conforms IAuthenticatedConsumerSession (JObj session) \<longleftrightarrow>
               list_all (claim_string claims True) [''sub'', ''aud'', ''iss'', ''exp'', ''iat'']
               \<and> list_all (claim_string claims False) [''token'', ''accountId'', ''userId''])"
    if "jwt \<noteq> []" "jwt_payload T jwt = Return (JObj claims)" for claims
  proof -
    let ?base = "assign [(''token'', JStr jwt), (''accountId'', JStr account)] claims"
    let ?session = "assign [(''userId'', JStr (userId credentials))] ?base"
    have "authenticated_parseJwt T credentials (Some body) account = Return ?session"
      using parseJwt_object [OF v that] by (simp add: authenticated_parseJwt_def)
    moreover have "map_of (rev ?base) = map_of ?base" by (rule map_of_rev_distinct) (simp add: distinct_assign)
    then have s: "map_of ?session k = (case map_of (rev claims) k of Some x \<Rightarrow> Some x
        | None \<Rightarrow> if k = ''token'' then Some (JStr jwt) else if k = ''accountId'' then Some (JStr account)
                  else if k = ''userId'' then Some (JStr (userId credentials)) else None)" for k
      by (auto simp: map_of_assign map_add_def split: option.splits)
    have has_string: "(\<exists>x. map_of ?session k = Some x \<and> conforms TString x)
        \<longleftrightarrow> claim_string claims (k \<notin> {''token'', ''accountId'', ''userId''}) k" for k
      unfolding s claim_string_def by (auto split: option.splits json.splits)
    have req: "(case x of None \<Rightarrow> Required = Optional | Some y \<Rightarrow> conforms TString y) \<longleftrightarrow> (\<exists>y. x = Some y \<and> conforms TString y)" for x
      by (cases x) simp_all
    have "conforms IAuthenticatedConsumerSession (JObj ?session) \<longleftrightarrow>
        list_all (claim_string claims True) [''sub'', ''aud'', ''iss'', ''exp'', ''iat'']
        \<and> list_all (claim_string claims False) [''token'', ''accountId'', ''userId'']"
      unfolding IAuthenticatedConsumerSession_def conforms.simps(8) json.case list.pred_inject prod.case req has_string
      by simp blast
    ultimately show ?thesis by blast
  qed
  ultimately show ?thesis by blast
qed

text \<open>A token whose \<open>exp\<close> and \<open>iat\<close> are numbers, as the standard of web tokens has them.\<close>

definition standard_claims :: "(string \<times> json) list" where
  "standard_claims = [(''sub'', JStr ''s''), (''aud'', JStr ''a''), (''iss'', JStr ''i''), (''exp'', JNum 9), (''iat'', JNum 1)]"

definition standard_token :: string where
  "standard_token = ''h'' @ CHR ''.'' # base64url (stringify (JObj standard_claims)) @ CHR ''.'' # ''s''"

theorem consumer_session_type_witness:
  "\<exists>session. authenticated_parseJwt reference_text_runtime \<lparr>userId = ''u'', redirectUri = None\<rparr>
      (Some (JObj [(''jwt'', JStr standard_token)])) ''1'' = Return session
    \<and> \<not> conforms IAuthenticatedConsumerSession (JObj session)"
proof -
  let ?body = "JObj [(''jwt'', JStr standard_token)]"
  have b: "conforms ILoginResponse ?body" by (simp add: ILoginResponse_def)
  have w: "well_formed (JObj standard_claims)" by (simp add: standard_claims_def)
  have a: "ascii (stringify (JObj standard_claims))" by code_simp
  have p: "jwt_payload reference_text_runtime standard_token = Return (JObj standard_claims)"
    unfolding standard_token_def by (rule token_payload [OF reference_text_runtime_documented w a]) simp
  have t: "standard_token \<noteq> []" by (simp add: standard_token_def)
  have no: "\<not> claim_string standard_claims True ''exp''" by (simp add: claim_string_def standard_claims_def)
  from consumer_session_type [OF b, of reference_text_runtime "''1''" "\<lparr>userId = ''u'', redirectUri = None\<rparr>"] p t no
  show ?thesis by auto
qed

end
