(* ===== verification/Session_Interface.thy ===== *)
theory Session_Interface
  imports Session_Types
begin

text \<open>
  \<open>packages/le-session-provider/src/provider.ts\<close>: the interface \<open>ISessionProvider\<close> as a record of
  operations, what every provider does when it cannot find its service as the locale
  \<open>session_provider\<close>, and the three providers of the repository.
\<close>

section \<open>The interface\<close>

text \<open>\<open>login\<close> is given the caller's credentials object and may change it.\<close>

record ('cred, 's, 'w) ISessionProvider =
  isp_login :: "'cred \<Rightarrow> 'w provider_options \<Rightarrow> 'w \<Rightarrow> ((js_error + 's) \<times> 'cred) \<times> 'w"
  isp_refresh :: "'s \<Rightarrow> 'w provider_options \<Rightarrow> 'w \<Rightarrow> (js_error + unit) \<times> 'w"
  isp_logout :: "'s \<Rightarrow> 'w provider_options \<Rightarrow> 'w \<Rightarrow> (js_error + unit) \<times> 'w"

text \<open>
  A provider looks its service up with the resolver it is given, and logs in with what it finds: when
  the lookup fails, so does the login, with the same error, and nothing else is asked for.
\<close>

locale session_provider =
  fixes P :: "('cred, 's, 'w) ISessionProvider"
    and svc :: string
  assumes login_needs_service:
    "service_domain options svc w = (Inl e, w') \<Longrightarrow> \<exists>c. isp_login P cred options w = ((Throw e, c), w')"
begin

lemma logged_in_service:
  assumes "isp_login P cred options w = ((Return s, c), w')"
  shows "\<exists>dm w1. service_domain options svc w = (Inr dm, w1)"
proof (cases "service_domain options svc w")
  case (Pair a w1)
  show ?thesis
  proof (cases a)
    case (Inl e)
    from login_needs_service [OF Pair [unfolded Inl], of cred] assms show ?thesis by auto
  qed (use Pair in simp)
qed

end

section \<open>The providers\<close>

definition agent_provider :: "'w got_fn \<Rightarrow> cookie_package \<Rightarrow> (agent_credentials, agent_session, 'w) ISessionProvider" where
  "agent_provider postFn C =
     \<lparr>isp_login = agent_login postFn C, isp_refresh = agent_refresh postFn C, isp_logout = agent_logout postFn C\<rparr>"

definition unauthenticated_provider :: "'w got_fn \<Rightarrow> text_runtime \<Rightarrow> (unit, (string \<times> json) list, 'w) ISessionProvider" where
  "unauthenticated_provider postFn T =
     \<lparr>isp_login = (\<lambda>cred options w. case unauthenticated_login postFn T options w of (r, w') \<Rightarrow> ((r, cred), w')),
      isp_refresh = (\<lambda>_ _. consumer_refresh), isp_logout = (\<lambda>_ _. consumer_logout)\<rparr>"

definition authenticated_provider ::
  "'w got_fn \<Rightarrow> text_runtime \<Rightarrow> (consumer_credentials, (string \<times> json) list, 'w) ISessionProvider" where
  "authenticated_provider postFn T =
     \<lparr>isp_login = (\<lambda>cred options w. case authenticated_login postFn T cred options w of (r, w') \<Rightarrow> ((r, cred), w')),
      isp_refresh = (\<lambda>_ _. consumer_refresh), isp_logout = (\<lambda>_ _. consumer_logout)\<rparr>"

interpretation agents: session_provider "agent_provider postFn C" "''agentVep''" for postFn C
  by unfold_locales (simp add: agent_provider_def agent_login_def agent_doRequest_def Let_def)

interpretation consumers: session_provider "unauthenticated_provider postFn T" "''idp''" for postFn T
  by unfold_locales (simp add: unauthenticated_provider_def unauthenticated_login_def consumer_login_def)

interpretation users: session_provider "authenticated_provider postFn T" "''idp''" for postFn T
  by unfold_locales (simp add: authenticated_provider_def authenticated_login_def consumer_login_def)

text \<open>Logging in again writes the same into the credentials: every login of an agent sends the same body.\<close>

lemma login_body_again: "login_body (login_body cred config) config = login_body cred config"
  by (simp add: login_body_def put_same)

end
