(* ===== verification/Le_Requests.thy ===== *)
theory Le_Requests
  imports Client_State
begin

text \<open>
  \<open>authenticatedRequest\<close> of \<open>packages/le-client/src/client.ts\<close>. A session is an arbitrary type with the
  token \<open>token_of\<close>. \<open>Object.assign\<close> copies the options one level deep, so the \<open>headers\<close> object is the
  caller's own: the second component of the result is the caller's options afterwards.
\<close>

text \<open>\<open>opts.headers.Authorization = ...\<close>: what becomes of the headers value, or a type error.\<close>

definition with_authorization :: "string \<Rightarrow> json \<Rightarrow> js_error + json" where
  "with_authorization auth hs =
     (case hs of
        JObj ps \<Rightarrow> Return (JObj (put ''Authorization'' (JStr auth) ps))
      | JArr xs \<Rightarrow> Return (JArr xs)
      | _ \<Rightarrow> Throw TypeError)"

definition authenticatedRequest ::
  "('s \<Rightarrow> string) \<Rightarrow> 'w got_fn \<Rightarrow> ('s, 'n) client \<Rightarrow> string \<Rightarrow> options \<Rightarrow> 'w \<Rightarrow>
     ((js_error + response) \<times> options) \<times> 'w" where
  "authenticatedRequest token_of got s url options w =
     (case checkStarted s of
        Inl e \<Rightarrow> ((Throw e, options), w)
      | Inr _ \<Rightarrow>
          (let opts = assign [(''headers'', JObj [])] options
           in case credentials s of
                Inl e \<Rightarrow> ((Throw e, options), w)
              | Inr None \<Rightarrow> ((Throw TypeError, options), w)
              | Inr (Some session) \<Rightarrow>
                  (case with_authorization (''Bearer '' @ token_of session) (the (map_of opts ''headers'')) of
                     Inl e \<Rightarrow> ((Throw e, options), w)
                   | Inr hs \<Rightarrow>
                       (let after = (if map_of options ''headers'' = None then options else put ''headers'' hs options)
                        in case request got url (put ''headers'' hs opts) w of
                             (r, w') \<Rightarrow> ((r, after), w')))))"

lemma headers_given: "map_of (assign [(''headers'', JObj [])] os) ''headers'' \<noteq> None"
  by (auto simp: map_of_assign map_add_def split: option.splits)

lemma authenticated_request_sends:
  assumes "distinct (map fst os)" and "map_of os ''headers'' = Some (JObj hs)" and "started s" and "leSession s = Some x"
  shows "\<exists>sent w' r. authenticatedRequest token_of got s url os w =
      ((r, put ''headers'' (JObj (put ''Authorization'' (JStr (''Bearer '' @ token_of x)) hs)) os), w')
    \<and> request got url sent w = (r, w')
    \<and> map_of sent ''headers'' = Some (JObj (put ''Authorization'' (JStr (''Bearer '' @ token_of x)) hs))
    \<and> (\<forall>k. k \<noteq> ''headers'' \<longrightarrow> map_of sent k = map_of os k)"
proof -
  let ?hs = "JObj (put ''Authorization'' (JStr (''Bearer '' @ token_of x)) hs)"
  let ?sent = "put ''headers'' ?hs (assign [(''headers'', JObj [])] os)"
  have m: "map_of (assign [(''headers'', JObj [])] os) k =
      (case map_of os k of Some v \<Rightarrow> Some v | None \<Rightarrow> if k = ''headers'' then Some (JObj []) else None)" for k
    by (auto simp: map_of_assign map_of_rev_distinct [OF assms(1)] map_add_def split: option.splits)
  obtain r w' where r: "request got url ?sent w = (r, w')" by fastforce
  have "authenticatedRequest token_of got s url os w = ((r, put ''headers'' ?hs os), w')"
    using assms(2-4) r m [of "''headers''"]
    by (simp add: authenticatedRequest_def checkStarted_def credentials_def with_authorization_def Let_def)
  moreover have "\<forall>k. k \<noteq> ''headers'' \<longrightarrow> map_of ?sent k = map_of os k"
    by (simp add: m split: option.splits)
  ultimately show "\<exists>sent w' r. authenticatedRequest token_of got s url os w = ((r, put ''headers'' ?hs os), w')
      \<and> request got url sent w = (r, w') \<and> map_of sent ''headers'' = Some ?hs
      \<and> (\<forall>k. k \<noteq> ''headers'' \<longrightarrow> map_of sent k = map_of os k)"
    using r by (intro exI [of _ ?sent] exI [of _ w'] exI [of _ r]) simp
qed

text \<open>
  An authenticated request needs a started client with a session, and sends the caller's options
  with the session's token in the authorization header, whatever the caller put there. A client that
  is not started sends nothing. When the caller passes a headers object, that object has the token
  in it afterwards.
\<close>

theorem authenticated_request_spec:
  assumes "distinct (map fst os)" and "map_of os ''headers'' = Some (JObj hs)"
  shows "(\<not> started s \<longrightarrow> authenticatedRequest token_of got s url os w = ((Throw not_started, os), w))
    \<and> (started s \<and> leSession s = Some x \<longrightarrow>
        (\<exists>sent w' r. authenticatedRequest token_of got s url os w =
            ((r, put ''headers'' (JObj (put ''Authorization'' (JStr (''Bearer '' @ token_of x)) hs)) os), w')
          \<and> request got url sent w = (r, w')
          \<and> map_of sent ''headers'' = Some (JObj (put ''Authorization'' (JStr (''Bearer '' @ token_of x)) hs))
          \<and> (\<forall>k. k \<noteq> ''headers'' \<longrightarrow> map_of sent k = map_of os k)))"
proof (intro conjI impI)
  show "authenticatedRequest token_of got s url os w = ((Throw not_started, os), w)" if "\<not> started s"
    using that by (simp add: authenticatedRequest_def checkStarted_def)
qed (rule authenticated_request_sends [OF assms], simp_all)

theorem authenticated_request_spec_witness:
  "snd (fst (authenticatedRequest (\<lambda>x. x) (\<lambda>url os w. (Inl TypeError, w))
      (new_client \<lparr>machine := \<lparr>current = STARTED, pending = False\<rparr>, leSession := Some ''t''\<rparr> :: (string, nat) client)
      ''u'' [(''headers'', JObj [])] ()))
    = [(''headers'', JObj [(''Authorization'', JStr ''Bearer t'')])]"
proof -
  let ?s = "new_client \<lparr>machine := \<lparr>current = STARTED, pending = False\<rparr>, leSession := Some ''t''\<rparr> :: (string, nat) client"
  have "started ?s \<and> leSession ?s = Some ''t''" by (simp add: started_def)
  then show ?thesis
    using authenticated_request_spec [of "[(''headers'', JObj [])]" "[]" ?s "\<lambda>x. x" "\<lambda>url os w. (Inl TypeError, w)" "''u''" "()" "''t''"]
    by auto
qed

end
