(* ===== verification/Le_Services.thy ===== *)
theory Le_Services
  imports Client_Lifecycle Session_Interface Le_Requests
begin

text \<open>
  A client whose configuration has a real resolver and a real session provider: the answers of the calls
  its handlers wait for are what these make of the outside world, which is in any state at all when a
  call is made. So whatever data the client has comes from its own services.
\<close>

section \<open>The services of a client\<close>

text \<open>
  Of the configuration: \<open>csdsConfig\<close> and \<open>csdsResolver\<close> (which the provider is given as its options), and
  the provider.
\<close>

record ('cred, 's, 'w) services =
  service_options :: "'w provider_options"
  sessionProvider :: "('cred, 's, 'w) ISessionProvider"

text \<open>
  What a service answers to a call, in a state \<open>w\<close> of the world, and the client's credentials object
  afterwards; \<open>None\<close> for the calls that are not the services'.
\<close>

fun service_answer :: "('a \<Rightarrow> 's reply) \<Rightarrow> js_error + 'a \<Rightarrow> 's reply" where
  "service_answer f (Inl e) = Rejected e"
| "service_answer f (Inr x) = f x"

fun service_reply :: "('cred, 's, 'w) services \<Rightarrow> 's call \<Rightarrow> 'cred \<Rightarrow> 'w \<Rightarrow> ('s reply \<times> 'cred) option" where
  "service_reply S C_resolve cred w =
     (let opts = service_options S
      in Some (service_answer R_domains (fst (csdsResolver opts (csdsConfig opts) w)), cred))"
| "service_reply S C_login cred w =
     (case isp_login (sessionProvider S) cred (service_options S) w of
        ((r, cred'), w') \<Rightarrow> Some (service_answer R_session r, cred'))"
| "service_reply S (C_refresh x) cred w =
     Some (service_answer (\<lambda>_. R_done) (fst (isp_refresh (sessionProvider S) x (service_options S) w)), cred)"
| "service_reply S (C_logout x) cred w =
     Some (service_answer (\<lambda>_. R_done) (fst (isp_logout (sessionProvider S) x (service_options S) w)), cred)"
| "service_reply S (C_resolveService svc sess) cred w =
     (let opts = service_options S
      in Some (service_answer R_service (fst (resolveService (csdsResolver opts)
           \<lparr>accountId = accountId (csdsConfig opts), csdsDomain = csdsDomain (csdsConfig opts), service = Some svc\<rparr> w)), cred))"
| "service_reply S (C_connect sess v) cred w = None"
| "service_reply S C_disconnect cred w = None"
| "service_reply S C_tick cred w = None"
| "service_reply S (C_unwind e) cred w = None"

section \<open>Steps\<close>

record ('cred, 's, 'n) serviced =
  life :: "('s, 'n) sys"
  own_credentials :: 'cred

datatype ('s, 'w) serviced_event =
    Served nat 'w         \<comment> \<open>a service answers a call, made in this state of the world\<close>
  | Unserved "'s event"   \<comment> \<open>the user, a timer, the transport or the runtime\<close>

fun unserved :: "('cred, 's, 'w) services \<Rightarrow> ('s, 'n) sys \<Rightarrow> 's event \<Rightarrow> bool" where
  "unserved S \<sigma> (Reply k r) =
     (case fst (snd (tasks \<sigma> ! k)) of
        C_connect _ _ \<Rightarrow> True | C_disconnect \<Rightarrow> True | C_tick \<Rightarrow> True | C_unwind _ \<Rightarrow> True | _ \<Rightarrow> False)"
| "unserved S \<sigma> _ = True"

fun serviced_step ::
  "('cred, 's, 'w) services \<Rightarrow> jsm \<Rightarrow> client_class \<Rightarrow> ('s, 'w) serviced_event \<Rightarrow> ('cred, 's, 'n) serviced \<Rightarrow>
     ('cred, 's, 'n) serviced option" where
  "serviced_step S J cls (Served k w) Z =
     (if k < length (tasks (life Z))
      then (case service_reply S (fst (snd (tasks (life Z) ! k))) (own_credentials Z) w of
              None \<Rightarrow> None
            | Some (r, c) \<Rightarrow> map_option (\<lambda>\<sigma>. \<lparr>life = \<sigma>, own_credentials = c\<rparr>) (sys_step J cls (Reply k r) (life Z)))
      else None)"
| "serviced_step S J cls (Unserved e) Z =
     (if unserved S (life Z) e then map_option (\<lambda>\<sigma>. Z\<lparr>life := \<sigma>\<rparr>) (sys_step J cls e (life Z)) else None)"

fun serviced_exec ::
  "('cred, 's, 'w) services \<Rightarrow> jsm \<Rightarrow> client_class \<Rightarrow> ('s, 'w) serviced_event list \<Rightarrow> ('cred, 's, 'n) serviced \<Rightarrow>
     ('cred, 's, 'n) serviced option" where
  "serviced_exec S J cls [] Z = Some Z"
| "serviced_exec S J cls (e # es) Z =
     (case serviced_step S J cls e Z of None \<Rightarrow> None | Some Z' \<Rightarrow> serviced_exec S J cls es Z')"

inductive serviced_reachable ::
  "('cred, 's, 'w) services \<Rightarrow> jsm \<Rightarrow> client_class \<Rightarrow> 'cred \<Rightarrow> ('cred, 's, 'n) serviced \<Rightarrow> bool" for S J cls given where
  init: "serviced_reachable S J cls given \<lparr>life = new_sys, own_credentials = given\<rparr>"
| step: "serviced_reachable S J cls given Z \<Longrightarrow> serviced_step S J cls e Z = Some Z' \<Longrightarrow>
     serviced_reachable S J cls given Z'"

lemma serviced_exec_reachable:
  "serviced_reachable S J cls given Z \<Longrightarrow> serviced_exec S J cls es Z = Some Z' \<Longrightarrow> serviced_reachable S J cls given Z'"
  by (induction es arbitrary: Z) (auto intro: serviced_reachable.step split: option.splits)

text \<open>It is a client like any other.\<close>

lemma serviced_step_cases [consumes 1, case_names served unserved]:
  assumes "serviced_step S J cls e Z = Some Z'"
  obtains k w org c "is" r where "e = Served k w" "k < length (tasks (life Z))" "tasks (life Z) ! k = (org, c, is)"
      "service_reply S c (own_credentials Z) w = Some (r, own_credentials Z')" "sys_step J cls (Reply k r) (life Z) = Some (life Z')"
    | e' where "e = Unserved e'" "unserved S (life Z) e'" "sys_step J cls e' (life Z) = Some (life Z')" "own_credentials Z' = own_credentials Z"
proof (cases e)
  case (Served k w)
  obtain org c "is" where t: "tasks (life Z) ! k = (org, c, is)" by (cases "tasks (life Z) ! k") auto
  show ?thesis
    using that(1) [OF Served _ t] assms Served t
    by (auto simp del: sys_step.simps split: if_splits option.splits)
next
  case (Unserved e')
  then show ?thesis using that(2) [OF Unserved] assms by (auto simp del: sys_step.simps split: if_splits)
qed

lemma serviced_life: "serviced_reachable S J cls given Z \<Longrightarrow> reachable J cls (life Z)"
proof (induction rule: serviced_reachable.induct)
  case (step Z e Z')
  from step(2) show ?case by (cases rule: serviced_step_cases) (use step(3) reachable_if.step in blast)+
qed (simp add: reachable_if.init)

section \<open>Where the data comes from\<close>

text \<open>The credentials the client may have after logins, the sessions these make, and the domains.\<close>

inductive credentials_from :: "('cred, 's, 'w) services \<Rightarrow> 'cred \<Rightarrow> 'cred \<Rightarrow> bool" for S given where
  given: "credentials_from S given given"
| login: "credentials_from S given c \<Longrightarrow>
     credentials_from S given (snd (fst (isp_login (sessionProvider S) c (service_options S) w)))"

definition session_from :: "('cred, 's, 'w) services \<Rightarrow> 'cred \<Rightarrow> 's \<Rightarrow> bool" where
  "session_from S given x \<longleftrightarrow>
     (\<exists>c w. credentials_from S given c \<and> fst (fst (isp_login (sessionProvider S) c (service_options S) w)) = Return x)"

definition domains_from :: "('cred, 's, 'w) services \<Rightarrow> csds_response \<Rightarrow> bool" where
  "domains_from S d \<longleftrightarrow> (\<exists>w. fst (csdsResolver (service_options S) (csdsConfig (service_options S)) w) = Return d)"

definition service_from :: "('cred, 's, 'w) services \<Rightarrow> string \<Rightarrow> js_value \<Rightarrow> bool" where
  "service_from S svc v \<longleftrightarrow>
     (\<exists>w. fst (resolveService (csdsResolver (service_options S))
        \<lparr>accountId = accountId (csdsConfig (service_options S)), csdsDomain = csdsDomain (csdsConfig (service_options S)),
         service = Some svc\<rparr> w) = Return v)"

fun call_session :: "'s call \<Rightarrow> 's option" where
  "call_session (C_refresh x) = Some x"
| "call_session (C_logout x) = Some x"
| "call_session (C_resolveService svc sess) = sess"
| "call_session (C_connect sess v) = sess"
| "call_session _ = None"

text \<open>What code may call by itself; a connection is only opened with the answer of a lookup.\<close>

definition first_call :: "'s call \<Rightarrow> bool" where
  "first_call c \<longleftrightarrow>
     (\<forall>svc sess. c = C_resolveService svc sess \<longrightarrow> svc = ''asyncMessagingEnt'') \<and> (\<forall>sess v. c \<noteq> C_connect sess v)"

text \<open>Code only ever passes on the session the object has, and never makes one up.\<close>

lemma exec_instr_data:
  "exec_instr J i s = (s', out) \<Longrightarrow>
     (leSession s' = leSession s \<or> leSession s' = None) \<and> (csdsDomains s' = csdsDomains s \<or> csdsDomains s' = None)
     \<and> (\<forall>c. out = Wait c \<longrightarrow> (call_session c = leSession s \<or> call_session c = None) \<and> first_call c)"
  by (cases i)
     (auto simp: queueRefreshTask_def clearRefreshTask_def removeUmsListeners_def onError_def onMessage_def checkStarted_def
       credentials_def first_call_def split: option.splits sum.splits if_splits)

definition data_kept :: "('s, 'n) client \<Rightarrow> ('s, 'n) client \<Rightarrow> 's progress \<Rightarrow> bool" where
  "data_kept s s' p \<longleftrightarrow>
     (leSession s' = leSession s \<or> leSession s' = None) \<and> (csdsDomains s' = csdsDomains s \<or> csdsDomains s' = None)
     \<and> (\<forall>c is. p = Blocked c is \<longrightarrow> (call_session c = leSession s \<or> call_session c = None) \<and> first_call c)"

lemma run_data: "run J is s = (s', p) \<Longrightarrow> data_kept s s' p"
proof (induction J "is" s arbitrary: s' p rule: run.induct)
  case (2 J i "is" s)
  obtain s1 out where e: "exec_instr J i s = (s1, out)" by fastforce
  note d = exec_instr_data [OF e]
  show ?case
  proof (cases out)
    case Continue
    then have "data_kept s1 s' p" using 2 e by simp
    then show ?thesis using d by (auto simp: data_kept_def)
  next
    case (Raise x)
    then show ?thesis using 2 e d by (auto simp: data_kept_def abort_def first_call_def split: if_splits)
  qed (use 2 e d in \<open>auto simp: data_kept_def\<close>)
qed (simp add: data_kept_def)

lemma answer_data:
  "answer J c r s = Some (s', out) \<Longrightarrow>
     (leSession s' = leSession s \<or> (\<exists>x. c = C_login \<and> r = R_session x \<and> leSession s' = Some x))
     \<and> (csdsDomains s' = csdsDomains s \<or> (\<exists>d. c = C_resolve \<and> r = R_domains d \<and> csdsDomains s' = Some d))
     \<and> (\<forall>c'. out = Wait c' \<longrightarrow>
          (\<exists>svc sess v. c = C_resolveService svc sess \<and> r = R_service v \<and> c' = C_connect sess v))"
  by (cases c; cases r) auto

text \<open>All data of the object and of the calls in flight comes from the services.\<close>

definition data_ok :: "('cred, 's, 'w) services \<Rightarrow> 'cred \<Rightarrow> ('s, 'n) client \<Rightarrow> bool" where
  "data_ok S given s \<longleftrightarrow>
     (\<forall>x. leSession s = Some x \<longrightarrow> session_from S given x) \<and> (\<forall>d. csdsDomains s = Some d \<longrightarrow> domains_from S d)"

definition call_ok :: "('cred, 's, 'w) services \<Rightarrow> 'cred \<Rightarrow> 's call \<Rightarrow> bool" where
  "call_ok S given c \<longleftrightarrow>
     (\<forall>x. call_session c = Some x \<longrightarrow> session_from S given x)
     \<and> (\<forall>svc sess. c = C_resolveService svc sess \<longrightarrow> svc = ''asyncMessagingEnt'')
     \<and> (\<forall>sess v. c = C_connect sess v \<longrightarrow> service_from S ''asyncMessagingEnt'' v)"

definition tasks_ok :: "('cred, 's, 'w) services \<Rightarrow> 'cred \<Rightarrow> 's task list \<Rightarrow> bool" where
  "tasks_ok S given ts \<longleftrightarrow> list_all (\<lambda>(org, c, is). call_ok S given c) ts"

lemma tasks_ok_simps [simp]:
  "tasks_ok S given []" "tasks_ok S given (xs @ ys) \<longleftrightarrow> tasks_ok S given xs \<and> tasks_ok S given ys"
  "tasks_ok S given ((org, c, is) # ts) \<longleftrightarrow> call_ok S given c \<and> tasks_ok S given ts"
  by (simp_all add: tasks_ok_def)

definition services_inv :: "('cred, 's, 'w) services \<Rightarrow> 'cred \<Rightarrow> ('cred, 's, 'n) serviced \<Rightarrow> bool" where
  "services_inv S given Z \<longleftrightarrow>
     credentials_from S given (own_credentials Z) \<and> data_ok S given (this (life Z)) \<and> tasks_ok S given (tasks (life Z))"

lemma data_ok_kept:
  assumes "data_ok S given s" and "data_kept s s' p"
  shows "data_ok S given s' \<and> (\<forall>c is. p = Blocked c is \<longrightarrow> call_ok S given c)"
  using assms by (auto simp: data_ok_def data_kept_def call_ok_def first_call_def)

lemma data_ok_progress:
  assumes "data_ok S given s" and "data_kept s s' p" and "tasks_ok S given pre" and "tasks_ok S given suf"
  shows "data_ok S given (this (put_progress org pre suf outs (s', p)))
    \<and> tasks_ok S given (tasks (put_progress org pre suf outs (s', p)))"
  using data_ok_kept [OF assms(1,2)] assms(3,4) by (cases p) simp_all

lemma data_ok_run:
  assumes "data_ok S given s" and "tasks_ok S given pre" and "tasks_ok S given suf"
  shows "data_ok S given (this (put_progress org pre suf outs (run J is s)))
    \<and> tasks_ok S given (tasks (put_progress org pre suf outs (run J is s)))"
proof (cases "run J is s")
  case (Pair s' p)
  then show ?thesis using data_ok_progress [OF assms(1) run_data [OF Pair] assms(2,3)] by simp
qed

text \<open>An answer that is as good as the services' keeps everything.\<close>

definition reply_ok :: "('cred, 's, 'w) services \<Rightarrow> 'cred \<Rightarrow> 's call \<Rightarrow> 's reply \<Rightarrow> bool" where
  "reply_ok S given c r \<longleftrightarrow>
     (\<forall>x. c = C_login \<longrightarrow> r = R_session x \<longrightarrow> session_from S given x)
     \<and> (\<forall>d. c = C_resolve \<longrightarrow> r = R_domains d \<longrightarrow> domains_from S d)
     \<and> (\<forall>svc sess v. c = C_resolveService svc sess \<longrightarrow> r = R_service v \<longrightarrow> service_from S svc v)"

lemma data_ok_resume:
  assumes "data_ok S given s" and "call_ok S given c" and "reply_ok S given c r"
    and "tasks_ok S given pre" and "tasks_ok S given suf" and res: "resume J c r is s = Some y"
  shows "data_ok S given (this (put_progress org pre suf outs y)) \<and> tasks_ok S given (tasks (put_progress org pre suf outs y))"
proof -
  obtain s1 out where a: "answer J c r s = Some (s1, out)"
    using res by (auto simp: resume_def split: option.splits)
  have s1: "data_ok S given s1"
    using answer_data [OF a] assms(1,3) by (auto simp: data_ok_def reply_ok_def)
  show ?thesis
  proof (cases out)
    case Continue
    then have "y = run J is s1" using a res by (simp add: resume_def)
    then show ?thesis using data_ok_run [OF s1 assms(4,5)] by simp
  next
    case (Wait c')
    then have "y = (s1, Blocked c' is)" using a res by (simp add: resume_def)
    moreover have "call_ok S given c'" using answer_data [OF a] assms(2,3) Wait by (auto simp: call_ok_def reply_ok_def)
    ultimately show ?thesis using s1 assms(4,5) by simp
  next
    case (Raise e)
    then have "y = (s1, abort e is)" using a res by (simp add: resume_def)
    then show ?thesis using s1 assms(4,5) by (simp add: abort_def call_ok_def)
  qed
qed

lemma data_ok_step:
  assumes J: "jsm_documented J" and ok: "data_ok S given (this \<sigma>)" "tasks_ok S given (tasks \<sigma>)"
    and step: "sys_step J cls e \<sigma> = Some \<sigma>'"
    and reply: "\<And>k r org c is. e = Reply k r \<Longrightarrow> tasks \<sigma> ! k = (org, c, is) \<Longrightarrow> reply_ok S given c r"
  shows "data_ok S given (this \<sigma>') \<and> tasks_ok S given (tasks \<sigma>')"
  using step J
proof (cases rule: sys_step_cases)
  case (called t m)
  have "data_ok S given ((this \<sigma>)\<lparr>machine := m\<rparr>)" using ok(1) by (simp add: data_ok_def)
  from data_ok_run [OF this ok(2)] show ?thesis unfolding called(3) by simp
next
  case (answered k r org c "is" pre suf y)
  have "reply_ok S given c r" using reply [OF answered(1)] answered(2,5) by simp
  then show ?thesis using data_ok_resume [OF ok(1) _ _ _ _ answered(3)] ok(2) unfolding answered(2,4) by simp
next
  case (refreshed h m)
  have "data_ok S given ((this \<sigma>)\<lparr>armed := removeAll h (armed (this \<sigma>)), machine := m\<rparr>)"
    using ok(1) by (simp add: data_ok_def)
  from data_ok_run [OF this ok(2)] show ?thesis unfolding refreshed(4) by simp
qed (use ok in \<open>simp_all add: data_ok_def queueRefreshTask_def\<close>)

lemma service_reply_ok:
  assumes "credentials_from S given c0" and "service_reply S c c0 w = Some (r, c1)"
  shows "credentials_from S given c1 \<and> reply_ok S given c r"
proof (cases c)
  case C_resolve
  then show ?thesis
    using assms by (cases "fst (csdsResolver (service_options S) (csdsConfig (service_options S)) w)")
      (auto simp: reply_ok_def domains_from_def Let_def)
next
  case C_login
  obtain x c' w' where l: "isp_login (sessionProvider S) c0 (service_options S) w = ((x, c'), w')" by (metis prod.collapse)
  then have "credentials_from S given c'" using credentials_from.login [OF assms(1), of w] by simp
  then show ?thesis using C_login assms l by (cases x) (auto simp: reply_ok_def session_from_def intro!: exI [of _ c0] exI [of _ w])
next
  case (C_resolveService svc sess)
  let ?c = "\<lparr>accountId = accountId (csdsConfig (service_options S)), csdsDomain = csdsDomain (csdsConfig (service_options S)),
      service = Some svc\<rparr>"
  show ?thesis
    using C_resolveService assms by (cases "fst (resolveService (csdsResolver (service_options S)) ?c w)")
      (auto simp: reply_ok_def service_from_def Let_def)
qed (use assms in \<open>auto simp: reply_ok_def Let_def\<close>)

lemma unserved_ok: "unserved S \<sigma> (Reply k r) \<Longrightarrow> tasks \<sigma> ! k = (org, c, is) \<Longrightarrow> reply_ok S given c r"
  by (cases c) (simp_all add: reply_ok_def)

lemma services_inv_reachable:
  assumes "jsm_documented J" and "serviced_reachable S J cls given Z"
  shows "services_inv S given Z"
  using assms(2)
proof (induction rule: serviced_reachable.induct)
  case init
  then show ?case
    by (simp add: services_inv_def credentials_from.given data_ok_def new_sys_def new_client_def)
next
  case (step Z e Z')
  then have ok: "credentials_from S given (own_credentials Z)" "data_ok S given (this (life Z))" "tasks_ok S given (tasks (life Z))"
    by (simp_all add: services_inv_def)
  from step(2) show ?case
  proof (cases rule: serviced_step_cases)
    case (served k w org c "is" r)
    note r = service_reply_ok [OF ok(1) served(4)]
    have "data_ok S given (this (life Z')) \<and> tasks_ok S given (tasks (life Z'))"
      by (rule data_ok_step [OF assms(1) ok(2,3) served(5)]) (use r served(3) in simp)
    then show ?thesis using r by (simp add: services_inv_def)
  next
    case (unserved e')
    have "reply_ok S given c r" if "e' = Reply k r" "tasks (life Z) ! k = (org, c, is)" for k r org c "is"
      by (rule unserved_ok [of S "life Z" k r org c "is", OF unserved(2) [unfolded that(1)] that(2)])
    then have "data_ok S given (this (life Z')) \<and> tasks_ok S given (tasks (life Z'))"
      by (rule data_ok_step [OF assms(1) ok(2,3) unserved(3)])
    then show ?thesis using unserved ok(1) by (simp add: services_inv_def)
  qed
qed

section \<open>What the client shows and sends\<close>

text \<open>
  C7. A client's data is its services': in every reachable state of a client of any class, the domains
  it shows are an answer its resolver gave for its own configuration; the session it shows, and every
  session that a refresh, a logout or a connection under way was called with, is one its provider's
  login made of the credentials of its configuration (as they were given or as earlier logins left
  them); and a connection is opened to what the resolver gave for the messaging service.
\<close>

theorem data_from_services:
  assumes "jsm_documented J" and "serviced_reachable S J cls given Z"
  shows "(\<forall>d. domains (this (life Z)) = Return (Some d) \<longrightarrow>
        (\<exists>w. fst (csdsResolver (service_options S) (csdsConfig (service_options S)) w) = Return d))
    \<and> (\<forall>x. credentials (this (life Z)) = Return (Some x) \<longrightarrow> session_from S given x)
    \<and> (\<forall>org c is x. (org, c, is) \<in> set (tasks (life Z)) \<longrightarrow>
        c = C_refresh x \<or> c = C_logout x \<or> (\<exists>v. c = C_connect (Some x) v) \<longrightarrow> session_from S given x)
    \<and> (\<forall>org sess v is. (org, C_connect sess v, is) \<in> set (tasks (life Z)) \<longrightarrow> service_from S ''asyncMessagingEnt'' v)"
proof -
  have inv: "data_ok S given (this (life Z))" "tasks_ok S given (tasks (life Z))"
    using services_inv_reachable [OF assms] by (simp_all add: services_inv_def)
  have "session_from S given x" if "(org, c, is) \<in> set (tasks (life Z))" "call_session c = Some x" for org c "is" x
    using inv(2) that by (auto simp: tasks_ok_def list_all_iff call_ok_def)
  moreover have "service_from S ''asyncMessagingEnt'' v" if "(org, C_connect sess v, is) \<in> set (tasks (life Z))" for org sess v "is"
    using inv(2) that by (auto simp: tasks_ok_def list_all_iff call_ok_def)
  ultimately show ?thesis
    using inv(1) by (auto simp: data_ok_def domains_from_def domains_def credentials_def split: sum.splits)
qed

section \<open>Agents\<close>

definition agent_services ::
  "'w got_fn \<Rightarrow> cookie_package \<Rightarrow> 'w provider_options \<Rightarrow> (agent_credentials, agent_session, 'w) services" where
  "agent_services postFn C options = \<lparr>service_options = options, sessionProvider = agent_provider postFn C\<rparr>"

text \<open>The login request of an agent.\<close>

definition login_post ::
  "'w got_fn \<Rightarrow> 'w provider_options \<Rightarrow> agent_credentials \<Rightarrow> string \<Rightarrow> 'w \<Rightarrow> (js_error + response) \<times> 'w" where
  "login_post postFn options given dm =
     post postFn (''https://'' @ dm @ ''/api/account/'' @ accountId (csdsConfig options) @ ''/login?v=1.3'')
       (Some (agent_request (login_body given (csdsConfig options)) []))"

lemma agent_credentials_from:
  "credentials_from (agent_services postFn C options) given c \<Longrightarrow>
     login_body c (csdsConfig options) = login_body given (csdsConfig options)"
  by (induction rule: credentials_from.induct)
     (auto simp: agent_services_def agent_provider_def agent_login_def Let_def login_body_again split: prod.splits sum.splits)

lemma agent_login_request:
  "agent_doRequest postFn C (login_body cred (csdsConfig options)) [] options ''login'' w =
     (case service_domain options ''agentVep'' w of
        (Inl e, w1) \<Rightarrow> (Throw e, w1) | (Inr dm, w1) \<Rightarrow> login_post postFn options cred dm w1)"
  by (simp add: agent_doRequest_def login_post_def agent_request_def Let_def split: prod.split sum.split)

lemma agent_login_posted:
  assumes "fst (fst (agent_login postFn C cred options w)) = Return x"
  shows "\<exists>dm w1 r w2. login_post postFn options cred dm w1 = (Inr r, w2) \<and> as_credentials x = resp_body r
    \<and> get_prop ''bearer'' (resp_body r) = Return (as_token x) \<and> as_accountId x = accountId (csdsConfig options)"
proof (cases "service_domain options ''agentVep'' w")
  case (Pair a w1)
  then obtain dm where a: "a = Inr dm" using assms by (cases a) (simp_all add: agent_login_def agent_login_request Let_def)
  obtain y w2 where p: "login_post postFn options cred dm w1 = (y, w2)" by fastforce
  then obtain r where r: "y = Inr r" using assms Pair a by (cases y) (simp_all add: agent_login_def agent_login_request Let_def)
  have "as_credentials x = resp_body r \<and> get_prop ''bearer'' (resp_body r) = Return (as_token x)
      \<and> as_accountId x = accountId (csdsConfig options)"
    using assms Pair a p r by (auto simp: agent_login_def agent_login_request Let_def split: sum.splits)
  then show ?thesis using p r by blast
qed

lemma agent_session_from:
  assumes "session_from (agent_services postFn C options) given x"
  shows "\<exists>dm w1 r w2. login_post postFn options given dm w1 = (Inr r, w2) \<and> as_credentials x = resp_body r
    \<and> get_prop ''bearer'' (resp_body r) = Return (as_token x) \<and> as_accountId x = accountId (csdsConfig options)"
proof -
  obtain c w where c: "credentials_from (agent_services postFn C options) given c"
      "fst (fst (agent_login postFn C c options w)) = Return x"
    using assms by (auto simp: session_from_def agent_services_def agent_provider_def)
  from agent_login_posted [OF c(2)] show ?thesis by (simp add: login_post_def agent_credentials_from [OF c(1)])
qed

text \<open>The login answers of the client are typed, as the code takes them to be.\<close>

definition typed_logins :: "'w got_fn \<Rightarrow> 'w provider_options \<Rightarrow> agent_credentials \<Rightarrow> bool" where
  "typed_logins postFn options given \<longleftrightarrow>
     (\<forall>dm w r w'. login_post postFn options given dm w = (Inr r, w') \<longrightarrow>
        (\<exists>body. resp_body r = Some body \<and> conforms IAgentLoginCredentials body))"

lemma agent_session_typed:
  assumes "session_from (agent_services postFn C options) given x" and "typed_logins postFn options given"
  shows "IAgentSession x \<and> as_accountId x = accountId (csdsConfig options)
    \<and> (\<exists>b. as_token x = Some (JStr b)
        \<and> (\<exists>dm w1 r w2. login_post postFn options given dm w1 = (Inr r, w2)
             \<and> get_prop ''bearer'' (resp_body r) = Return (Some (JStr b))))"
proof -
  from agent_session_from [OF assms(1)] obtain dm w1 r w2 where l: "login_post postFn options given dm w1 = (Inr r, w2)"
      "as_credentials x = resp_body r" "get_prop ''bearer'' (resp_body r) = Return (as_token x)"
      "as_accountId x = accountId (csdsConfig options)" by blast
  obtain body where body: "resp_body r = Some body" "conforms IAgentLoginCredentials body"
    using assms(2) l(1) unfolding typed_logins_def by blast
  obtain ps csrf b where b: "body = JObj ps" "map_of ps ''bearer'' = Some (JStr b)"
    using body(2) by (rule login_credentials_strings)
  have t: "as_token x = Some (JStr b)" using l(3) body(1) b by simp
  have "IAgentSession x" using l(2) body t by (simp add: IAgentSession_def)
  moreover have "get_prop ''bearer'' (resp_body r) = Return (Some (JStr b))" using l(3) t by simp
  ultimately show ?thesis using l(1,4) t by blast
qed

text \<open>
  C5. An agent's requests carry the agent's login: when the login endpoint answers the client's login
  request only with values of the type \<open>IAgentLoginCredentials\<close>, then in every reachable state in which a
  started client has a session, the session is of the type \<open>IAgentSession\<close>, and a request the user makes
  with \<open>authenticatedRequest\<close> is sent with the authorization \<open>Bearer b\<close> for the bearer token \<open>b\<close> of such an
  answer, in the caller's headers and with the caller's other options, whatever restarts, refreshes
  and changes of the credentials object came before.
\<close>

theorem agent_requests_carry_login:
  assumes "jsm_documented J" and "serviced_reachable (agent_services postFn C options) J cls given Z"
    and "typed_logins postFn options given" and "started (this (life Z))" and "leSession (this (life Z)) = Some x"
    and "distinct (map fst os)" and "map_of os ''headers'' = Some (JObj hs)"
  shows "IAgentSession x
    \<and> (\<exists>b dm w1 r w2. login_post postFn options given dm w1 = (Inr r, w2)
        \<and> get_prop ''bearer'' (resp_body r) = Return (Some (JStr b))
        \<and> (\<exists>sent w' a after. authenticatedRequest (\<lambda>s. String_of (as_token s)) got (this (life Z)) url os w = ((a, after), w')
            \<and> request got url sent w = (a, w')
            \<and> map_of sent ''headers'' = Some (JObj (put ''Authorization'' (JStr (''Bearer '' @ b)) hs))
            \<and> (\<forall>k. k \<noteq> ''headers'' \<longrightarrow> map_of sent k = map_of os k)))"
proof -
  have "session_from (agent_services postFn C options) given x"
    using services_inv_reachable [OF assms(1,2)] assms(5) by (simp add: services_inv_def data_ok_def)
  from agent_session_typed [OF this assms(3)] obtain b dm w1 r w2 where x: "IAgentSession x"
      and t: "as_token x = Some (JStr b)" and l: "login_post postFn options given dm w1 = (Inr r, w2)"
      and b': "get_prop ''bearer'' (resp_body r) = Return (Some (JStr b))" by blast
  have "String_of (as_token x) = b" by (simp add: t String_of_def)
  with authenticated_request_sends [OF assms(6,7,4,5), of "\<lambda>s. String_of (as_token s)" got url w]
  have sends: "\<exists>sent w' a after. authenticatedRequest (\<lambda>s. String_of (as_token s)) got (this (life Z)) url os w = ((a, after), w')
      \<and> request got url sent w = (a, w')
      \<and> map_of sent ''headers'' = Some (JObj (put ''Authorization'' (JStr (''Bearer '' @ b)) hs))
      \<and> (\<forall>k. k \<noteq> ''headers'' \<longrightarrow> map_of sent k = map_of os k)" by blast
  show ?thesis
    by (intro conjI exI [of _ b] exI [of _ dm] exI [of _ w1] exI [of _ r] exI [of _ w2]) (rule x l b' sends)+
qed

section \<open>A run\<close>

text \<open>An agent client starts: the directory is asked for the domains, the agent service for a login.\<close>

definition sample_services :: "(agent_credentials, agent_session, unit) services" where
  "sample_services = agent_services typed_agent_api plain_cookies sample_options"

definition start_events :: "(agent_session, unit) serviced_event list" where
  "start_events = Unserved (Call START) # Served 0 () # replicate 4 (Unserved (Reply 0 R_done))
     @ [Served 0 (), Unserved (Reply 0 R_done)]"

definition sample_session :: agent_session where
  "sample_session = \<lparr>as_credentials = Some login_answer, as_cookies = [(''x'', ''x''), (''y'', ''y'')], as_accountId = ''1'',
     as_token = Some (JStr ''b'')\<rparr>"

lemma sample_login:
  "agent_login typed_agent_api plain_cookies cred sample_options () =
     ((Return sample_session, login_body cred (csdsConfig sample_options)), ())"
proof -
  have d: "service_domain sample_options ''agentVep'' () = (Inr ''undefined'', ())"
    by (simp add: service_domain_def sample_options_def resolveService_def domain_of_def String_of_def)
  have h: "map_of [(''set-cookie'', JArr [JStr ''x'', JStr ''y''])] ''set-cookie'' = Some (JArr (map JStr [''x'', ''y'']))" by simp
  have c: "set_cookies plain_cookies [(''set-cookie'', JArr [JStr ''x'', JStr ''y''])] = Return [(''x'', ''x''), (''y'', ''y'')]"
    using set_cookies_list [OF h, of plain_cookies] by (simp add: plain_cookies_def)
  have o: "accountId (csdsConfig sample_options) = ''1''" by (simp add: sample_options_def)
  show ?thesis
    by (simp add: agent_login_def agent_doRequest_def d post_def doRequest_first typed_agent_api_def settle_response_def c
        sample_session_def login_answer_def Let_def o)
qed

lemma sample_login_post:
  "login_post typed_agent_api sample_options cred dm w =
     (Inr \<lparr>resp_body = Some login_answer, resp_statusCode = 200, resp_statusMessage = None,
       resp_headers = [(''set-cookie'', JArr [JStr ''x'', JStr ''y''])]\<rparr>, w)"
  by (simp add: login_post_def post_def doRequest_first typed_agent_api_def settle_response_def)

lemma sample_typed_logins: "typed_logins typed_agent_api sample_options cred"
  using login_answer_typed by (auto simp: typed_logins_def sample_login_post)

lemma sample_services_simps [simp]:
  "service_options sample_services = sample_options" "csdsResolver sample_options c w = (Return [], w)"
  "isp_login (sessionProvider sample_services) = agent_login typed_agent_api plain_cookies"
  by (simp_all add: sample_services_def agent_services_def agent_provider_def) (simp add: sample_options_def)

lemma sample_start:
  "\<exists>Z :: (agent_credentials, agent_session, nat) serviced.
     serviced_exec sample_services reference_jsm LeClient start_events \<lparr>life = new_sys, own_credentials = []\<rparr> = Some Z
     \<and> started (this (life Z)) \<and> leSession (this (life Z)) = Some sample_session
     \<and> csdsDomains (this (life Z)) = Some []"
  using reference_jsm_documented
  by (simp add: start_events_def sample_login numeral_eq_Suc new_sys_def new_client_def run_simps started_def)

lemma sample_started_client:
  obtains Z :: "(agent_credentials, agent_session, nat) serviced" where
    "serviced_reachable sample_services reference_jsm LeClient [] Z" "started (this (life Z))"
    "leSession (this (life Z)) = Some sample_session" "csdsDomains (this (life Z)) = Some []"
proof -
  obtain Z :: "(agent_credentials, agent_session, nat) serviced" where
    Z: "serviced_exec sample_services reference_jsm LeClient start_events \<lparr>life = new_sys, own_credentials = []\<rparr> = Some Z"
      "started (this (life Z))" "leSession (this (life Z)) = Some sample_session" "csdsDomains (this (life Z)) = Some []"
    using sample_start by blast
  from serviced_exec_reachable [OF serviced_reachable.init Z(1)] Z(2-4) show ?thesis by (rule that)
qed

theorem data_from_services_witness:
  "\<exists>Z :: (agent_credentials, agent_session, nat) serviced.
     credentials (this (life Z)) = Return (Some sample_session) \<and> session_from sample_services [] sample_session
     \<and> domains (this (life Z)) = Return (Some [])
     \<and> (\<exists>w. fst (csdsResolver (service_options sample_services) (csdsConfig (service_options sample_services)) w) = Return [])"
proof -
  obtain Z :: "(agent_credentials, agent_session, nat) serviced" where
    Z: "serviced_reachable sample_services reference_jsm LeClient [] Z" "started (this (life Z))"
      "leSession (this (life Z)) = Some sample_session" "csdsDomains (this (life Z)) = Some []"
    by (rule sample_started_client)
  have "credentials (this (life Z)) = Return (Some sample_session)" "domains (this (life Z)) = Return (Some [])"
    using Z by (simp_all add: credentials_def domains_def checkStarted_def)
  then show ?thesis using data_from_services [OF reference_jsm_documented Z(1)] by blast
qed

theorem agent_requests_carry_login_witness:
  "\<exists>(Z :: (agent_credentials, agent_session, nat) serviced) sent w' a after.
     authenticatedRequest (\<lambda>s. String_of (as_token s)) (\<lambda>url os w. (Inl TypeError, w)) (this (life Z)) ''u'' [(''headers'', JObj [])] ()
       = ((a, after), w')
     \<and> map_of sent ''headers'' = Some (JObj [(''Authorization'', JStr ''Bearer b'')])
     \<and> request (\<lambda>url os w. (Inl TypeError, w)) ''u'' sent () = (a, w')"
proof -
  obtain Z :: "(agent_credentials, agent_session, nat) serviced" where
    Z: "serviced_reachable sample_services reference_jsm LeClient [] Z" "started (this (life Z))"
      "leSession (this (life Z)) = Some sample_session"
    by (rule sample_started_client)
  have token: "get_prop ''bearer'' (resp_body r) = Return (Some (JStr b)) \<Longrightarrow> b = ''b''"
    if "login_post typed_agent_api sample_options [] dm w = (Inr r, w')" for dm w r w' b
    using that by (auto simp: sample_login_post login_answer_def)
  have d: "distinct (map fst [(''headers'', JObj [])])" "map_of [(''headers'', JObj [])] ''headers'' = Some (JObj [])" by simp_all
  from agent_requests_carry_login [OF reference_jsm_documented Z(1) [unfolded sample_services_def] sample_typed_logins Z(2,3) d,
      where got = "\<lambda>url os w. (Inl TypeError, w)" and url = "''u''" and w = "()"] token
  show ?thesis by fastforce
qed

end
