(* ===== verification/Agent_Connection.thy ===== *)
theory Agent_Connection
  imports Le_Services Connection_Factory
begin

text \<open>
  The connection of an agent's client: \<open>packages/transport-client/src/client.ts\<close> hands the session of the
  login and the domain of the messaging service to the transport, and the factory of
  \<open>packages/ums-connection/src/connection.ts\<close> makes the endpoint and the headers of them.
\<close>

text \<open>What the factory reads of the session and the domain.\<close>

definition agent_connect_opts :: "agent_session \<Rightarrow> js_value \<Rightarrow> connection_opts" where
  "agent_connect_opts session domain =
     \<lparr>opts_domain = String_of domain,
      opts_session = \<lparr>sess_accountId = as_accountId session, sess_token = String_of (as_token session)\<rparr>\<rparr>"

text \<open>
  C6. An agent connects as the one who has logged in: when the login endpoint's answers are typed, then
  in every reachable state of a client of any class that is about to connect its transport with a
  session, the domain is what the client's resolver gave for the messaging service of the configured
  account, the endpoint is that account's on this domain, encrypted, and the only header is the
  authorization with the bearer token of an answer to the client's own login request.
\<close>

theorem agent_connection_from_login:
  assumes "jsm_documented J" and "serviced_reachable (agent_services postFn C options) J cls given Z"
    and "typed_logins postFn options given"
    and "(org, C_connect (Some x) v, is) \<in> set (tasks (life Z))"
  shows "(\<exists>w. fst (resolveService (csdsResolver options) \<lparr>accountId = accountId (csdsConfig options),
            csdsDomain = csdsDomain (csdsConfig options), service = Some ''asyncMessagingEnt''\<rparr> w) = Return v)
    \<and> endpoint AgentWsConnectionFactory (agent_connect_opts x v) =
        ''wss://'' @ String_of v @ ''/ws_api/account/'' @ accountId (csdsConfig options) @ ''/messaging/brand?v=2''
    \<and> (\<exists>b dm w1 r w2. login_post postFn options given dm w1 = (Inr r, w2)
        \<and> get_prop ''bearer'' (resp_body r) = Return (Some (JStr b))
        \<and> headers AgentWsConnectionFactory (agent_connect_opts x v) = [(''Authorization'', ''jwt '' @ b)])"
proof -
  have "call_ok (agent_services postFn C options) given (C_connect (Some x) v)"
    using services_inv_reachable [OF assms(1,2)] assms(4)
    by (auto simp: services_inv_def tasks_ok_def list_all_iff)
  then have s: "session_from (agent_services postFn C options) given x"
    and v: "service_from (agent_services postFn C options) ''asyncMessagingEnt'' v"
    by (simp_all add: call_ok_def)
  from agent_session_typed [OF s assms(3)] obtain b dm w1 r w2 where a: "as_accountId x = accountId (csdsConfig options)"
      "as_token x = Some (JStr b)" "login_post postFn options given dm w1 = (Inr r, w2)"
      "get_prop ''bearer'' (resp_body r) = Return (Some (JStr b))" by blast
  have "headers AgentWsConnectionFactory (agent_connect_opts x v) = [(''Authorization'', ''jwt '' @ b)]"
    by (simp add: AgentWsConnectionFactory_def base_headers_def agent_connect_opts_def a String_of_def)
  moreover have "endpoint AgentWsConnectionFactory (agent_connect_opts x v) =
      ''wss://'' @ String_of v @ ''/ws_api/account/'' @ accountId (csdsConfig options) @ ''/messaging/brand?v=2''"
    by (simp add: AgentWsConnectionFactory_def agent_connect_opts_def a)
  moreover have "\<exists>w. fst (resolveService (csdsResolver options) \<lparr>accountId = accountId (csdsConfig options),
      csdsDomain = csdsDomain (csdsConfig options), service = Some ''asyncMessagingEnt''\<rparr> w) = Return v"
    using v by (simp add: service_from_def agent_services_def)
  ultimately show ?thesis using a(3,4) by blast
qed

definition connect_events :: "(agent_session, unit) serviced_event list" where
  "connect_events = Unserved (Call START) # Served 0 () # replicate 4 (Unserved (Reply 0 R_done))
     @ [Served 0 (), Unserved (Reply 0 R_done), Served 0 ()]"

lemma sample_connecting:
  "\<exists>(Z :: (agent_credentials, agent_session, nat) serviced) is.
     serviced_exec sample_services reference_jsm TransportClient connect_events \<lparr>life = new_sys, own_credentials = []\<rparr> = Some Z
     \<and> tasks (life Z) = [(ByUser START, C_connect (Some sample_session) None, is)]"
  using reference_jsm_documented
  by (simp add: connect_events_def sample_login numeral_eq_Suc new_sys_def new_client_def run_simps
      resolveService_def domain_of_def)

theorem agent_connection_from_login_witness:
  "\<exists>(Z :: (agent_credentials, agent_session, nat) serviced) is v.
     (ByUser START, C_connect (Some sample_session) v, is) \<in> set (tasks (life Z))
     \<and> headers AgentWsConnectionFactory (agent_connect_opts sample_session v) = [(''Authorization'', ''jwt b'')]"
proof -
  obtain Z :: "(agent_credentials, agent_session, nat) serviced" and "is" where
    Z: "serviced_exec sample_services reference_jsm TransportClient connect_events \<lparr>life = new_sys, own_credentials = []\<rparr> = Some Z"
      "tasks (life Z) = [(ByUser START, C_connect (Some sample_session) None, is)]"
    using sample_connecting by blast
  have r: "serviced_reachable (agent_services typed_agent_api plain_cookies sample_options) reference_jsm TransportClient [] Z"
    using serviced_exec_reachable [OF serviced_reachable.init Z(1)] by (simp add: sample_services_def)
  have t: "(ByUser START, C_connect (Some sample_session) None, is) \<in> set (tasks (life Z))" by (simp add: Z(2))
  have b: "b = ''b''" if "login_post typed_agent_api sample_options [] dm w = (Inr r, w')"
      "get_prop ''bearer'' (resp_body r) = Return (Some (JStr b))" for dm w r w' b
    using that by (auto simp: sample_login_post login_answer_def)
  from agent_connection_from_login [OF reference_jsm_documented r sample_typed_logins t] b t show ?thesis by fastforce
qed

end
