(* ===== verification/Client_Config.thy ===== *)
theory Client_Config
  imports Csds_Config Event_Emitter
begin

text \<open>
  The configuration classes of the clients: \<open>config.ts\<close> of \<open>packages/csds-client\<close>, \<open>le-client\<close>,
  \<open>transport-client\<close> and \<open>ums-client\<close>. Each constructor calls the one of its super class; the base
  records are what the constructors take, with the optional properties as options. The collaborators
  (resolver, logger factory, session provider, transport, id generator) are values of type
  parameters.
\<close>

section \<open>CsdsClient\<close>

record ('res, 'lf) csds_client_base =
  b_csdsConfig :: csds_config
  b_csdsResolver :: 'res
  b_loggerFactory :: 'lf
  b_refreshInterval :: "int option"

record ('res, 'lf) csds_client_config =
  c_csdsConfig :: csds_config
  c_csdsResolver :: 'res
  c_loggerFactory :: 'lf
  refreshInterval :: int

definition DEFAULT_CSDS_REFRESH_INTERVAL :: int where
  "DEFAULT_CSDS_REFRESH_INTERVAL = 10 * 60 * 1000"

definition DefaultCsdsClientConfig :: "('res, 'lf, 'x) csds_client_base_scheme \<Rightarrow> ('res, 'lf) csds_client_config" where
  "DefaultCsdsClientConfig config =
     \<lparr>c_csdsConfig = b_csdsConfig config, c_csdsResolver = b_csdsResolver config,
      c_loggerFactory = b_loggerFactory config,
      refreshInterval = or_num (b_refreshInterval config) DEFAULT_CSDS_REFRESH_INTERVAL\<rparr>"

text \<open>The client's getter \<open>accountId\<close> reads its configuration.\<close>

definition client_accountId :: "('res, 'lf, 'x) csds_client_config_scheme \<Rightarrow> string" where
  "client_accountId config = accountId (c_csdsConfig config)"

section \<open>LeClient\<close>

record ('res, 'lf, 'cred, 'sp) le_client_base = "('res, 'lf) csds_client_base" +
  b_credentials :: 'cred
  b_sessionProvider :: 'sp

record ('res, 'lf, 'cred, 'sp) le_client_config = "('res, 'lf) csds_client_config" +
  c_credentials :: 'cred
  c_sessionProvider :: 'sp

definition DefaultLeClientConfig ::
  "('res, 'lf, 'cred, 'sp, 'x) le_client_base_scheme \<Rightarrow> ('res, 'lf, 'cred, 'sp) le_client_config" where
  "DefaultLeClientConfig config =
     csds_client_config.extend (DefaultCsdsClientConfig config)
       (le_client_config.fields (b_credentials config) (b_sessionProvider config))"

section \<open>TransportClient\<close>

record ('res, 'lf, 'cred, 'sp, 't, 'tc) transport_client_base = "('res, 'lf, 'cred, 'sp) le_client_base" +
  b_transport :: 't
  b_transportConfig :: 'tc

record ('res, 'lf, 'cred, 'sp, 't, 'tc) transport_client_config = "('res, 'lf, 'cred, 'sp) le_client_config" +
  c_transport :: 't
  c_transportConfig :: 'tc

definition DefaultTransportClientConfig ::
  "('res, 'lf, 'cred, 'sp, 't, 'tc, 'x) transport_client_base_scheme \<Rightarrow>
     ('res, 'lf, 'cred, 'sp, 't, 'tc) transport_client_config" where
  "DefaultTransportClientConfig config =
     le_client_config.extend (DefaultLeClientConfig config)
       (transport_client_config.fields (b_transport config) (b_transportConfig config))"

section \<open>UmsClient\<close>

record ('res, 'lf, 'cred, 'sp, 't, 'tc, 'n, 'f, 'i) ums_client_base =
    "('res, 'lf, 'cred, 'sp, 't, 'tc) transport_client_base" +
  b_umsNotificationHandler :: "'n emitter option"
  b_umsResponseHandler :: "'f emitter option"
  b_umsRequestTimeout :: "int option"
  b_idGenerator :: "'i option"

record ('res, 'lf, 'cred, 'sp, 't, 'tc, 'n, 'f, 'i) ums_client_config =
    "('res, 'lf, 'cred, 'sp, 't, 'tc) transport_client_config" +
  c_umsNotificationHandler :: "'n emitter"
  c_umsResponseHandler :: "'f emitter"
  umsRequestTimeout :: int
  idGenerator :: 'i

text \<open>\<open>defaultGenerator\<close> is \<open>new DefaultIDGenerator()\<close>.\<close>

definition DefaultUmsClientConfig ::
  "'i \<Rightarrow> ('res, 'lf, 'cred, 'sp, 't, 'tc, 'n, 'f, 'i) ums_client_base \<Rightarrow>
     ('res, 'lf, 'cred, 'sp, 't, 'tc, 'n, 'f, 'i) ums_client_config" where
  "DefaultUmsClientConfig defaultGenerator config =
     transport_client_config.extend (DefaultTransportClientConfig config)
       (ums_client_config.fields
         (or_obj (b_umsNotificationHandler config) [])
         (or_obj (b_umsResponseHandler config) [])
         (or_num (b_umsRequestTimeout config) 10000)
         (or_obj (b_idGenerator config) defaultGenerator))"

lemmas client_config_defs =
  DefaultUmsClientConfig_def DefaultTransportClientConfig_def DefaultLeClientConfig_def
  DefaultCsdsClientConfig_def DEFAULT_CSDS_REFRESH_INTERVAL_def
  csds_client_config.defs le_client_config.defs transport_client_config.defs ums_client_config.defs

text \<open>
  The configuration of a UMS client, through its four constructors: every collaborator is the
  caller's, the refresh interval and the request timeout are the caller's unless missing or 0 (then
  ten minutes and ten seconds), and an event emitter that is not given starts without listeners.
\<close>

theorem ums_config_defaults:
  "c_csdsConfig (DefaultUmsClientConfig g c) = b_csdsConfig c
   \<and> c_csdsResolver (DefaultUmsClientConfig g c) = b_csdsResolver c
   \<and> c_loggerFactory (DefaultUmsClientConfig g c) = b_loggerFactory c
   \<and> c_credentials (DefaultUmsClientConfig g c) = b_credentials c
   \<and> c_sessionProvider (DefaultUmsClientConfig g c) = b_sessionProvider c
   \<and> c_transport (DefaultUmsClientConfig g c) = b_transport c
   \<and> c_transportConfig (DefaultUmsClientConfig g c) = b_transportConfig c
   \<and> refreshInterval (DefaultUmsClientConfig g c) =
       (if b_refreshInterval c \<in> {None, Some 0} then 600000 else the (b_refreshInterval c))
   \<and> umsRequestTimeout (DefaultUmsClientConfig g c) =
       (if b_umsRequestTimeout c \<in> {None, Some 0} then 10000 else the (b_umsRequestTimeout c))
   \<and> (b_umsResponseHandler c = None \<longrightarrow> eventNames (c_umsResponseHandler (DefaultUmsClientConfig g c)) = [])
   \<and> (\<forall>i. b_idGenerator c = Some i \<longrightarrow> idGenerator (DefaultUmsClientConfig g c) = i)"
  by (cases "b_refreshInterval c"; cases "b_umsRequestTimeout c"; cases "b_idGenerator c")
     (simp_all add: client_config_defs eventNames_def)

definition sample_base ::
  "(unit, unit, unit, unit, unit, unit, unit, unit, nat) ums_client_base" where
  "sample_base =
     \<lparr>b_csdsConfig = \<lparr>accountId = ''1'', csdsDomain = ''d'', service = None\<rparr>, b_csdsResolver = (), b_loggerFactory = (),
      b_refreshInterval = Some 0, b_credentials = (), b_sessionProvider = (), b_transport = (), b_transportConfig = (),
      b_umsNotificationHandler = None, b_umsResponseHandler = None, b_umsRequestTimeout = Some 7, b_idGenerator = Some 3\<rparr>"

theorem ums_config_defaults_witness:
  "eventNames (c_umsResponseHandler (DefaultUmsClientConfig 0 sample_base)) = []
   \<and> idGenerator (DefaultUmsClientConfig 0 sample_base) = 3"
proof -
  have "b_umsResponseHandler sample_base = None" "b_idGenerator sample_base = Some 3"
    by (simp_all add: sample_base_def)
  then show ?thesis using ums_config_defaults [of 0 sample_base] by blast
qed

end
