(* ===== verification/Console_Logger.thy ===== *)
theory Console_Logger
  imports Prelude
begin

text \<open>
  \<open>packages/logger-console/src/logger.ts\<close>: the console logger. The colours are functions of the \<open>chalk\<close>
  package, the parameter \<open>color\<close>; what a call writes is the list of its outputs.
\<close>

datatype log_level = Verbose | Debug | Info | Warn | LogError

datatype chalk = Grey | White | WhiteBright | Yellow | Red

datatype console_fn = Console_log | Console_info | Console_warn | Console_error

text \<open>An argument: a string, or a value that is printed as it is.\<close>

datatype 'a log_arg = Str string | Obj 'a

datatype 'a log_output = Stdout string | Console console_fn "'a log_arg list"

record console_logger =
  logger_name :: string

definition ConsoleLoggerFactory_create :: "string \<Rightarrow> console_logger" where
  "ConsoleLoggerFactory_create name = \<lparr>logger_name = name\<rparr>"

definition color_arg :: "(chalk \<Rightarrow> string \<Rightarrow> string) \<Rightarrow> chalk \<Rightarrow> 'a log_arg \<Rightarrow> 'a log_arg" where
  "color_arg color c a = (case a of Str s \<Rightarrow> Str (color c s) | Obj x \<Rightarrow> Obj x)"

definition log_with ::
  "(chalk \<Rightarrow> string \<Rightarrow> string) \<Rightarrow> console_logger \<Rightarrow> console_fn \<Rightarrow> chalk \<Rightarrow> 'a log_arg list \<Rightarrow> 'a log_output list" where
  "log_with color l logFn c args =
     [Stdout (color c (''['' @ logger_name l @ ''] '')), Console logFn (map (color_arg color c) args)]"

fun log_call ::
  "(chalk \<Rightarrow> string \<Rightarrow> string) \<Rightarrow> console_logger \<Rightarrow> log_level \<Rightarrow> 'a log_arg list \<Rightarrow> 'a log_output list" where
  "log_call color l Verbose args = log_with color l Console_log Grey args"
| "log_call color l Debug args = log_with color l Console_log White args"
| "log_call color l Info args = log_with color l Console_info WhiteBright args"
| "log_call color l Warn args = log_with color l Console_warn Yellow args"
| "log_call color l LogError args = log_with color l Console_error Red args"

text \<open>
  A log call of any level writes the name of the logger once, before the message, and then all its
  arguments in order, unchanged but for the colour of the strings; different levels are written in
  different colours.
\<close>

theorem log_call_complete:
  "\<exists>c fn. log_call color (ConsoleLoggerFactory_create name) lvl args =
       [Stdout (color c (''['' @ name @ ''] '')), Console fn (map (color_arg color c) args)]
   \<and> (color c = (\<lambda>s. s) \<longrightarrow> map (color_arg color c) args = args)"
proof -
  have "map (color_arg color c) args = args" if "color c = (\<lambda>s. s)" for c
    using that by (intro map_idI) (simp add: color_arg_def split: log_arg.splits)
  then show ?thesis
    by (cases lvl) (auto simp: log_with_def ConsoleLoggerFactory_create_def)
qed

theorem log_call_complete_witness:
  "log_call (\<lambda>_ s. s) (ConsoleLoggerFactory_create ''n'') Warn [Str ''a'', Obj (1::nat)]
     = [Stdout ''[n] '', Console Console_warn [Str ''a'', Obj 1]]"
proof -
  obtain c fn where "log_call (\<lambda>_ s. s) (ConsoleLoggerFactory_create ''n'') Warn [Str ''a'', Obj (1::nat)]
     = [Stdout ''[n] '', Console fn (map (color_arg (\<lambda>_ s. s) c) [Str ''a'', Obj (1::nat)])]"
    "map (color_arg (\<lambda>_ s. s) c) [Str ''a'', Obj (1::nat)] = [Str ''a'', Obj 1]"
    using log_call_complete [of "\<lambda>_ s. s" "''n''" Warn "[Str ''a'', Obj (1::nat)]"] by auto
  moreover have "fn = Console_warn" using calculation(1)
    by (simp add: log_with_def ConsoleLoggerFactory_create_def)
  ultimately show ?thesis by simp
qed

end
