(* ===== verification/Id_Generator.thy ===== *)
theory Id_Generator
  imports Prelude
begin

unbundle bit_operations_syntax

text \<open>
  \<open>packages/ums-id-generator/src/generator.ts\<close>: random request ids in the form of a version 4 UUID. The
  numbers \<open>Math.random() * 16\<close> gives, rounded down as the shift does, are the input.
\<close>

text \<open>\<open>"" + 1e7 + -1e3 + -4e3 + -8e3 + -1e11\<close>.\<close>

definition template :: string where
  "template = ''10000000-1000-4000-8000-100000000000''"

text \<open>The characters \<open>/[018]/g\<close> matches, and their value as a number.\<close>

definition is_slot :: "char \<Rightarrow> bool" where
  "is_slot c \<longleftrightarrow> c \<in> {CHR ''0'', CHR ''1'', CHR ''8''}"

definition slot_value :: "char \<Rightarrow> nat" where
  "slot_value c = (if c = CHR ''8'' then 8 else if c = CHR ''1'' then 1 else 0)"

text \<open>\<open>n.toString(16)\<close> of a number below 16.\<close>

definition hex_digit :: "nat \<Rightarrow> char" where
  "hex_digit n = ''0123456789abcdef'' ! n"

text \<open>\<open>(a ^ r >> a / 4).toString(16)\<close>; the shift count \<open>a / 4\<close> is rounded down.\<close>

definition id_digit :: "char \<Rightarrow> nat \<Rightarrow> char" where
  "id_digit c r = hex_digit (slot_value c XOR (r div 2 ^ (slot_value c div 4)))"

text \<open>The replacement takes one random number for each match, from left to right.\<close>

fun fill :: "string \<Rightarrow> nat list \<Rightarrow> string" where
  "fill [] rs = []"
| "fill (c # cs) rs =
     (if is_slot c then (case rs of [] \<Rightarrow> [] | r # rs' \<Rightarrow> id_digit c r # fill cs rs')
      else c # fill cs rs)"

definition generateId :: "nat list \<Rightarrow> string" where
  "generateId rs = fill template rs"

section \<open>The shape of an id\<close>

lemma fill_nth:
  assumes "length rs = length (filter is_slot cs)"
  shows "length (fill cs rs) = length cs \<and>
    (\<forall>i < length cs. if is_slot (cs ! i) then \<exists>r \<in> set rs. fill cs rs ! i = id_digit (cs ! i) r
                     else fill cs rs ! i = cs ! i)"
  using assms
proof (induction cs arbitrary: rs)
  case (Cons c cs)
  show ?case
  proof (cases "is_slot c")
    case True
    then obtain r rs' where rs: "rs = r # rs'" "length rs' = length (filter is_slot cs)"
      using Cons.prems by (cases rs) auto
    from Cons.IH [OF rs(2)] True show ?thesis
      by (auto simp: rs(1) nth_Cons split: nat.splits if_splits)
  next
    case False
    then show ?thesis using Cons.IH [of rs] Cons.prems by (auto simp: nth_Cons split: nat.splits)
  qed
qed simp

lemma template_slots: "length (filter is_slot template) = 31" "length template = 36"
  by (simp_all add: template_def is_slot_def)

lemma less_16: "n < 16 \<Longrightarrow> n \<in> {0, 1, 2, 3, 4, 5, 6, 7, 8, 9, 10, 11, 12, 13, 14, 15}" for n :: nat
  by (simp only: insert_iff empty_iff) presburger

lemma id_digit_hex:
  assumes "r < 16" and "is_slot c"
  shows "id_digit c r \<in> set ''0123456789abcdef''"
  using less_16 [OF assms(1)] assms(2)
  by (auto simp: id_digit_def slot_value_def is_slot_def hex_digit_def)

lemma variant_digit: "r < 16 \<Longrightarrow> id_digit (CHR ''8'') r \<in> set ''89ab''"
  using less_16 [of r] by (auto simp: id_digit_def slot_value_def hex_digit_def)

text \<open>
  A generated id has the form of a version 4 UUID, whatever the random numbers: 36 characters,
  hyphens at the four places, the version digit 4, a variant digit of 8, 9, a or b, and hexadecimal
  digits everywhere else.
\<close>

theorem id_shape:
  assumes "length rs = 31" and "\<forall>r \<in> set rs. r < 16"
  shows "length (generateId rs) = 36 \<and> (\<forall>i \<in> {8, 13, 18, 23}. generateId rs ! i = CHR ''-'')
    \<and> generateId rs ! 14 = CHR ''4'' \<and> generateId rs ! 19 \<in> set ''89ab''
    \<and> (\<forall>i < 36. i \<notin> {8, 13, 18, 23} \<longrightarrow> generateId rs ! i \<in> set ''0123456789abcdef'')"
proof -
  note f = fill_nth [of rs template, unfolded template_slots, OF assms(1), folded generateId_def]
  have slot: "\<exists>r < 16. generateId rs ! i = id_digit (template ! i) r" if "i < 36" "is_slot (template ! i)" for i
    using f that assms(2) by metis
  have fixed: "generateId rs ! i = template ! i" if "i < 36" "\<not> is_slot (template ! i)" for i
    using f that by (auto split: if_splits)
  have t: "template ! 8 = CHR ''-''" "template ! 13 = CHR ''-''" "template ! 18 = CHR ''-''" "template ! 23 = CHR ''-''"
    "template ! 14 = CHR ''4''" "template ! 19 = CHR ''8''"
    by (simp_all add: template_def)
  have other: "template ! i = CHR ''4'' \<or> is_slot (template ! i)" if "i < 36" "i \<notin> {8, 13, 18, 23}" for i
  proof -
    have "\<forall>i \<in> set [0..<36]. i \<notin> {8, 13, 18, 23} \<longrightarrow> template ! i = CHR ''4'' \<or> is_slot (template ! i)"
      unfolding template_def is_slot_def by (simp add: upt_rec)
    then show ?thesis using that by simp
  qed
  have hex: "generateId rs ! i \<in> set ''0123456789abcdef''" if "i < 36" "i \<notin> {8, 13, 18, 23}" for i
  proof (cases "is_slot (template ! i)")
    case True
    then show ?thesis using slot [OF that(1)] id_digit_hex by metis
  next
    case False
    then have "template ! i = CHR ''4''" using other [OF that] by simp
    then show ?thesis using fixed [OF that(1) False] by simp
  qed
  have var: "generateId rs ! 19 \<in> set ''89ab''"
  proof -
    have "is_slot (template ! 19)" using t by (simp add: is_slot_def)
    then obtain r where "r < 16" "generateId rs ! 19 = id_digit (CHR ''8'') r" using slot [of 19] t by auto
    then show ?thesis using variant_digit by simp
  qed
  show ?thesis using f hex var fixed t by (auto simp: is_slot_def)
qed

theorem id_shape_witness: "generateId (replicate 31 5) ! 14 = CHR ''4''"
  using id_shape [of "replicate 31 5"] by simp

section \<open>Uniqueness\<close>

text \<open>What of a random number a slot keeps.\<close>

definition kept_part :: "char \<Rightarrow> nat \<Rightarrow> nat" where
  "kept_part c r = r div 2 ^ (slot_value c div 4)"

lemma xor_cancel: "a XOR x = a XOR y \<Longrightarrow> x = y" for a x y :: nat
  by (metis xor.assoc xor.left_neutral xor_self_eq)

lemma hex_digit_inject: "m < 16 \<Longrightarrow> n < 16 \<Longrightarrow> hex_digit m = hex_digit n \<Longrightarrow> m = n"
  unfolding hex_digit_def by (subst (asm) nth_eq_iff_index_eq) simp_all

lemma digit_below: "r < 16 \<Longrightarrow> is_slot c \<Longrightarrow> slot_value c XOR kept_part c r < 16"
  using less_16 [of r] by (auto simp: kept_part_def slot_value_def is_slot_def)

lemma id_digit_inject:
  assumes "r < 16" and "r' < 16" and "is_slot c"
  shows "id_digit c r = id_digit c r' \<longleftrightarrow> kept_part c r = kept_part c r'"
proof
  assume "id_digit c r = id_digit c r'"
  then have "slot_value c XOR kept_part c r = slot_value c XOR kept_part c r'"
    using hex_digit_inject [OF digit_below [OF assms(1,3)] digit_below [OF assms(2,3)]]
    by (simp add: id_digit_def kept_part_def)
  then show "kept_part c r = kept_part c r'" by (rule xor_cancel)
qed (simp add: id_digit_def kept_part_def)

lemma fill_inject:
  assumes "length rs = length (filter is_slot cs)" and "length rs' = length (filter is_slot cs)"
    and "\<forall>r \<in> set rs. r < 16" and "\<forall>r \<in> set rs'. r < 16"
  shows "fill cs rs = fill cs rs' \<longleftrightarrow> map2 kept_part (filter is_slot cs) rs = map2 kept_part (filter is_slot cs) rs'"
  using assms
proof (induction cs arbitrary: rs rs')
  case (Cons c cs)
  show ?case
  proof (cases "is_slot c")
    case True
    then obtain r qs r' qs' where "rs = r # qs" "rs' = r' # qs'"
      using Cons.prems(1,2) by (cases rs; cases rs') auto
    then show ?thesis using True Cons.IH [of qs qs'] Cons.prems id_digit_inject [of r r' c] by auto
  next
    case False
    then show ?thesis using Cons.IH [of rs rs'] Cons.prems by auto
  qed
qed simp

text \<open>
  Ids collide only when the randomness does: two ids are equal exactly when all their random
  digits are, two of the four bits of the variant digit apart; 122 random bits go into an id.
\<close>

theorem id_collisions:
  assumes "length rs = 31" and "length rs' = 31" and "\<forall>r \<in> set rs. r < 16" and "\<forall>r \<in> set rs'. r < 16"
  shows "generateId rs = generateId rs' \<longleftrightarrow>
    (\<forall>i < 31. if i = 15 then rs ! i div 4 = rs' ! i div 4 else rs ! i = rs' ! i)"
proof -
  let ?slots = "filter is_slot template"
  have len: "length ?slots = 31" by (rule template_slots(1))
  have slots: "?slots = replicate 1 (CHR ''1'') @ replicate 7 (CHR ''0'') @ CHR ''1'' # replicate 6 (CHR ''0'')
      @ CHR ''8'' # replicate 3 (CHR ''0'') @ CHR ''1'' # replicate 11 (CHR ''0'')"
    by (simp add: template_def is_slot_def numeral_eq_Suc)
  have kept: "kept_part (?slots ! i) r = (if i = 15 then r div 4 else r)" if "i < 31" for i r
  proof -
    have "\<forall>i \<in> set [0..<31]. slot_value (?slots ! i) div 4 = (if i = 15 then 2 else 0)"
      unfolding slots by (simp add: upt_rec slot_value_def nth_Cons' nth_append)
    then show ?thesis using that by (simp add: kept_part_def)
  qed
  have "generateId rs = generateId rs' \<longleftrightarrow> map2 kept_part ?slots rs = map2 kept_part ?slots rs'"
    unfolding generateId_def by (rule fill_inject) (use assms len in simp_all)
  also have "\<dots> \<longleftrightarrow> (\<forall>i < 31. kept_part (?slots ! i) (rs ! i) = kept_part (?slots ! i) (rs' ! i))"
    using assms len by (simp add: list_eq_iff_nth_eq)
  finally show ?thesis by (simp add: kept)
qed

theorem id_collisions_witness: "generateId (replicate 31 5) \<noteq> generateId (replicate 31 6)"
proof
  assume eq: "generateId (replicate 31 5) = generateId (replicate 31 6)"
  have "\<forall>i < 31. if i = 15 then replicate 31 5 ! i div 4 = replicate 31 (6 :: nat) ! i div 4
      else replicate 31 5 ! i = replicate 31 (6 :: nat) ! i"
    using id_collisions [of "replicate 31 5" "replicate 31 6"] eq by simp
  from spec [OF this, of 0] show False by simp
qed

end
