(* ===== verification/Spec2Isabelle.thy ===== *)
theory Spec2Isabelle
  imports Ums_Typing Ums_Refinement Client_Termination Ums_Sessions Http_Properties Agent_Connection
    Client_Config Console_Logger Id_Generator
begin

text \<open>
  A verification development for lp-clients, a monorepo of TypeScript packages for the LivePerson
  APIs (\<open>packages/*/src\<close>).

  THE PROGRAM. A client is built in four layers of classes: \<open>CsdsClient\<close> (csds-client) looks up the
  account's service domains and refreshes them periodically; \<open>LeClient\<close> (le-client) adds a login
  session; \<open>TransportClient\<close> (transport-client) connects a transport; \<open>UmsClient\<close> (ums-client) sends
  requests, pairs them with responses by id and dispatches notifications. The life cycle
  (start, stop, refresh) is a state machine of a third-party package; each class overrides the
  handlers of the transitions and calls its super class first. Domains come from a CSDS resolver
  (csds-resolver, csds-simple-resolver, csds-caching-resolver) over an HTTP helper (util-request),
  sessions from a provider (le-agent-session-provider, le-consumer-session-provider), the
  connection from a transport (transport-ws) with a connection factory (ums-connection).

  HOW IT IS MODELLED. Values that may be \<open>undefined\<close> are options, exceptions and rejected promises are
  the left side of a sum (\<open>js_error\<close> in \<open>Prelude\<close>), objects are association lists in insertion order.
  Asynchronous code is cut at its \<open>await\<close>s: a method is the list of its statements, runs to the next
  \<open>await\<close> and is suspended there until its answer comes, and other code may run in between. What the
  environment does (answers, timers, socket events, user calls) is a datatype of events, a step
  function applies one event, and the states a new object can get into are an inductive relation.
  Third-party packages are parameters: \<open>got\<close> and the outside world behind it is a function on a state
  of its own, the state machine package a record with its documented behaviour as the hypothesis
  \<open>jsm_documented\<close> (met by \<open>reference_jsm\<close>), the memoizing package one with \<open>mem_documented\<close> (met by
  \<open>reference_mem\<close>), the sending queue and the parsing of incoming text a record of operations, the cookie
  and colour packages functions.

  THE THEORIES, in the order of their imports.
  \<^item> \<open>Prelude\<close>, \<open>Json\<close>, \<open>Json_Text\<close>: results, objects, strings and numbers; JSON values and the type
    guards of util-types (\<open>json.ts\<close>); \<open>JSON.stringify\<close>. \<open>Json_Parse\<close>, \<open>Base64\<close>: \<open>JSON.parse\<close> and the
    decoding of base64, with their round trips.
  \<^item> \<open>Request\<close>, \<open>Csds_Config\<close>, \<open>Csds_Resolver\<close>, \<open>Csds_Caching\<close>, \<open>Http_Properties\<close>: util-request (\<open>doRequest\<close>
    with its one retry), csds-config, the resolvers with their interface as the locale \<open>csds_resolver\<close>
    (interpreted on \<open>simple_resolve\<close>); the resolver that memorizes, as a state machine of calls and
    answers, how old and how right its answers are, and which accounts and directories its key mixes up; what a request and a resolution come to.
  \<^item> \<open>Event_Emitter\<close>: \<open>TypedEventEmitter\<close>, with the locale \<open>listener_table\<close> its clients use.
  \<^item> \<open>Client_State\<close>: the object of the client classes and the statements that do not wait.
    \<open>Client_Runtime\<close>: statements, suspension, answers, exceptions. \<open>Csds_Client\<close>, \<open>Le_Client\<close>,
    \<open>Transport_Client\<close>, \<open>Ums_Handlers\<close>: the handlers of each class, a subclass's as its super class's
    followed by its own, as in the code. \<open>Client_System\<close>: a client of any class among its callers and
    timers (\<open>sys_step\<close>, \<open>reachable\<close>).
  \<^item> \<open>Client_Invariants\<close> (transitions exclude one another), \<open>Client_Data\<close> (locales \<open>resource\<close> and
    \<open>attainment\<close>: what a successful transition establishes lasts until a statement of the opposite
    transition destroys it; interpreted for the domains and the session, both ways),
    \<open>Client_Timers\<close> (the chain of refresh timers), \<open>Client_Lifecycle\<close> (the properties, whole runs,
    and the runs in which start, stop and refresh go wrong), \<open>Client_Termination\<close> (every call settles,
    after a bounded number of answers).
  \<^item> \<open>Ums_Client\<close>, \<open>Ums_Requests\<close>, \<open>Ums_Properties\<close>: the requests of a UMS client on top of its life
    cycle; their invariant; routing, timeouts, \<open>pendingMessages\<close>, notifications, and what a restart
    breaks. \<open>Ums_Refinement\<close>: the client implements an abstract map from ids in use to requests.
    \<open>Ums_Life\<close>: its life cycle is that of \<open>Client_System\<close>. \<open>Ums_Listeners\<close>: it has registered one message
    callback for every start that has got that far, and none is ever taken away.
  \<^item> ums-generated: \<open>Ums_Generated\<close> (the event tables and wrappers of \<open>generated/index.ts\<close>),
    \<open>Interface_Generator\<close> (all of \<open>build/generate_interfaces.ts\<close>, on source files as data),
    \<open>Generated_Index\<close> (the other declarations of the file as data: the generator makes exactly
    these, up to the space the formatter puts after \<open>new\<close>), \<open>Ts_Types\<close> (the types of TypeScript and the values they have), \<open>Ums_Types\<close> (the compiled
    interfaces as types) and \<open>Ums_Typing\<close> (the values of these types, and that a typed response or
    notification gets to where the types say).
  \<^item> \<open>Connection_Factory\<close>, \<open>Ws_Config\<close>, \<open>Ws_Transport\<close>, \<open>Ws_System\<close>, \<open>Ws_Invariants\<close>, \<open>Ws_Properties\<close>,
    \<open>Ws_Messages\<close>: where a transport connects (locale \<open>ws_connection\<close>, interpreted on both factories), its
    configuration, \<open>WsTransport\<close> with its socket events, queue worker and timers (those whose handle it
    keeps in a table, the others, which retry a message, in the state of the message; \<open>pending_timers\<close> has
    both), and messages from one transport to another.
  \<^item> \<open>Ws_Interface\<close>: \<open>ITransport\<close> as a record of operations, what its clients rely on as the locale
    \<open>itransport\<close>, interpreted on \<open>WsTransport\<close>. \<open>Ums_Over_Ws\<close>: a UMS client and its transport as one
    system; the client's calls are the transport's operations, the promises it waits for and the
    messages it gets are the transport's, and each part still runs as it does on its own (\<open>parts_ok\<close>).
    \<open>Ums_Exchange\<close>: a start, a request, a response and a stop, step by step. \<open>Ums_Sessions\<close>: what the two
    make together, and what goes wrong when the transport closes itself.
  \<^item> \<open>Session_Providers\<close>, \<open>Session_Properties\<close>, \<open>Session_Types\<close>: the agent's and the consumers' sessions;
    their interfaces as types, and what a typed answer of a login gives. \<open>Session_Interface\<close>:
    \<open>ISessionProvider\<close> as a record of operations and the locale \<open>session_provider\<close>, interpreted on all three
    providers. \<open>Le_Requests\<close>: authenticated requests. \<open>Le_Services\<close>: a client with its resolver and provider as
    one system, in which the answers the life cycle waits for are what these make of the outside
    world; all data of the client, and the token its requests carry, comes from its own services.
    \<open>Agent_Connection\<close>: so do the endpoint and the headers its transport connects with.
  \<^item> \<open>Client_Config\<close>: the configuration classes. \<open>Console_Logger\<close>, \<open>Id_Generator\<close>: what their names say.

  BOUNDS. Loops are structural or have a measure (\<open>doRequest\<close> retries once), and code that waits is cut
  into steps. Only the JSON parser takes fuel, twice the length of the text and two; more never
  changes the answer (\<open>parse_enough\<close>). Numbers are unbounded integers; the code's are small (status codes,
  milliseconds, retries).

  NOT MODELLED. Logging calls inside the other packages; fractions and exponents of JSON numbers,
  characters beyond 8 bits, and the order JavaScript gives to object keys that look like numbers; the
  runtime's \<open>JSON.parse\<close> and base64 in the session providers and the transport stay parameters, which
  their hypotheses relate to \<open>stringify\<close> and \<open>base64url\<close>, and which \<open>parse_json\<close> and \<open>base64_decode\<close> meet;
  \<open>inspect\<close>; what json-schema, ts-simple-ast and pascal-case do for the generator (parameters) and the
  text it writes; the microtask in which a promise's callback runs where nothing can observe it; the
  uuid package behind ums-uuid-generator, jest mocks and configuration, the type-level helpers and the
  outdated example.

  PLAN. Next: the delays of the transport's timers against those of the request timeouts, and the two
  compositions (\<open>Le_Services\<close> with \<open>Agent_Connection\<close>, and \<open>Ums_Over_Ws\<close>) as one.
\<close>

end
